(* ===== verification/Go_Prelude.thy ===== *)
theory Go_Prelude
  imports Main "HOL-Library.Word" "HOL-Library.Monad_Syntax"
begin

text \<open>
  Shared vocabulary of the development: Go bytes, strings, slices, error values and the
  parts of \<^verbatim>\<open>strconv\<close>, \<^verbatim>\<open>encoding/hex\<close> and \<^verbatim>\<open>strings\<close> that the module calls.
  A Go \<^verbatim>\<open>byte\<close> is an \<open>8 word\<close>, a Go string the list of its bytes as characters.
  A computation that may panic returns an \<open>option\<close>: \<open>None\<close> is the run-time panic
  (index or slice out of range, call of a nil function, nil dereference).  An error return
  is a value of \<open>goerr\<close>, or \<open>goerr + 'a\<close> for a Go pair \<^verbatim>\<open>(v, err)\<close>.
\<close>

unbundle bit_operations_syntax

named_theorems go_defs \<open>definitions of the Go run-time helpers\<close>

type_synonym byte = "8 word"

subsection \<open>Error values\<close>

datatype goerr =
    ErrMsg string
  | ErrSyntax string
  | ErrRange string
  | ErrHexByte
  | ErrHexLength
  | ErrWrap string goerr

subsection \<open>Slices\<close>

text \<open>\<open>xs[i]\<close> and \<open>xs[i:j]\<close>, with the bounds check the Go run time makes.\<close>

definition go_index :: "'a list \<Rightarrow> nat \<Rightarrow> 'a option" where
  [go_defs]: "go_index xs i = (if i < length xs then Some (xs ! i) else None)"

definition go_slice :: "'a list \<Rightarrow> nat \<Rightarrow> nat \<Rightarrow> 'a list option" where
  [go_defs]: "go_slice xs i j = (if i \<le> j \<and> j \<le> length xs then Some (take (j - i) (drop i xs)) else None)"

lemma go_index_Some [simp]: "i < length xs \<Longrightarrow> go_index xs i = Some (xs ! i)"
  by (simp add: go_index_def)

lemma go_index_None [simp]: "length xs \<le> i \<Longrightarrow> go_index xs i = None"
  by (simp add: go_index_def)

lemma go_slice_Some [simp]:
  "i \<le> j \<Longrightarrow> j \<le> length xs \<Longrightarrow> go_slice xs i j = Some (take (j - i) (drop i xs))"
  by (simp add: go_slice_def)

lemma go_slice_length: "go_slice xs i j = Some ys \<Longrightarrow> length ys = j - i"
  by (auto simp: go_slice_def split: if_splits)

subsection \<open>Decimal and hexadecimal numerals (package strconv)\<close>

definition digit_char :: "nat \<Rightarrow> char" where
  "digit_char n = char_of (if n < 10 then 48 + n else 87 + n)"

definition digit_val :: "char \<Rightarrow> nat option" where
  "digit_val c = (let n = of_char c :: nat in
     if 48 \<le> n \<and> n \<le> 57 then Some (n - 48)
     else if 97 \<le> n \<and> n \<le> 122 then Some (n - 87)
     else if 65 \<le> n \<and> n \<le> 90 then Some (n - 55)
     else None)"

fun itoa_nat :: "nat \<Rightarrow> string" where
  "itoa_nat n = (if n < 10 then [digit_char n] else itoa_nat (n div 10) @ [digit_char (n mod 10)])"

declare itoa_nat.simps [simp del]

text \<open>\<^verbatim>\<open>strconv.Itoa\<close>.\<close>

definition itoa :: "int \<Rightarrow> string" where
  "itoa i = (if i < 0 then CHR ''-'' # itoa_nat (nat (- i)) else itoa_nat (nat i))"

fun parse_digits :: "nat \<Rightarrow> nat \<Rightarrow> string \<Rightarrow> nat option" where
  "parse_digits base acc [] = Some acc"
| "parse_digits base acc (c # cs) =
     (case digit_val c of
        None \<Rightarrow> None
      | Some d \<Rightarrow> if d < base then parse_digits base (acc * base + d) cs else None)"

text \<open>
  \<^verbatim>\<open>strconv.ParseInt(s, base, 0)\<close> for a base between 2 and 36 (\<^verbatim>\<open>strconv.Atoi\<close> is base 10):
  an optional sign, at least one digit, and the value has to fit a 64-bit \<^verbatim>\<open>int\<close>.
\<close>

definition parse_int :: "nat \<Rightarrow> string \<Rightarrow> goerr + int" where
  "parse_int base s =
     (let neg = (s \<noteq> [] \<and> hd s = CHR ''-'');
          ds = (if s \<noteq> [] \<and> (hd s = CHR ''-'' \<or> hd s = CHR ''+'') then tl s else s)
      in if ds = [] then Inl (ErrSyntax s)
         else case parse_digits base 0 ds of
                None \<Rightarrow> Inl (ErrSyntax s)
              | Some un \<Rightarrow>
                  if \<not> neg \<and> 2 ^ 63 \<le> un then Inl (ErrRange s)
                  else if neg \<and> 2 ^ 63 < un then Inl (ErrRange s)
                  else Inr (if neg then - int un else int un))"

abbreviation atoi :: "string \<Rightarrow> goerr + int" where
  "atoi \<equiv> parse_int 10"

lemma of_char_char_of_nat [simp]: "n < 256 \<Longrightarrow> of_char (char_of n) = (n :: nat)"
  by simp

lemma digit_val_digit_char: "n < 36 \<Longrightarrow> digit_val (digit_char n) = Some n"
  by (auto simp: digit_val_def digit_char_def Let_def)

lemma parse_digits_append:
  "parse_digits base acc (xs @ ys) =
     (case parse_digits base acc xs of None \<Rightarrow> None | Some a \<Rightarrow> parse_digits base a ys)"
  by (induction base acc xs rule: parse_digits.induct) (auto split: option.splits)

lemma itoa_nat_nonempty [simp]: "itoa_nat n \<noteq> []"
  by (subst itoa_nat.simps) simp

lemma parse_digits_itoa_nat: "parse_digits 10 0 (itoa_nat n) = Some n"
proof (induction n rule: itoa_nat.induct)
  case (1 n)
  then show ?case
    by (cases "n < 10") (subst itoa_nat.simps, simp add: digit_val_digit_char parse_digits_append)+
qed

lemma digit_char_not_sign:
  "n < 36 \<Longrightarrow> digit_char n \<noteq> CHR ''-'' \<and> digit_char n \<noteq> CHR ''+''"
  using digit_val_digit_char [of n] by (auto simp: digit_val_def Let_def)

lemma set_itoa_nat: "c \<in> set (itoa_nat n) \<Longrightarrow> \<exists>d<10. c = digit_char d"
proof (induction n rule: itoa_nat.induct)
  case (1 n)
  show ?case
  proof (cases "n < 10")
    case True
    with 1(2) show ?thesis by (subst (asm) itoa_nat.simps) auto
  next
    case False
    have "c \<in> set (itoa_nat (n div 10)) \<or> c = digit_char (n mod 10)"
      using 1(2) False by (subst (asm) itoa_nat.simps) auto
    moreover have "n mod 10 < 10" by simp
    ultimately show ?thesis using 1(1) [OF False] by blast
  qed
qed

lemma hd_itoa_nat_not_sign: "hd (itoa_nat n) \<noteq> CHR ''-'' \<and> hd (itoa_nat n) \<noteq> CHR ''+''"
proof -
  obtain d where "d < 10" "hd (itoa_nat n) = digit_char d"
    using set_itoa_nat [OF hd_in_set [OF itoa_nat_nonempty]] by blast
  then show ?thesis using digit_char_not_sign [of d] by simp
qed

lemma dash_notin_itoa_nat: "CHR ''-'' \<notin> set (itoa_nat n)"
proof
  assume "CHR ''-'' \<in> set (itoa_nat n)"
  then obtain d where "d < 10" "CHR ''-'' = digit_char d" using set_itoa_nat by blast
  then show False using digit_char_not_sign [of d] by simp
qed

lemma atoi_itoa_nat: "n < 2 ^ 63 \<Longrightarrow> atoi (itoa_nat n) = Inr (int n)"
  by (simp add: parse_int_def Let_def hd_itoa_nat_not_sign parse_digits_itoa_nat)

lemma atoi_itoa: "- (2 ^ 63) \<le> i \<Longrightarrow> i < 2 ^ 63 \<Longrightarrow> atoi (itoa i) = Inr i"
  by (auto simp: itoa_def atoi_itoa_nat nat_less_iff)
     (auto simp: parse_int_def Let_def parse_digits_itoa_nat)

subsection \<open>Package encoding/hex\<close>

definition hex_val :: "char \<Rightarrow> nat option" where
  "hex_val c = (case digit_val c of None \<Rightarrow> None | Some d \<Rightarrow> if d < 16 then Some d else None)"

fun hex_encode :: "byte list \<Rightarrow> string" where
  "hex_encode [] = []"
| "hex_encode (b # bs) = digit_char (unat b div 16) # digit_char (unat b mod 16) # hex_encode bs"

text \<open>
  \<^verbatim>\<open>hex.DecodeString\<close> returns the bytes decoded before the first error together with the
  error; several callers in the module drop the error and keep the prefix.
\<close>

fun hex_decode :: "string \<Rightarrow> byte list \<times> goerr option" where
  "hex_decode [] = ([], None)"
| "hex_decode [c] = ([], Some (if hex_val c = None then ErrHexByte else ErrHexLength))"
| "hex_decode (c # d # cs) =
     (case (hex_val c, hex_val d) of
        (Some a, Some b) \<Rightarrow>
          (case hex_decode cs of (bs, e) \<Rightarrow> (word_of_nat (16 * a + b) # bs, e))
      | _ \<Rightarrow> ([], Some ErrHexByte))"

text \<open>\<^verbatim>\<open>strings.ToUpper\<close> and \<^verbatim>\<open>strings.EqualFold\<close> on ASCII strings.\<close>

definition upper_char :: "char \<Rightarrow> char" where
  "upper_char c = (let n = of_char c :: nat in if 97 \<le> n \<and> n \<le> 122 then char_of (n - 32) else c)"

definition to_upper :: "string \<Rightarrow> string" where
  "to_upper s = map upper_char s"

definition equal_fold :: "string \<Rightarrow> string \<Rightarrow> bool" where
  "equal_fold s t \<longleftrightarrow> to_upper s = to_upper t"

lemma unat_byte_lt [simp]: "unat (b :: byte) < 256"
  using unsigned_less [where ?'a = nat, of b] by simp

lemma unat_byte_div16: "unat (b :: byte) div 16 < 16"
  using unat_byte_lt [of b] by linarith

lemma hex_val_digit_char: "n < 16 \<Longrightarrow> hex_val (digit_char n) = Some n"
  by (simp add: hex_val_def digit_val_digit_char)

lemma hex_val_upper_digit: "n < 16 \<Longrightarrow> hex_val (upper_char (digit_char n)) = Some n"
  by (auto simp: hex_val_def upper_char_def digit_char_def digit_val_def Let_def)

lemma word_of_nat_nibbles: "word_of_nat (16 * (unat b div 16) + unat b mod 16) = (b :: byte)"
  by simp

lemma hex_decode_encode: "hex_decode (hex_encode bs) = (bs, None)"
  by (induction bs)
     (simp_all add: hex_val_digit_char unat_byte_div16 word_of_nat_nibbles del: of_nat_add of_nat_mult)

lemma hex_decode_upper_encode: "hex_decode (to_upper (hex_encode bs)) = (bs, None)"
  by (induction bs)
     (simp_all add: to_upper_def hex_val_upper_digit unat_byte_div16 word_of_nat_nibbles
        del: of_nat_add of_nat_mult)

lemma length_hex_encode [simp]: "length (hex_encode bs) = 2 * length bs"
  by (induction bs) simp_all

lemma length_to_upper [simp]: "length (to_upper s) = length s"
  by (simp add: to_upper_def)

lemma upper_char_idem [simp]: "upper_char (upper_char c) = upper_char c"
proof -
  have "of_char c < (256 :: nat)" by simp
  then show ?thesis by (auto simp: upper_char_def Let_def)
qed

lemma to_upper_idem [simp]: "to_upper (to_upper s) = to_upper s"
  by (simp add: to_upper_def)

lemma hex_decode_length: "length (fst (hex_decode s)) \<le> length s div 2"
  by (induction s rule: hex_decode.induct) (auto split: option.splits prod.splits)

subsection \<open>strings.Split with a one-byte separator\<close>

fun split_on :: "char \<Rightarrow> string \<Rightarrow> string list" where
  "split_on sep [] = [[]]"
| "split_on sep (c # cs) =
     (if c = sep then [] # split_on sep cs
      else case split_on sep cs of
             [] \<Rightarrow> [[c]]
           | p # ps \<Rightarrow> (c # p) # ps)"

lemma split_on_nonempty [simp]: "split_on sep s \<noteq> []"
  by (induction s) (auto split: list.splits)

lemma split_on_no_sep: "sep \<notin> set s \<Longrightarrow> split_on sep s = [s]"
  by (induction s) auto

lemma split_on_sep: "sep \<notin> set s \<Longrightarrow> split_on sep (s @ sep # t) = s # split_on sep t"
  by (induction s) auto

end
