(* ===== verification/Go_Float.thy ===== *)
theory Go_Float
  imports Go_Prelude Complex_Main
begin

text \<open>
  Go's \<^verbatim>\<open>float64\<close> and \<^verbatim>\<open>float32\<close> as exact rationals with IEEE rounding to nearest, ties to
  even.  A value is a finite rational, negative zero, an infinity or NaN (one NaN: payloads
  are not distinguished).  The arithmetic the module uses has one operand that is a
  constant, so the operations below take that operand as a rational constant.
\<close>

unbundle bit_operations_syntax

datatype gofloat = Fin rat | NegZero | Inf bool | NaN

subsection \<open>Rounding\<close>

fun nbits :: "nat \<Rightarrow> nat" where
  "nbits n = (if n = 0 then 0 else Suc (nbits (n div 2)))"

declare nbits.simps [simp del]

lemma nbits_bounds: "n < 2 ^ nbits n \<and> (0 < n \<longrightarrow> 2 ^ (nbits n - 1) \<le> n)"
proof (induction n rule: nbits.induct)
  case (1 n)
  show ?case
  proof (cases "n = 0")
    case True
    then show ?thesis by (simp add: nbits.simps)
  next
    case False
    with 1 have IH: "n div 2 < 2 ^ nbits (n div 2)" "0 < n div 2 \<longrightarrow> 2 ^ (nbits (n div 2) - 1) \<le> n div 2"
      by auto
    have nb: "nbits n = Suc (nbits (n div 2))" using False by (simp add: nbits.simps [of n])
    have up: "n < 2 ^ nbits n" unfolding nb using IH(1) by simp
    have "2 ^ nbits (n div 2) \<le> n"
    proof (cases "n div 2 = 0")
      case True
      then show ?thesis using False by (simp add: nbits.simps [of 0])
    next
      case nz: False
      then have "nbits (n div 2) = Suc (nbits (n div 2) - 1)"
        by (simp add: nbits.simps [of "n div 2"])
      then have "(2 :: nat) ^ nbits (n div 2) = 2 * 2 ^ (nbits (n div 2) - 1)" by (metis power_Suc)
      then show ?thesis using IH(2) nz by linarith
    qed
    then show ?thesis unfolding nb using up nb by simp
  qed
qed

text \<open>\<open>floor (log2 x)\<close> of a positive rational.\<close>

definition rexp :: "rat \<Rightarrow> int" where
  "rexp x = (case quotient_of x of (n, d) \<Rightarrow>
     let k = int (nbits (nat n)) - int (nbits (nat d))
     in if 2 powi k \<le> x then k else k - 1)"

definition round_even :: "rat \<Rightarrow> int" where
  "round_even y = (let f = \<lfloor>y\<rfloor>; r = y - of_int f in
     if r < 1/2 then f else if 1/2 < r then f + 1 else if even f then f else f + 1)"

text \<open>Rounding to precision \<open>p\<close> with smallest exponent \<open>emin\<close> (53, -1074 or 24, -149).\<close>

definition ulp_exp :: "nat \<Rightarrow> int \<Rightarrow> rat \<Rightarrow> int" where
  "ulp_exp p emin x = max (rexp \<bar>x\<bar> - int p + 1) emin"

definition rnd :: "nat \<Rightarrow> int \<Rightarrow> rat \<Rightarrow> rat" where
  "rnd p emin x = (if x = 0 then 0 else
     let u = 2 powi ulp_exp p emin x in of_int (round_even (x / u)) * u)"

abbreviation r64 :: "rat \<Rightarrow> rat" where "r64 \<equiv> rnd 53 (- 1074)"
abbreviation r32 :: "rat \<Rightarrow> rat" where "r32 \<equiv> rnd 24 (- 149)"

definition mk_float :: "nat \<Rightarrow> int \<Rightarrow> int \<Rightarrow> rat \<Rightarrow> gofloat" where
  "mk_float p emin emax x =
     (let r = rnd p emin x in
      if 2 powi emax \<le> \<bar>r\<bar> then Inf (r < 0)
      else if r = 0 \<and> x < 0 then NegZero
      else Fin r)"

definition mk_f64 :: "rat \<Rightarrow> gofloat" where "mk_f64 = mk_float 53 (- 1074) 1024"
definition mk_f32 :: "rat \<Rightarrow> gofloat" where "mk_f32 = mk_float 24 (- 149) 128"

subsection \<open>Conversions and arithmetic\<close>

definition f64_of_int :: "int \<Rightarrow> gofloat" where
  "f64_of_int n = mk_f64 (of_int n)"

definition f32_of_int :: "int \<Rightarrow> gofloat" where
  "f32_of_int n = mk_f32 (of_int n)"

text \<open>\<^verbatim>\<open>float32(v)\<close> of a float64; \<^verbatim>\<open>float64(v)\<close> of a float32 is exact, the identity here.\<close>

fun f32_of_f64 :: "gofloat \<Rightarrow> gofloat" where
  "f32_of_f64 (Fin x) = mk_f32 x"
| "f32_of_f64 v = v"

text \<open>\<open>v / c\<close> and \<open>v * c\<close> for a constant \<open>c > 0\<close>; \<open>v + c\<close> for a constant \<open>c\<close>.\<close>

fun fl_divc :: "(rat \<Rightarrow> gofloat) \<Rightarrow> gofloat \<Rightarrow> rat \<Rightarrow> gofloat" where
  "fl_divc mk (Fin x) c = mk (x / c)"
| "fl_divc mk v c = v"

fun fl_mulc :: "(rat \<Rightarrow> gofloat) \<Rightarrow> gofloat \<Rightarrow> rat \<Rightarrow> gofloat" where
  "fl_mulc mk (Fin x) c = mk (x * c)"
| "fl_mulc mk v c = v"

fun fl_addc :: "(rat \<Rightarrow> gofloat) \<Rightarrow> gofloat \<Rightarrow> rat \<Rightarrow> gofloat" where
  "fl_addc mk (Fin x) c = mk (x + c)"
| "fl_addc mk NegZero c = mk c"
| "fl_addc mk v c = v"

text \<open>\<open>v < c\<close> and \<open>c < v\<close>; comparisons with NaN are false.\<close>

fun fl_ltc :: "gofloat \<Rightarrow> rat \<Rightarrow> bool" where
  "fl_ltc (Fin x) c = (x < c)"
| "fl_ltc NegZero c = (0 < c)"
| "fl_ltc (Inf neg) c = neg"
| "fl_ltc NaN c = False"

fun fl_gtc :: "gofloat \<Rightarrow> rat \<Rightarrow> bool" where
  "fl_gtc (Fin x) c = (c < x)"
| "fl_gtc NegZero c = (c < 0)"
| "fl_gtc (Inf neg) c = (\<not> neg)"
| "fl_gtc NaN c = False"

text \<open>\<^verbatim>\<open>math.Round\<close>: half away from zero.\<close>

definition round_away :: "rat \<Rightarrow> int" where
  "round_away x = (if 0 \<le> x then \<lfloor>x + 1/2\<rfloor> else - \<lfloor>- x + 1/2\<rfloor>)"

fun fl_round :: "gofloat \<Rightarrow> gofloat" where
  "fl_round (Fin x) = Fin (of_int (round_away x))"
| "fl_round v = v"

text \<open>
  Conversion of a float to an integer type truncates towards zero; a value that does not
  fit (or is not finite) gives an implementation-dependent result, the argument \<open>oor\<close>.
\<close>

definition trunc :: "rat \<Rightarrow> int" where
  "trunc x = (if 0 \<le> x then \<lfloor>x\<rfloor> else - \<lfloor>- x\<rfloor>)"

fun fl_value :: "gofloat \<Rightarrow> rat option" where
  "fl_value (Fin x) = Some x"
| "fl_value NegZero = Some 0"
| "fl_value (Inf neg) = None"
| "fl_value NaN = None"

definition fl_to_int :: "(gofloat \<Rightarrow> int) \<Rightarrow> int \<Rightarrow> int \<Rightarrow> gofloat \<Rightarrow> int" where
  "fl_to_int oor lo hi v =
     (case fl_value v of
        Some x \<Rightarrow> if lo \<le> trunc x \<and> trunc x \<le> hi then trunc x else oor v
      | None \<Rightarrow> oor v)"

subsection \<open>IEEE bit patterns\<close>

text \<open>
  \<open>float_of_bits p w\<close>: \<open>p - 1\<close> mantissa bits, \<open>ebits\<close> exponent bits, one sign bit, read
  from the number \<open>n\<close>.
\<close>

definition float_of_bits :: "nat \<Rightarrow> nat \<Rightarrow> nat \<Rightarrow> gofloat" where
  "float_of_bits mbits ebits n =
     (let m = n mod 2 ^ mbits;
          e = (n div 2 ^ mbits) mod 2 ^ ebits;
          s = odd (n div 2 ^ (mbits + ebits));
          bias = 2 ^ (ebits - 1) - 1 :: int;
          mag = (if e = 0 then of_nat m * 2 powi (1 - bias - int mbits)
                 else of_nat (2 ^ mbits + m) * 2 powi (int e - bias - int mbits)) :: rat
      in if e = 2 ^ ebits - 1 then (if m = 0 then Inf s else NaN)
         else if mag = 0 then (if s then NegZero else Fin 0)
         else Fin (if s then - mag else mag))"

definition bits_of_float :: "nat \<Rightarrow> nat \<Rightarrow> gofloat \<Rightarrow> nat" where
  "bits_of_float mbits ebits v =
     (let bias = 2 ^ (ebits - 1) - 1 :: int;
          sgnbit = 2 ^ (mbits + ebits);
          infbits = (2 ^ ebits - 1) * 2 ^ mbits
      in case v of
           NegZero \<Rightarrow> sgnbit
         | Inf s \<Rightarrow> (if s then sgnbit else 0) + infbits
         | NaN \<Rightarrow> infbits + 2 ^ (mbits - 1)
         | Fin x \<Rightarrow>
             (if x = 0 then 0
              else let e = max (rexp \<bar>x\<bar>) (1 - bias);
                       m = nat \<lfloor>\<bar>x\<bar> * 2 powi (int mbits - e)\<rfloor>;
                       body = (if m < 2 ^ mbits then m
                               else nat (e + bias) * 2 ^ mbits + (m - 2 ^ mbits))
                   in (if x < 0 then sgnbit else 0) + body))"

definition f32_of_bits :: "32 word \<Rightarrow> gofloat" where
  "f32_of_bits w = float_of_bits 23 8 (unat w)"

definition f32_bits :: "gofloat \<Rightarrow> 32 word" where
  "f32_bits v = word_of_nat (bits_of_float 23 8 v)"

definition f64_bits :: "gofloat \<Rightarrow> 64 word" where
  "f64_bits v = word_of_nat (bits_of_float 52 11 v)"

subsection \<open>Error bounds and exactness of rounding\<close>

lemma powi_le: "a \<le> b \<Longrightarrow> (2 :: rat) powi a \<le> 2 powi b"
  by (rule power_int_increasing) simp_all

lemma powi_less_imp: "(2 :: rat) powi a < 2 powi b \<Longrightarrow> a < b"
  using powi_le [of b a] by (meson linorder_not_le)

lemma powi_Suc: "(2 :: rat) powi (a + 1) = 2 * 2 powi a"
  by (simp add: power_int_add_1')

lemma powi_of_nat: "(2 :: rat) powi int n = 2 ^ n"
  by simp

lemma powi_diff: "(2 :: rat) powi (int a - int b) = 2 ^ a / 2 ^ b"
  by (simp add: power_int_diff)

lemma rexp_bounds:
  assumes "0 < x"
  shows "2 powi rexp x \<le> x" "x < 2 powi (rexp x + 1)"
proof -
  obtain n d where nd: "quotient_of x = (n, d)" by (cases "quotient_of x")
  then have d: "0 < d" and x: "x = of_int n / of_int d"
    using quotient_of_denom_pos quotient_of_div by blast+
  have n: "0 < n" using assms d unfolding x by (simp add: zero_less_divide_iff)
  define N D a b where "N = nat n" and "D = nat d" and "a = nbits N" and "b = nbits D"
  have N: "N < 2 ^ a" "2 ^ (a - 1) \<le> N" "0 < N" and D: "D < 2 ^ b" "2 ^ (b - 1) \<le> D" "0 < D"
    using nbits_bounds [of N] nbits_bounds [of D] n d by (auto simp: N_def D_def a_def b_def)
  have xND: "x = of_nat N / of_nat D" using n d by (simp add: x N_def D_def)
  have a0: "a = Suc (a - 1)" and b0: "b = Suc (b - 1)"
    using N(1,3) D(1,3) by (cases a; cases b; simp)+
  have Nr: "(of_nat N :: rat) < 2 ^ a" "2 ^ (a - 1) \<le> (of_nat N :: rat)"
    and Dr: "(of_nat D :: rat) < 2 ^ b" "2 ^ (b - 1) \<le> (of_nat D :: rat)" "0 < (of_nat D :: rat)"
    using N D by (metis of_nat_less_iff of_nat_le_iff of_nat_power of_nat_numeral of_nat_0_less_iff)+
  define k where "k = int a - int b"
  have up: "x < 2 powi (k + 1)"
  proof -
    have "2 powi (k + 1) = (2 ^ a / 2 ^ (b - 1) :: rat)"
      unfolding k_def powi_Suc powi_diff using b0 by (cases b) simp_all
    moreover have "of_nat N / of_nat D \<le> (of_nat N / 2 ^ (b - 1) :: rat)"
      using Dr by (intro divide_left_mono) (auto intro: mult_pos_pos)
    moreover have "of_nat N / 2 ^ (b - 1) < (2 ^ a / 2 ^ (b - 1) :: rat)"
      using Nr by (intro divide_strict_right_mono) auto
    ultimately show ?thesis unfolding xND by linarith
  qed
  have lo: "2 powi (k - 1) \<le> x"
  proof -
    have "2 powi (k - 1) = (2 ^ (a - 1) / 2 ^ b :: rat)"
      using a0 unfolding k_def by (simp add: powi_diff [symmetric] algebra_simps of_nat_diff)
    moreover have "2 ^ (a - 1) / 2 ^ b \<le> (of_nat N / 2 ^ b :: rat)"
      using Nr by (intro divide_right_mono) auto
    moreover have "of_nat N / 2 ^ b \<le> (of_nat N / of_nat D :: rat)"
      using Dr by (intro divide_left_mono) (auto intro: mult_pos_pos)
    ultimately show ?thesis unfolding xND by linarith
  qed
  have "rexp x = (if 2 powi k \<le> x then k else k - 1)"
    by (simp add: rexp_def nd k_def a_def b_def N_def D_def Let_def)
  then show "2 powi rexp x \<le> x" "x < 2 powi (rexp x + 1)"
    using up lo by (auto split: if_splits)
qed

lemma round_even_err: "\<bar>of_int (round_even y) - y\<bar> \<le> 1 / 2"
proof -
  have "of_int \<lfloor>y\<rfloor> \<le> y" "y < of_int \<lfloor>y\<rfloor> + 1" by linarith+
  then show ?thesis by (auto simp: round_even_def Let_def)
qed

lemma round_even_of_int [simp]: "round_even (of_int n) = n"
  by (simp add: round_even_def)

lemma rnd_0 [simp]: "rnd p emin 0 = 0"
  by (simp add: rnd_def)

lemma rnd_err:
  assumes "\<bar>x\<bar> < 2 powi m" and "emin \<le> m - int p"
  shows "\<bar>rnd p emin x - x\<bar> \<le> 2 powi (m - int p - 1)"
proof (cases "x = 0")
  case True
  then show ?thesis by simp
next
  case False
  define u where "u = (2 powi ulp_exp p emin x :: rat)"
  have u0: "0 < u" by (simp add: u_def)
  have "2 powi rexp \<bar>x\<bar> \<le> \<bar>x\<bar>" using rexp_bounds(1) [of "\<bar>x\<bar>"] False by simp
  then have "rexp \<bar>x\<bar> < m" using assms(1) powi_less_imp by (meson le_less_trans)
  then have "ulp_exp p emin x \<le> (m - int p - 1) + 1" using assms(2) by (simp add: ulp_exp_def)
  then have ule: "u \<le> 2 * 2 powi (m - int p - 1)"
    unfolding u_def using powi_le powi_Suc by metis
  have "rnd p emin x - x = (of_int (round_even (x / u)) - x / u) * u"
    using False u0 by (simp add: rnd_def u_def Let_def algebra_simps)
  then have "\<bar>rnd p emin x - x\<bar> = \<bar>of_int (round_even (x / u)) - x / u\<bar> * u"
    using u0 by (simp add: abs_mult)
  also have "\<dots> \<le> 1 / 2 * u"
    using round_even_err [of "x / u"] u0 by (intro mult_right_mono) auto
  also have "\<dots> \<le> 2 powi (m - int p - 1)" using ule by linarith
  finally show ?thesis .
qed

lemma rnd_exact:
  assumes x: "x = of_int a * 2 powi k" and a: "\<bar>a\<bar> < 2 ^ p" and k: "emin \<le> k"
  shows "rnd p emin x = x"
proof (cases "x = 0")
  case True
  then show ?thesis by simp
next
  case False
  have "2 powi rexp \<bar>x\<bar> \<le> \<bar>x\<bar>" using rexp_bounds(1) [of "\<bar>x\<bar>"] False by simp
  also have "\<bar>x\<bar> = of_int \<bar>a\<bar> * 2 powi k" by (simp add: x abs_mult)
  also have "of_int \<bar>a\<bar> * 2 powi k < (2 ^ p * 2 powi k :: rat)"
  proof -
    have "(of_int \<bar>a\<bar> :: rat) < of_int (2 ^ p)" using a by (simp only: of_int_less_iff)
    then show ?thesis by (intro mult_strict_right_mono) simp_all
  qed
  also have "\<dots> = 2 powi (k + int p)" by (simp add: power_int_add)
  finally have "rexp \<bar>x\<bar> < k + int p" by (rule powi_less_imp)
  then have e: "ulp_exp p emin x \<le> k" using k by (simp add: ulp_exp_def)
  define j where "j = nat (k - ulp_exp p emin x)"
  have kj: "k = ulp_exp p emin x + int j" using e by (simp add: j_def)
  define u where "u = (2 powi ulp_exp p emin x :: rat)"
  have u0: "u \<noteq> 0" by (simp add: u_def)
  have xu: "x = of_int (a * 2 ^ j) * u"
    unfolding u_def by (subst x, subst kj) (simp add: power_int_add)
  then have "x / u = of_int (a * 2 ^ j)" using u0 by simp
  then have "rnd p emin x = of_int (a * 2 ^ j) * u"
    using False by (simp add: rnd_def Let_def flip: u_def del: of_int_mult)
  then show ?thesis using xu by simp
qed

lemma rnd_of_int: "\<bar>n\<bar> < 2 ^ p \<Longrightarrow> emin \<le> 0 \<Longrightarrow> rnd p emin (of_int n) = of_int n"
  using rnd_exact [of "of_int n" n 0 p emin] by simp

subsection \<open>Values of the operations\<close>

lemma fl_value_mk:
  "\<bar>rnd p emin x\<bar> < 2 powi emax \<Longrightarrow> fl_value (mk_float p emin emax x) = Some (rnd p emin x)"
  by (auto simp: mk_float_def Let_def)

end
