(* ===== verification/Codec_Types.thy ===== *)
theory Codec_Types
  imports Go_Float
begin

text \<open>
  The data the codecs share: the fields of \<^verbatim>\<open>model.Device\<close>, \<^verbatim>\<open>model.Point\<close> and
  \<^verbatim>\<open>model.DeviceMetaTag\<close> that the module reads or writes, the callbacks a decoder is given
  (codec/codecDefinitions.go), and the device description record.  A Go function value
  stored in a description is a tag that names the function; a field the composite literal
  leaves out is \<open>None\<close>, the nil function, and calling it panics.
  Pointers are options.  A callback acts on an arbitrary state \<open>'s\<close> (the data base, the
  write queues, or a recording list) and returns the error value the code sees.
\<close>

record meta_tag =
  tag_DeviceUUID :: string
  tag_Key :: string
  tag_Value :: string

text \<open>The string constants of the model package are constructors; any other string is \<open>Other\<dots>\<close>.\<close>

datatype write_mode = ReadOnce | ReadOnly | WriteOnce | WriteOnceReadOnce | WriteAlways
  | WriteOnceThenRead | WriteAndMaintain | OtherWriteMode string

datatype io_type = IOTypeNone | IOTypeRAW | IOTypeDigital | IOTypeThermistor10K | IOTypeVoltageDC
  | OtherIOType string

datatype history_type = HistoryTypeNone | HistoryTypeInterval | HistoryTypeCovAndInterval | OtherHistoryType string

datatype point_state = PointStateNone | PointStateApiWritePending | PointStateWriteOk | PointStateApiWriteFailed
  | OtherPointState string

record point =
  pt_UUID :: string
  pt_Name :: string
  pt_IoNumber :: string
  pt_IoType :: io_type
  pt_DataType :: string
  pt_ObjectType :: string
  pt_ThingType :: string
  pt_DeviceUUID :: string
  pt_AddressUUID :: "string option"
  pt_AddressID :: "int option"
  pt_Enable :: "bool option"
  pt_IsOutput :: "bool option"
  pt_WriteMode :: write_mode
  pt_EnableWriteable :: "bool option"
  pt_WritePollRequired :: "bool option"
  pt_WriteValue :: "gofloat option"
  pt_WriteValueOriginal :: "gofloat option"
  pt_WritePriority :: "int option"
  pt_CurrentPriority :: "int option"
  pt_OriginalValue :: "gofloat option"
  pt_PointState :: point_state
  pt_HistoryEnable :: "bool option"
  pt_HistoryType :: history_type
  pt_HistoryInterval :: "int option"
  pt_HistoryCOVThreshold :: "gofloat option"

text \<open>The zero value \<^verbatim>\<open>new(model.Point)\<close>.\<close>

definition zero_point :: point where
  "zero_point = \<lparr>pt_UUID = [], pt_Name = [], pt_IoNumber = [], pt_IoType = IOTypeNone, pt_DataType = [],
     pt_ObjectType = [], pt_ThingType = [], pt_DeviceUUID = [], pt_AddressUUID = None, pt_AddressID = None,
     pt_Enable = None, pt_IsOutput = None, pt_WriteMode = OtherWriteMode [], pt_EnableWriteable = None,
     pt_WritePollRequired = None, pt_WriteValue = None, pt_WriteValueOriginal = None, pt_WritePriority = None,
     pt_CurrentPriority = None, pt_OriginalValue = None, pt_PointState = PointStateNone, pt_HistoryEnable = None,
     pt_HistoryType = HistoryTypeNone, pt_HistoryInterval = None, pt_HistoryCOVThreshold = None\<rparr>"

record device =
  dev_UUID :: string
  dev_Name :: string
  dev_Model :: string
  dev_NetworkUUID :: string
  dev_AddressUUID :: "string option"
  dev_Manufacture :: string
  dev_Points :: "point list"
  dev_MetaTags :: "meta_tag list"

datatype length_fn = CheckPayloadLengthME_fn | CheckPayloadLengthDroplet_fn
  | CheckPayloadLengthZHT_fn | CheckPayloadLengthRubix_fn | NilCheckLength_fn

datatype uplink_fn = DecodeME_fn | DecodeDropletTHLM_fn | DecodeDropletTHL_fn
  | DecodeDropletTH_fn | DecodeZHT_fn | DecodeRubixUplink_fn | NilDecode_fn

datatype response_fn = DecodeRubixResponse_fn | NilDecodeResponse_fn

datatype encode_fn = EncodeRequestMessage_fn | NilEncodeRequestMessage_fn

datatype names_fn = GetMePointNames_fn | GetTHLMPointNames_fn | GetTHLPointNames_fn
  | GetTHPointNames_fn | GetZHTPointNames_fn | GetRubixPointNames_fn | NilGetPointsStruct_fn

record lora_desc =
  DeviceName :: string
  Model :: string
  SensorCode :: string
  CheckLength :: "length_fn option"
  DecodeUplink :: "uplink_fn option"
  DecodeResponse :: "response_fn option"
  EncodeRequestMessage_of :: "encode_fn option"
  GetPointNames :: "names_fn option"
  IsLoRaRAW :: bool
  AllowUnencrypted :: bool

text \<open>The result of a callback: its error value and the new state, or a panic.\<close>

type_synonym 's action = "'s \<Rightarrow> (goerr option \<times> 's) option"

type_synonym 's point_fn = "string \<Rightarrow> gofloat \<Rightarrow> device \<Rightarrow> lora_desc option \<Rightarrow> 's action"
type_synonym 's point_err_fn = "string \<Rightarrow> goerr \<Rightarrow> device \<Rightarrow> lora_desc option \<Rightarrow> 's action"
type_synonym 's written_fn = "string \<Rightarrow> gofloat \<Rightarrow> byte \<Rightarrow> device \<Rightarrow> 's action"
type_synonym 's written_err_fn = "string \<Rightarrow> goerr \<Rightarrow> byte \<Rightarrow> device \<Rightarrow> 's action"
type_synonym 's meta_fn = "string \<Rightarrow> meta_tag list \<Rightarrow> 's action"

record 's callbacks =
  updatePointFn :: "'s point_fn"
  updatePointErrFn :: "'s point_err_fn"
  updateMetaTagsFn :: "'s meta_fn"
  updateWrittenFn :: "'s written_fn"
  updateWrittenErrFn :: "'s written_err_fn"

text \<open>A call whose returned error is discarded (\<^verbatim>\<open>_ = f(...)\<close> or a bare call).\<close>

definition perform :: "'s action \<Rightarrow> 's \<Rightarrow> 's option" where
  "perform f s = map_option snd (f s)"

text \<open>Recording callbacks: every call succeeds and is appended to a list of events.\<close>

datatype event =
    PointOk string gofloat "lora_desc option"
  | PointErr string goerr "lora_desc option"
  | MetaTags string "meta_tag list"
  | WrittenOk string gofloat byte
  | WrittenErr string goerr byte

definition record_event :: "event \<Rightarrow> event list action" where
  "record_event e s = Some (None, s @ [e])"

definition recorder :: "event list callbacks" where
  "recorder = \<lparr>
     updatePointFn = (\<lambda>n v d dd. record_event (PointOk n v dd)),
     updatePointErrFn = (\<lambda>n e d dd. record_event (PointErr n e dd)),
     updateMetaTagsFn = (\<lambda>u ts. record_event (MetaTags u ts)),
     updateWrittenFn = (\<lambda>n v i d. record_event (WrittenOk n v i)),
     updateWrittenErrFn = (\<lambda>n e i d. record_event (WrittenErr n e i))\<rparr>"

lemma perform_record_event [simp]: "perform (record_event e) s = Some (s @ [e])"
  by (simp add: perform_def record_event_def)

subsection \<open>The contract of the callbacks\<close>

text \<open>
  A result is safe for \<open>R\<close> and \<open>Q\<close> when it is a state with \<open>Q\<close>, or a panic and \<open>R\<close>.  With
  \<open>R = False\<close> and a trivial \<open>Q\<close> this says that there is no panic; with \<open>R = True\<close> that \<open>Q\<close> is kept.
  \<open>kept\<close> is the same without a returned value.
\<close>

definition safe :: "bool \<Rightarrow> ('s \<Rightarrow> bool) \<Rightarrow> ('x \<times> 's) option \<Rightarrow> bool" where
  "safe R Q r = (case r of None \<Rightarrow> R | Some (_, s) \<Rightarrow> Q s)"

definition kept :: "bool \<Rightarrow> ('s \<Rightarrow> bool) \<Rightarrow> 's option \<Rightarrow> bool" where
  "kept R Q r = (case r of None \<Rightarrow> R | Some s \<Rightarrow> Q s)"

lemma safe_simps [simp]: "safe R Q None = R" "safe R Q (Some (x, s)) = Q s"
  by (simp_all add: safe_def)

lemma kept_simps [simp]: "kept R Q None = R" "kept R Q (Some s) = Q s"
  by (simp_all add: kept_def)

lemma kept_perform: "kept R Q (perform f s) \<longleftrightarrow> safe R Q (f s)"
  by (cases "f s") (auto simp: perform_def)

lemma safe_Pair: "safe R Q (map_option (Pair x) r) \<longleftrightarrow> kept R Q r"
  by (cases r) auto

lemma kept_bind: "kept R Q r \<Longrightarrow> (\<And>s. Q s \<Longrightarrow> kept R Q (f s)) \<Longrightarrow> kept R Q (Option.bind r f)"
  by (cases r) auto

lemma safe_bind: "kept R Q r \<Longrightarrow> (\<And>s. Q s \<Longrightarrow> safe R Q (f s)) \<Longrightarrow> safe R Q (Option.bind r f)"
  by (cases r) auto

lemma safe_total: "safe False (\<lambda>_. True) r \<longleftrightarrow> r \<noteq> None"
  by (cases r) auto

lemma kept_total: "kept False (\<lambda>_. True) r \<longleftrightarrow> r \<noteq> None"
  by (cases r) auto

text \<open>
  What the decoders need of the callbacks to keep \<open>Q\<close> (or not to panic) for a device: that each of
  the five callbacks does, for that device.  The decoders and the dispatcher are shown to keep \<open>Q\<close>
  in this locale, each in its own theory; it is interpreted on the recording callbacks below and on the
  callbacks of the running module in the theory of its receive path.
\<close>

locale reception =
  fixes cb :: "'s callbacks" and dev :: device and R :: bool and Q :: "'s \<Rightarrow> bool"
  assumes point: "Q s \<Longrightarrow> safe R Q (updatePointFn cb n v dev dd s)"
    and point_err: "Q s \<Longrightarrow> safe R Q (updatePointErrFn cb n e dev dd s)"
    and meta: "Q s \<Longrightarrow> safe R Q (updateMetaTagsFn cb (dev_UUID dev) ts s)"
    and written: "Q s \<Longrightarrow> safe R Q (updateWrittenFn cb n v i dev s)"
    and written_err: "Q s \<Longrightarrow> safe R Q (updateWrittenErrFn cb n e i dev s)"

definition total_callbacks :: "'s callbacks \<Rightarrow> bool" where
  "total_callbacks cb \<longleftrightarrow>
     (\<forall>n v d dd s. updatePointFn cb n v d dd s \<noteq> None) \<and> (\<forall>n e d dd s. updatePointErrFn cb n e d dd s \<noteq> None)
     \<and> (\<forall>u ts s. updateMetaTagsFn cb u ts s \<noteq> None)
     \<and> (\<forall>n v i d s. updateWrittenFn cb n v i d s \<noteq> None) \<and> (\<forall>n e i d s. updateWrittenErrFn cb n e i d s \<noteq> None)"

lemma total_reception: "total_callbacks cb \<Longrightarrow> reception cb dev False (\<lambda>_. True)"
  by (unfold_locales; simp only: safe_total total_callbacks_def not_False_eq_True)

lemma total_recorder: "total_callbacks recorder"
  by (simp add: total_callbacks_def recorder_def record_event_def)

interpretation recorder_reception: reception recorder dev False "\<lambda>_. True" for dev
  by (rule total_reception [OF total_recorder])

text \<open>A device for examples.\<close>

definition example_device :: device where
  "example_device = \<lparr>dev_UUID = ''dev'', dev_Name = ''node'', dev_Model = ''Rubix'', dev_NetworkUUID = ''net'',
     dev_AddressUUID = Some ''C0FFEE01'', dev_Manufacture = [], dev_Points = [], dev_MetaTags = []\<rparr>"

end
