(* ===== verification/Codec_Base.thy ===== *)
theory Codec_Base
  imports Codec_Types
begin

text \<open>
  codec/base.go (address, RSSI and SNR of a frame in hexadecimal) and the lookup functions
  of codec/codecDefinitions.go, with the facts about hexadecimal fields that the frame
  decoders share: a frame that decodes to bytes is read field by field off those bytes.
\<close>

subsection \<open>base.go\<close>

abbreviation (input) RssiField :: string where "RssiField \<equiv> ''rssi''"
abbreviation (input) SnrField :: string where "SnrField \<equiv> ''snr''"

definition GetCommonValueNames :: "string list" where
  "GetCommonValueNames = [RssiField, SnrField]"

definition ValidPayload :: "string \<Rightarrow> bool" where
  "ValidPayload data \<longleftrightarrow> \<not> length data \<le> 8"

definition too_short :: "string \<Rightarrow> nat \<Rightarrow> nat \<Rightarrow> goerr" where
  "too_short what required actual =
     ErrMsg (''data too short '' @ what @ '': required='' @ itoa (int required) @ '' actual='' @ itoa (int actual))"

definition DecodeAddressHex :: "string \<Rightarrow> (goerr + string) option" where
  "DecodeAddressHex data =
     (if length data < 8 then Some (Inl (too_short ''to decode address'' 8 (length data)))
      else map_option Inr (go_slice data 0 8))"

definition DecodeAddressBytes :: "byte list \<Rightarrow> (goerr + string) option" where
  "DecodeAddressBytes data =
     (if length data < 4 then Some (Inl (too_short ''to decode address'' 4 (length data)))
      else map_option (\<lambda>bs. Inr (hex_encode bs)) (go_slice data 0 4))"

definition DecodeRSSI :: "string \<Rightarrow> (goerr + int) option" where
  "DecodeRSSI data =
     (let dataLen = length data in
      if dataLen < 4 then Some (Inl (too_short ''to decode RSSI'' 4 dataLen))
      else do {
        s \<leftarrow> go_slice data (dataLen - 4) (dataLen - 2);
        Some (case parse_int 16 s of
                Inl err \<Rightarrow> Inl (ErrWrap ''failed to parse RSSI value: '' err)
              | Inr v \<Rightarrow> Inr (- v)) })"

definition DecodeSNR :: "string \<Rightarrow> (goerr + gofloat) option" where
  "DecodeSNR data =
     (let dataLen = length data in
      if dataLen < 2 then Some (Inl (too_short ''to decode SNR'' 2 dataLen))
      else do {
        s \<leftarrow> go_slice data (dataLen - 2) dataLen;
        Some (case parse_int 16 s of
                Inl err \<Rightarrow> Inl (ErrWrap ''failed to parse SNR value: '' err)
              | Inr v \<Rightarrow> Inr (if v > 127 then fl_divc mk_f32 (f32_of_int (v - 256)) 4
                              else fl_divc mk_f32 (f32_of_int v) 4)) })"

subsection \<open>codecDefinitions.go\<close>

definition NilLoRaDeviceDescription :: lora_desc where
  "NilLoRaDeviceDescription = \<lparr>DeviceName = '''', Model = '''', SensorCode = '''',
     CheckLength = Some NilCheckLength_fn, DecodeUplink = Some NilDecode_fn,
     DecodeResponse = Some NilDecodeResponse_fn,
     EncodeRequestMessage_of = Some NilEncodeRequestMessage_fn,
     GetPointNames = Some NilGetPointsStruct_fn, IsLoRaRAW = False, AllowUnencrypted = False\<rparr>"

definition NilLoRaDeviceDescriptionCheckLength :: "string \<Rightarrow> bool" where
  "NilLoRaDeviceDescriptionCheckLength data = False"

definition NilLoRaDeviceDescriptionDecode :: "'s action" where
  "NilLoRaDeviceDescriptionDecode s = Some (Some (ErrMsg ''nil decode function called''), s)"

definition NilLoRaDeviceDescriptionDecodeResponse :: "'s action" where
  "NilLoRaDeviceDescriptionDecodeResponse s = Some (Some (ErrMsg ''nil decode function called''), s)"

definition NilLoRaDeviceDescriptionEncodeRequestMessage :: "goerr + byte list" where
  "NilLoRaDeviceDescriptionEncodeRequestMessage = Inl (ErrMsg ''nil encode function called'')"

definition NilLoRaDeviceDescriptionGetPointsStruct :: "string list" where
  "NilLoRaDeviceDescriptionGetPointsStruct = []"

text \<open>
  The lookup; the result is \<open>None\<close> for the address of the nil description, so that the
  caller's pointer comparison with it is a test for \<open>None\<close>.
\<close>

fun GetDeviceDescription :: "device \<Rightarrow> lora_desc list \<Rightarrow> lora_desc option" where
  "GetDeviceDescription dev [] = None"
| "GetDeviceDescription dev (devDesc # ds) =
     (if equal_fold (dev_Model dev) (Model devDesc) then Some devDesc else GetDeviceDescription dev ds)"

definition deref_desc :: "lora_desc option \<Rightarrow> lora_desc" where
  "deref_desc d = (case d of None \<Rightarrow> NilLoRaDeviceDescription | Some d \<Rightarrow> d)"

subsection \<open>Fields of a hexadecimal frame\<close>

text \<open>The big-endian value of a byte string.\<close>

definition be_val :: "byte list \<Rightarrow> int" where
  "be_val bs = foldl (\<lambda>a b. a * 256 + uint b) 0 bs"

text \<open>\<open>hex_frame data bs\<close>: the string, in either letter case, is the hexadecimal form of \<open>bs\<close>.\<close>

definition hex_frame :: "string \<Rightarrow> byte list \<Rightarrow> bool" where
  "hex_frame data bs \<longleftrightarrow> hex_decode data = (bs, None)"

lemma hex_frame_Nil [simp]: "hex_frame [] bs \<longleftrightarrow> bs = []"
  by (auto simp: hex_frame_def)

lemma hex_frame_Cons2:
  "hex_frame (c # d # cs) bs \<longleftrightarrow>
     (\<exists>a b bs'. hex_val c = Some a \<and> hex_val d = Some b \<and> hex_frame cs bs' \<and> bs = word_of_nat (16 * a + b) # bs')"
  by (auto simp: hex_frame_def split: option.splits prod.splits)

lemma hex_frame_single [simp]: "\<not> hex_frame [c] bs"
  by (simp add: hex_frame_def)

lemma hex_frame_length: "hex_frame data bs \<Longrightarrow> length data = 2 * length bs"
  by (induction data arbitrary: bs rule: hex_decode.induct) (auto simp: hex_frame_Cons2)

lemma hex_frame_drop: "hex_frame data bs \<Longrightarrow> hex_frame (drop (2 * n) data) (drop n bs)"
proof (induction n arbitrary: data bs)
  case (Suc n)
  then show ?case by (cases data rule: hex_decode.cases) (auto simp: hex_frame_Cons2)
qed simp

lemma hex_frame_take: "hex_frame data bs \<Longrightarrow> hex_frame (take (2 * n) data) (take n bs)"
proof (induction n arbitrary: data bs)
  case (Suc n)
  then show ?case by (cases data rule: hex_decode.cases) (auto simp: hex_frame_Cons2)
qed simp

lemma hex_frame_slice:
  "hex_frame data bs \<Longrightarrow> hex_frame (take (2 * m) (drop (2 * n) data)) (take m (drop n bs))"
  by (intro hex_frame_take hex_frame_drop)

lemma hex_frame_append:
  "hex_frame s bs \<Longrightarrow> hex_frame t cs \<Longrightarrow> hex_frame (s @ t) (bs @ cs)"
proof (induction bs arbitrary: s)
  case Nil
  then show ?case by (cases s rule: hex_decode.cases) (auto simp: hex_frame_Cons2)
next
  case (Cons x bs)
  then obtain c d s' a b where s: "s = c # d # s'" "hex_val c = Some a" "hex_val d = Some b"
    "hex_frame s' bs" "x = word_of_nat (16 * a + b)"
    by (cases s rule: hex_decode.cases) (auto simp: hex_frame_Cons2)
  have "hex_frame (s' @ t) (bs @ cs)" by (rule Cons.IH [OF s(4) Cons.prems(2)])
  then show ?case
    unfolding s(1) append_Cons hex_frame_Cons2 using s(2,3,5) by blast
qed

lemma hex_frame_encode [simp]: "hex_frame (hex_encode bs) bs" "hex_frame (to_upper (hex_encode bs)) bs"
  by (simp_all add: hex_frame_def hex_decode_encode hex_decode_upper_encode)

lemma hex_val_Some: "hex_val c = Some a \<Longrightarrow> digit_val c = Some a \<and> a < 16"
  by (auto simp: hex_val_def split: option.splits if_splits)

lemma uint_nibbles: "a < 16 \<Longrightarrow> b < 16 \<Longrightarrow> uint (word_of_nat (16 * a + b) :: byte) = 16 * int a + int b"
proof -
  assume ab: "a < 16" "b < 16"
  have "uint (word_of_nat (16 * a + b) :: byte) = take_bit 8 (int (16 * a + b))"
    by (simp only: unsigned_of_nat of_nat_take_bit word_size len_num1 len_bit0 len_bit1) simp
  also have "\<dots> = int (16 * a + b)" using ab by (intro take_bit_int_eq_self) auto
  finally show ?thesis by simp
qed

lemma parse_digits_hex:
  "hex_frame data bs \<Longrightarrow>
     parse_digits 16 acc data = Some (nat (foldl (\<lambda>a b. a * 256 + uint b) (int acc) bs))"
proof (induction data arbitrary: bs acc rule: hex_decode.induct)
  case (3 c d cs)
  then obtain a b bs' where ab: "hex_val c = Some a" "hex_val d = Some b" "hex_frame cs bs'"
    and bs: "bs = word_of_nat (16 * a + b) # bs'" by (auto simp: hex_frame_Cons2)
  note a = hex_val_Some [OF ab(1)] and b = hex_val_Some [OF ab(2)]
  have "parse_digits 16 acc (c # d # cs) = parse_digits 16 ((acc * 16 + a) * 16 + b) cs"
    using a b by simp
  also have "\<dots> = Some (nat (foldl (\<lambda>a b. a * 256 + uint b) (int ((acc * 16 + a) * 16 + b)) bs'))"
    using 3 ab by (auto split: option.splits)
  also have "int ((acc * 16 + a) * 16 + b) = int acc * 256 + uint (word_of_nat (16 * a + b) :: byte)"
    using a b by (subst uint_nibbles) simp_all
  finally show ?case by (simp add: bs)
qed simp_all

lemma be_val_bounds: "0 \<le> be_val bs \<and> be_val bs < 256 ^ length bs"
proof (induction bs rule: rev_induct)
  case (snoc b bs)
  have "0 \<le> uint b" "uint b < 256" using uint_bounded [of b] by simp_all
  with snoc show ?case by (simp add: be_val_def)
qed (simp add: be_val_def)

lemma parse_int_hex:
  assumes "hex_frame data bs" "bs \<noteq> []" "length bs \<le> 7"
  shows "parse_int 16 data = Inr (be_val bs)"
proof -
  obtain c d cs where data: "data = c # d # cs"
    using assms(1,2) by (cases data rule: hex_decode.cases) auto
  obtain a where a: "hex_val c = Some a" using assms(1) data by (auto simp: hex_frame_Cons2)
  then have "c \<noteq> CHR ''-''" "c \<noteq> CHR ''+''"
    by (auto simp: hex_val_def digit_val_def)
  moreover have "be_val bs < 2 ^ 63"
  proof -
    have "be_val bs < 256 ^ length bs" using be_val_bounds by simp
    also have "\<dots> \<le> 256 ^ 7" using assms(3) by (intro power_increasing) auto
    finally show ?thesis by simp
  qed
  moreover have "0 \<le> be_val bs" using be_val_bounds by simp
  moreover have "parse_digits 16 0 (c # d # cs) = Some (nat (be_val bs))"
    using parse_digits_hex [OF assms(1), of 0] by (simp add: data be_val_def del: parse_digits.simps)
  ultimately show ?thesis by (simp add: parse_int_def data nat_less_iff Let_def del: parse_digits.simps)
qed

text \<open>A field of \<open>m\<close> bytes at byte offset \<open>n\<close>.\<close>

lemma go_slice_frame:
  assumes "hex_frame data bs" "n + m \<le> length bs"
  shows "go_slice data (2 * n) (2 * (n + m)) = Some (take (2 * m) (drop (2 * n) data))"
  using hex_frame_length [OF assms(1)] assms(2) by simp

lemma parse_slice:
  assumes "hex_frame data bs" "n + m \<le> length bs" "0 < m" "m \<le> 7"
  shows "parse_int 16 (take (2 * m) (drop (2 * n) data)) = Inr (be_val (take m (drop n bs)))"
  using assms by (intro parse_int_hex hex_frame_slice) auto

lemma be_val_single [simp]: "be_val [b] = uint b"
  by (simp add: be_val_def)

subsection \<open>RSSI and SNR of a frame\<close>

text \<open>A small integer is exact as a float32, and so is a quarter of it.\<close>

lemma quarter_exact:
  assumes "\<bar>n\<bar> < 2 ^ 24"
  shows "fl_divc mk_f32 (f32_of_int n) 4 = Fin (of_int n / 4)"
proof -
  have b: "\<bar>of_int n :: rat\<bar> < 2 ^ 24"
    using assms by (metis of_int_abs of_int_less_iff of_int_numeral of_int_power)
  also have "(2 ^ 24 :: rat) = 2 powi int 24" by (simp only: power_int_of_nat)
  also have "\<dots> \<le> 2 powi 128" by (intro powi_le) simp
  finally have big: "\<bar>of_int n :: rat\<bar> < 2 powi 128" .
  have "f32_of_int n = Fin (of_int n)"
    using big rnd_of_int [OF assms, of "- 149"] by (auto simp: f32_of_int_def mk_f32_def mk_float_def Let_def)
  moreover have q: "r32 (of_int n / 4) = of_int n / 4"
    by (rule rnd_exact [of _ n "- 2"]) (use assms in \<open>simp_all add: power_int_def power2_eq_square\<close>)
  moreover have "\<bar>of_int n / 4 :: rat\<bar> < 2 powi 128" using big by simp
  ultimately show ?thesis by (auto simp: mk_f32_def mk_float_def Let_def)
qed

lemma byte_top_bit: "0 \<le> u \<Longrightarrow> u < 256 \<Longrightarrow> odd (u div 128) \<longleftrightarrow> (127 :: int) < u"
  by presburger

lemma sint_byte: "sint (b :: byte) = (if uint b > 127 then uint b - 256 else uint b)"
proof -
  have "sint b = signed_take_bit 7 (uint b)" by (simp add: sint_uint)
  also have "\<dots> = (if bit (uint b) 7 then take_bit 8 (uint b) - 256 else take_bit 8 (uint b))"
    by (simp add: signed_take_bit_eq_if_negative signed_take_bit_eq_if_positive signed_take_bit_eq_take_bit_minus)
  also have "take_bit 8 (uint b) = uint b" using uint_bounded [of b] by (simp add: take_bit_int_eq_self)
  also have "bit (uint b) 7 \<longleftrightarrow> uint b > 127"
    using byte_top_bit [of "uint b"] uint_bounded [of b] by (simp add: bit_iff_odd)
  finally show ?thesis .
qed

lemma frame_tail_byte:
  assumes "hex_frame data bs" "n < length bs"
  shows "parse_int 16 (take 2 (drop (2 * n) data)) = Inr (uint (bs ! n))"
proof -
  have "take 1 (drop n bs) = [bs ! n]" using assms(2) by (simp add: hd_drop_conv_nth take_Suc)
  then show ?thesis using parse_slice [OF assms(1), of n 1] assms(2) by simp
qed

lemma frame_trailer:
  assumes "hex_frame data bs" "2 \<le> length bs"
  shows "DecodeRSSI data = Some (Inr (- uint (bs ! (length bs - 2))))
    \<and> DecodeSNR data = Some (Inr (Fin (of_int (sint (last bs)) / 4)))"
proof -
  have l: "length data = 2 * length bs" by (rule hex_frame_length [OF assms(1)])
  have i: "2 * length bs - 4 = 2 * (length bs - 2)" "2 * length bs - 2 = 2 * (length bs - 1)"
    using assms(2) by simp_all
  have "bs \<noteq> []" using assms(2) by auto
  then have lst: "bs ! (length bs - 1) = last bs" by (simp add: last_conv_nth)
  have p: "parse_int 16 (take 2 (drop (2 * (length bs - 2)) data)) = Inr (uint (bs ! (length bs - 2)))"
    "parse_int 16 (take 2 (drop (2 * (length bs - 1)) data)) = Inr (uint (last bs))"
    using frame_tail_byte [OF assms(1), of "length bs - 2"] frame_tail_byte [OF assms(1), of "length bs - 1"]
      assms(2) lst by auto
  have b: "0 \<le> uint (last bs)" "uint (last bs) < 256" using uint_bounded [of "last bs"] by simp_all
  have p2: "parse_int 16 (drop (2 * length bs - 2) data) = Inr (uint (last bs))"
    using p(2) by (simp only: i(2) [symmetric]) (simp add: l take_all)
  have d: "2 * length bs - Suc (Suc (2 * length bs - 4)) = 2" using assms(2) by arith
  have "DecodeRSSI data = Some (Inr (- uint (bs ! (length bs - 2))))"
    using assms(2) p(1) d by (simp add: DecodeRSSI_def l i(1) [symmetric] Let_def)
  moreover have "DecodeSNR data = Some (Inr (Fin (of_int (sint (last bs)) / 4)))"
    using \<open>bs \<noteq> []\<close> p2 b by (simp add: DecodeSNR_def l quarter_exact sint_byte Let_def)
  ultimately show ?thesis by simp
qed

text \<open>On the hexadecimal form of a frame of at least two bytes, the RSSI is the negated
  last-but-one byte and the SNR exactly a quarter of the last byte read as a signed number.\<close>

theorem rssi_snr_of_frame:
  assumes "hex_frame data bs" "2 \<le> length bs"
  shows "DecodeRSSI data = Some (Inr (- uint (bs ! (length bs - 2))))
    \<and> DecodeSNR data = Some (Inr (Fin (of_int (sint (last bs)) / 4)))"
  by (rule frame_trailer [OF assms])

theorem rssi_snr_of_frame_witness:
  "DecodeRSSI ''c0ffee00Ffb3f8'' = Some (Inr (- uint ([0xc0, 0xff, 0xee, 0, 0xff, 0xb3, 0xf8 :: byte] ! (length [0xc0, 0xff, 0xee, 0, 0xff, 0xb3, 0xf8 :: byte] - 2))))
    \<and> DecodeSNR ''c0ffee00Ffb3f8'' = Some (Inr (Fin (of_int (sint (last [0xc0, 0xff, 0xee, 0, 0xff, 0xb3, 0xf8 :: byte])) / 4)))"
  by (rule rssi_snr_of_frame) (simp_all add: hex_frame_def hex_val_def digit_val_def)

text \<open>The header functions never panic on any string: a short or malformed one is an
  error value, and a valid address is the first eight characters as received.\<close>

theorem header_decoding_total:
  "\<exists>r q. DecodeRSSI data = Some r \<and> DecodeSNR data = Some q
    \<and> DecodeAddressHex data = Some (if length data < 8 then Inl (too_short ''to decode address'' 8 (length data))
                                    else Inr (take 8 data))"
  by (auto simp: DecodeRSSI_def DecodeSNR_def DecodeAddressHex_def Let_def)

end
