(* ===== verification/Legacy_Decoders.thy ===== *)
theory Legacy_Decoders
  imports Codec_Base
begin

text \<open>
  microedge.go and droplet.go: the decoders of the two legacy device families.  They read
  fixed hexadecimal fields off the frame; every field is validated before the first report,
  so a frame is reported completely or as one error.
\<close>

subsection \<open>Reading fields\<close>

text \<open>
  The readers all have the shape: check the length, concatenate the slices of the field in
  byte order, \<^verbatim>\<open>strconv.ParseInt(..., 16, 0)\<close>.
\<close>

fun slices :: "string \<Rightarrow> (nat \<times> nat) list \<Rightarrow> string option" where
  "slices data [] = Some []"
| "slices data ((i, j) # r) = do { s \<leftarrow> go_slice data i j; t \<leftarrow> slices data r; Some (s @ t) }"

definition parse_field :: "string \<Rightarrow> string \<Rightarrow> nat \<Rightarrow> (nat \<times> nat) list \<Rightarrow> (goerr + int) option" where
  "parse_field data what required parts =
     (if length data < required then Some (Inl (too_short (''for '' @ what) required (length data)))
      else map_option (parse_int 16) (slices data parts))"

definition map_val :: "('a \<Rightarrow> 'b) \<Rightarrow> (goerr + 'a) option \<Rightarrow> (goerr + 'b) option" where
  "map_val f r = map_option (map_sum id f) r"

text \<open>
  Read fields in order; the first error is reported and ends the decoder with the
  callback's result.  When all are read, the continuation runs.
\<close>

fun read_all ::
  "(string \<times> (goerr + 'a) option) list \<Rightarrow> (string \<Rightarrow> goerr \<Rightarrow> 's action) \<Rightarrow> ('a list \<Rightarrow> 's action) \<Rightarrow> 's action" where
  "read_all [] onerr k s = k [] s"
| "read_all ((field, r) # rs) onerr k s =
     (case r of
        None \<Rightarrow> None
      | Some (Inl err) \<Rightarrow> onerr field err s
      | Some (Inr v) \<Rightarrow> read_all rs onerr (\<lambda>vs. k (v # vs)) s)"

text \<open>Reports in order, each error value discarded.\<close>

fun report_all :: "('s \<Rightarrow> 's option) list \<Rightarrow> 's \<Rightarrow> 's option" where
  "report_all [] s = Some s"
| "report_all (f # fs) s = (case f s of None \<Rightarrow> None | Some s' \<Rightarrow> report_all fs s')"

definition report_points :: "'s callbacks \<Rightarrow> device \<Rightarrow> (string \<times> gofloat) list \<Rightarrow> 's action" where
  "report_points cb dev pts s =
     map_option (Pair None) (report_all (map (\<lambda>(n, v). perform (updatePointFn cb n v dev None)) pts) s)"

subsection \<open>microedge.go\<close>

abbreviation (input) MEVoltageField :: string where "MEVoltageField \<equiv> ''voltage''"
abbreviation (input) PulseField :: string where "PulseField \<equiv> ''pulse''"
abbreviation (input) AI1Field :: string where "AI1Field \<equiv> ''ai_1''"
abbreviation (input) AI2Field :: string where "AI2Field \<equiv> ''ai_2''"
abbreviation (input) AI3Field :: string where "AI3Field \<equiv> ''ai_3''"

definition GetMePointNames :: "string list" where
  "GetMePointNames = GetCommonValueNames @ [MEVoltageField, PulseField, AI1Field, AI2Field, AI3Field]"

definition CheckPayloadLengthME :: "string \<Rightarrow> bool" where
  "CheckPayloadLengthME data = (let dl = length data in dl = 36 \<or> dl = 32 \<or> dl = 44)"

definition pulse :: "string \<Rightarrow> (goerr + int) option" where
  "pulse data = parse_field data ''pulse'' 16 [(8, 16)]"

definition ai1 :: "string \<Rightarrow> (goerr + gofloat) option" where
  "ai1 data = map_val f64_of_int (parse_field data ''ai1'' 22 [(18, 22)])"

definition ai2 :: "string \<Rightarrow> (goerr + gofloat) option" where
  "ai2 data = map_val f64_of_int (parse_field data ''ai2'' 26 [(22, 26)])"

definition ai3 :: "string \<Rightarrow> (goerr + gofloat) option" where
  "ai3 data = map_val f64_of_int (parse_field data ''ai3'' 30 [(26, 30)])"

definition voltage :: "string \<Rightarrow> (goerr + gofloat) option" where
  "voltage data = map_val (\<lambda>v. fl_divc mk_f64 (f64_of_int v) 50) (parse_field data ''voltage'' 18 [(16, 18)])"

definition DecodeME :: "string \<Rightarrow> device \<Rightarrow> 's callbacks \<Rightarrow> 's action" where
  "DecodeME data dev cb =
     read_all [(PulseField, map_val f64_of_int (pulse data)), (MEVoltageField, voltage data),
               (AI1Field, ai1 data), (AI2Field, ai2 data), (AI3Field, ai3 data)]
       (\<lambda>f err. updatePointErrFn cb f err dev None)
       (\<lambda>vs. case vs of
          [p, vol, a1, a2, a3] \<Rightarrow> report_points cb dev
            [(PulseField, p), (MEVoltageField, vol), (AI1Field, a1), (AI2Field, a2), (AI3Field, a3)]
        | _ \<Rightarrow> (\<lambda>s. None))"

subsection \<open>droplet.go\<close>

abbreviation (input) DropletVoltageField :: string where "DropletVoltageField \<equiv> ''voltage''"
abbreviation (input) TemperatureField :: string where "TemperatureField \<equiv> ''temperature''"
abbreviation (input) PressureField :: string where "PressureField \<equiv> ''pressure''"
abbreviation (input) HumidityField :: string where "HumidityField \<equiv> ''humidity''"
abbreviation (input) LightField :: string where "LightField \<equiv> ''light''"
abbreviation (input) MotionField :: string where "MotionField \<equiv> ''motion''"

definition GetTHPointNames :: "string list" where
  "GetTHPointNames = GetCommonValueNames @ [DropletVoltageField, TemperatureField, PressureField, HumidityField]"

definition GetTHLPointNames :: "string list" where
  "GetTHLPointNames = GetTHPointNames @ [LightField]"

definition GetTHLMPointNames :: "string list" where
  "GetTHLMPointNames = GetTHLPointNames @ [MotionField]"

definition CheckPayloadLengthDroplet :: "string \<Rightarrow> bool" where
  "CheckPayloadLengthDroplet data = (let dl = length data in dl = 36 \<or> dl = 32 \<or> dl = 44)"

definition dropletTemp :: "string \<Rightarrow> (goerr + gofloat) option" where
  "dropletTemp data = map_val (\<lambda>v. fl_divc mk_f64 (f64_of_int (sint (word_of_int v :: 16 word))) 100)
     (parse_field data ''temperature'' 12 [(10, 12), (8, 10)])"

definition dropletPressure :: "string \<Rightarrow> (goerr + gofloat) option" where
  "dropletPressure data = map_val (\<lambda>v. fl_divc mk_f64 (f64_of_int v) 10)
     (parse_field data ''pressure'' 16 [(14, 16), (12, 14)])"

definition dropletHumidity :: "string \<Rightarrow> (goerr + int) option" where
  "dropletHumidity data = map_val (\<lambda>v. v AND 127) (parse_field data ''humidity'' 18 [(16, 18)])"

text \<open>\<^verbatim>\<open>v_ - 0.06 + 5\<close>: the untyped constant is rounded to a float64 first.\<close>

definition dropletVoltage :: "string \<Rightarrow> (goerr + gofloat) option" where
  "dropletVoltage data = map_val (\<lambda>v.
       let v' = fl_divc mk_f64 (f64_of_int v) 50 in
       if fl_ltc v' 1 then fl_addc mk_f64 (fl_addc mk_f64 v' (- r64 (6 / 100))) 5 else v')
     (parse_field data ''voltage'' 24 [(22, 24)])"

definition dropletLight :: "string \<Rightarrow> (goerr + int) option" where
  "dropletLight data = parse_field data ''light'' 22 [(20, 22), (18, 20)]"

definition dropletMotion :: "string \<Rightarrow> (goerr + bool) option" where
  "dropletMotion data = map_val (\<lambda>v. v > 127) (parse_field data ''motion'' 18 [(16, 18)])"

definition BoolToFloat :: "bool \<Rightarrow> gofloat" where
  "BoolToFloat b = (if b then Fin 1 else Fin 0)"

definition DecodeDropletTH :: "string \<Rightarrow> device \<Rightarrow> 's callbacks \<Rightarrow> 's action" where
  "DecodeDropletTH data dev cb =
     read_all [(TemperatureField, dropletTemp data), (PressureField, dropletPressure data),
               (HumidityField, map_val f64_of_int (dropletHumidity data)),
               (DropletVoltageField, dropletVoltage data)]
       (\<lambda>f err. updatePointErrFn cb f err dev None)
       (\<lambda>vs. case vs of
          [temperature, pressure, humidity, vol] \<Rightarrow> report_points cb dev
            [(TemperatureField, temperature), (PressureField, pressure),
             (HumidityField, humidity), (DropletVoltageField, vol)]
        | _ \<Rightarrow> (\<lambda>s. None))"

text \<open>
  THL and THLM run the smaller decoder first and return its error; they go on when it
  returned nil, which includes an error that the callback handled.
\<close>

definition DecodeDropletTHL :: "string \<Rightarrow> device \<Rightarrow> 's callbacks \<Rightarrow> 's action" where
  "DecodeDropletTHL data dev cb s =
     (case DecodeDropletTH data dev cb s of
        None \<Rightarrow> None
      | Some (Some err, s) \<Rightarrow> Some (Some err, s)
      | Some (None, s) \<Rightarrow>
          read_all [(LightField, map_val f64_of_int (dropletLight data))]
            (\<lambda>f err. updatePointErrFn cb f err dev None)
            (\<lambda>vs. report_points cb dev (zip [LightField] vs)) s)"

definition DecodeDropletTHLM :: "string \<Rightarrow> device \<Rightarrow> 's callbacks \<Rightarrow> 's action" where
  "DecodeDropletTHLM data dev cb s =
     (case DecodeDropletTHL data dev cb s of
        None \<Rightarrow> None
      | Some (Some err, s) \<Rightarrow> Some (Some err, s)
      | Some (None, s) \<Rightarrow>
          read_all [(MotionField, map_val BoolToFloat (dropletMotion data))]
            (\<lambda>f err. updatePointErrFn cb f err dev None)
            (\<lambda>vs. report_points cb dev (zip [MotionField] vs)) s)"

subsection \<open>The readers on a frame\<close>

text \<open>The bytes of a frame that a list of byte ranges selects, and their value.\<close>

definition frame_bytes :: "byte list \<Rightarrow> (nat \<times> nat) list \<Rightarrow> byte list" where
  "frame_bytes bs parts = concat (map (\<lambda>(i, j). take (j - i) (drop i bs)) parts)"

definition char_range :: "nat \<times> nat \<Rightarrow> nat \<times> nat" where
  "char_range p = (2 * fst p, 2 * snd p)"

lemma char_range_pair [simp]: "char_range (i, j) = (2 * i, 2 * j)"
  by (simp add: char_range_def)

lemma slices_frame:
  assumes "hex_frame data bs" "\<forall>(i, j) \<in> set parts. i \<le> j \<and> j \<le> length bs"
  shows "\<exists>s. slices data (map char_range parts) = Some s \<and> hex_frame s (frame_bytes bs parts)"
  using assms(2)
proof (induction parts)
  case Nil
  then show ?case by (simp add: frame_bytes_def)
next
  case (Cons p parts)
  obtain i j where p: "p = (i, j)" "i \<le> j" "j \<le> length bs" using Cons.prems by (cases p) auto
  have f: "hex_frame (take (2 * (j - i)) (drop (2 * i) data)) (take (j - i) (drop i bs))"
    by (rule hex_frame_slice [OF assms(1)])
  obtain s where s: "slices data (map char_range parts) = Some s" "hex_frame s (frame_bytes bs parts)"
    using Cons by auto
  have "go_slice data (2 * i) (2 * j) = Some (take (2 * (j - i)) (drop (2 * i) data))"
    using go_slice_frame [OF assms(1), of i "j - i"] p by simp
  then show ?case using s hex_frame_append [OF f s(2)] by (simp add: p frame_bytes_def)
qed

lemma parse_field_frame:
  assumes "hex_frame data bs" "\<forall>(i, j) \<in> set parts. i \<le> j \<and> j \<le> length bs" "required \<le> 2 * length bs"
    "frame_bytes bs parts \<noteq> []" "length (frame_bytes bs parts) \<le> 7"
  shows "parse_field data what required (map char_range parts) = Some (Inr (be_val (frame_bytes bs parts)))"
  using slices_frame [OF assms(1,2)] parse_int_hex [OF _ assms(4,5)] hex_frame_length [OF assms(1)] assms(3)
  by (auto simp: parse_field_def)

lemma parse_field_total:
  assumes "\<forall>(i, j) \<in> set parts. i \<le> j \<and> j \<le> required"
  shows "\<exists>r. parse_field data what required parts = Some r"
proof (cases "length data < required")
  case False
  have "\<exists>s. slices data parts = Some s"
    using assms False by (induction data parts rule: slices.induct) auto
  then show ?thesis using False by (auto simp: parse_field_def)
qed (simp add: parse_field_def)

text \<open>The values of the fields of a frame.\<close>

definition me_points :: "byte list \<Rightarrow> (string \<times> gofloat) list" where
  "me_points bs =
     [(PulseField, f64_of_int (be_val [bs ! 4, bs ! 5, bs ! 6, bs ! 7])),
      (MEVoltageField, fl_divc mk_f64 (f64_of_int (uint (bs ! 8))) 50),
      (AI1Field, f64_of_int (be_val [bs ! 9, bs ! 10])),
      (AI2Field, f64_of_int (be_val [bs ! 11, bs ! 12])),
      (AI3Field, f64_of_int (be_val [bs ! 13, bs ! 14]))]"

definition droplet_voltage_value :: "int \<Rightarrow> gofloat" where
  "droplet_voltage_value v =
     (if fl_ltc (fl_divc mk_f64 (f64_of_int v) 50) 1
      then fl_addc mk_f64 (fl_addc mk_f64 (fl_divc mk_f64 (f64_of_int v) 50) (- r64 (6 / 100))) 5
      else fl_divc mk_f64 (f64_of_int v) 50)"

definition th_points :: "byte list \<Rightarrow> (string \<times> gofloat) list" where
  "th_points bs =
     [(TemperatureField, fl_divc mk_f64 (f64_of_int (sint (word_of_int (be_val [bs ! 5, bs ! 4]) :: 16 word))) 100),
      (PressureField, fl_divc mk_f64 (f64_of_int (be_val [bs ! 7, bs ! 6])) 10),
      (HumidityField, f64_of_int (uint (bs ! 8) AND 127)),
      (DropletVoltageField, droplet_voltage_value (uint (bs ! 11)))]"

definition thlm_points :: "byte list \<Rightarrow> (string \<times> gofloat) list" where
  "thlm_points bs = th_points bs
     @ [(LightField, f64_of_int (be_val [bs ! 10, bs ! 9])),
        (MotionField, BoolToFloat (uint (bs ! 8) > 127))]"

lemma take_drop_nths:
  "n + 1 \<le> length bs \<Longrightarrow> take (Suc 0) (drop n bs) = [bs ! n]"
  "n + 1 \<le> length bs \<Longrightarrow> take 1 (drop n bs) = [bs ! n]"
  "n + 2 \<le> length bs \<Longrightarrow> take 2 (drop n bs) = [bs ! n, bs ! (n + 1)]"
  "n + 4 \<le> length bs \<Longrightarrow> take 4 (drop n bs) = [bs ! n, bs ! (n + 1), bs ! (n + 2), bs ! (n + 3)]"
  by (rule nth_equalityI; auto simp: less_Suc_eq numeral_2_eq_2 numeral_eq_Suc nth_Cons')+

text \<open>One field of one, two or four bytes, or a little-endian pair.\<close>

lemma field1:
  assumes "hex_frame data bs" "n < length bs" "required \<le> 2 * length bs"
  shows "parse_field data what required [(2 * n, 2 * n + 2)] = Some (Inr (uint (bs ! n)))"
  using parse_field_frame [OF assms(1), of "[(n, n + 1)]" required what] assms
  by (simp add: frame_bytes_def take_drop_nths algebra_simps del: add_2_eq_Suc add_2_eq_Suc')

lemma field2:
  assumes "hex_frame data bs" "n + 1 < length bs" "required \<le> 2 * length bs"
  shows "parse_field data what required [(2 * n, 2 * n + 4)] = Some (Inr (be_val [bs ! n, bs ! (n + 1)]))"
  using parse_field_frame [OF assms(1), of "[(n, n + 2)]" required what] assms
  by (simp add: frame_bytes_def take_drop_nths algebra_simps del: add_2_eq_Suc add_2_eq_Suc')

lemma field4:
  assumes "hex_frame data bs" "n + 3 < length bs" "required \<le> 2 * length bs"
  shows "parse_field data what required [(2 * n, 2 * n + 8)]
    = Some (Inr (be_val [bs ! n, bs ! (n + 1), bs ! (n + 2), bs ! (n + 3)]))"
  using parse_field_frame [OF assms(1), of "[(n, n + 4)]" required what] assms
  by (simp add: frame_bytes_def take_drop_nths algebra_simps del: add_2_eq_Suc add_2_eq_Suc')

lemma field2_le:
  assumes "hex_frame data bs" "n + 1 < length bs" "required \<le> 2 * length bs"
  shows "parse_field data what required [(2 * n + 2, 2 * n + 4), (2 * n, 2 * n + 2)]
    = Some (Inr (be_val [bs ! (n + 1), bs ! n]))"
  using parse_field_frame [OF assms(1), of "[(n + 1, n + 2), (n, n + 1)]" required what] assms
  by (simp add: frame_bytes_def take_drop_nths algebra_simps del: add_2_eq_Suc add_2_eq_Suc')

lemma map_val_simps [simp]:
  "map_val f (Some (Inr v)) = Some (Inr (f v))" "map_val f (Some (Inl e)) = Some (Inl e)"
  "map_val f None = None"
  by (simp_all add: map_val_def)

lemma me_fields:
  assumes f: "hex_frame data bs" and l: "15 \<le> length bs"
  shows "pulse data = Some (Inr (be_val [bs ! 4, bs ! 5, bs ! 6, bs ! 7]))"
    "voltage data = Some (Inr (fl_divc mk_f64 (f64_of_int (uint (bs ! 8))) 50))"
    "ai1 data = Some (Inr (f64_of_int (be_val [bs ! 9, bs ! 10])))"
    "ai2 data = Some (Inr (f64_of_int (be_val [bs ! 11, bs ! 12])))"
    "ai3 data = Some (Inr (f64_of_int (be_val [bs ! 13, bs ! 14])))"
  using field4 [OF f, of 4 16 "''pulse''"] field1 [OF f, of 8 18 "''voltage''"]
    field2 [OF f, of 9 22 "''ai1''"] field2 [OF f, of 11 26 "''ai2''"] field2 [OF f, of 13 30 "''ai3''"] l
  by (simp_all add: pulse_def voltage_def ai1_def ai2_def ai3_def)

lemma droplet_fields:
  assumes f: "hex_frame data bs" and l: "12 \<le> length bs"
  shows "dropletTemp data = Some (Inr (fl_divc mk_f64 (f64_of_int (sint (word_of_int (be_val [bs ! 5, bs ! 4]) :: 16 word))) 100))"
    "dropletPressure data = Some (Inr (fl_divc mk_f64 (f64_of_int (be_val [bs ! 7, bs ! 6])) 10))"
    "dropletHumidity data = Some (Inr (uint (bs ! 8) AND 127))"
    "dropletVoltage data = Some (Inr (droplet_voltage_value (uint (bs ! 11))))"
    "dropletLight data = Some (Inr (be_val [bs ! 10, bs ! 9]))"
    "dropletMotion data = Some (Inr (uint (bs ! 8) > 127))"
  using field2_le [OF f, of 4 12 "''temperature''"] field2_le [OF f, of 6 16 "''pressure''"]
    field1 [OF f, of 8 18 "''humidity''"] field1 [OF f, of 11 24 "''voltage''"]
    field2_le [OF f, of 9 22 "''light''"] field1 [OF f, of 8 18 "''motion''"] l
  by (simp_all add: dropletTemp_def dropletPressure_def dropletHumidity_def dropletVoltage_def
      dropletLight_def dropletMotion_def droplet_voltage_value_def Let_def)

lemma DecodeME_on_frame:
  assumes "hex_frame data bs" "15 \<le> length bs"
  shows "DecodeME data dev cb s = report_points cb dev (me_points bs) s"
  by (simp add: DecodeME_def me_fields [OF assms] me_points_def)

lemma report_all_append:
  "report_all (fs @ gs) s = (case report_all fs s of None \<Rightarrow> None | Some s' \<Rightarrow> report_all gs s')"
  by (induction fs arbitrary: s) (auto split: option.splits)

lemma report_points_append:
  "report_points cb dev (xs @ ys) s =
     (case report_points cb dev xs s of None \<Rightarrow> None | Some (e, s') \<Rightarrow> report_points cb dev ys s')"
  by (auto simp: report_points_def report_all_append split: option.splits)

lemma report_points_nil_error: "report_points cb dev xs s = Some (e, s') \<Longrightarrow> e = None"
  by (auto simp: report_points_def)

lemma DecodeDropletTHLM_on_frame:
  assumes "hex_frame data bs" "12 \<le> length bs"
  shows "DecodeDropletTHLM data dev cb s = report_points cb dev (thlm_points bs) s"
proof -
  have th: "DecodeDropletTH data dev cb s = report_points cb dev (th_points bs) s" for s
    by (simp add: DecodeDropletTH_def droplet_fields [OF assms] th_points_def)
  have thl: "DecodeDropletTHL data dev cb s
      = report_points cb dev (th_points bs @ [(LightField, f64_of_int (be_val [bs ! 10, bs ! 9]))]) s" for s
    by (simp add: DecodeDropletTHL_def th droplet_fields [OF assms] report_points_append
        split: option.splits prod.splits) (auto dest: report_points_nil_error)
  have "thlm_points bs = (th_points bs @ [(LightField, f64_of_int (be_val [bs ! 10, bs ! 9]))])
      @ [(MotionField, BoolToFloat (uint (bs ! 8) > 127))]" by (simp add: thlm_points_def)
  then show ?thesis
    by (simp add: DecodeDropletTHLM_def thl droplet_fields [OF assms]
        report_points_append [of _ _ "th_points bs @ [(LightField, f64_of_int (be_val [bs ! 10, bs ! 9]))]"]
        del: append_assoc split: option.splits prod.splits) (auto dest: report_points_nil_error)
qed

subsection \<open>What the decoders keep\<close>

lemma report_all_kept:
  "(\<And>f s. f \<in> set fs \<Longrightarrow> Q s \<Longrightarrow> kept R Q (f s)) \<Longrightarrow> Q s \<Longrightarrow> kept R Q (report_all fs s)"
proof (induction fs arbitrary: s)
  case (Cons f fs)
  from Cons.prems(1) [of f s] Cons.prems(2) have "kept R Q (f s)" by simp
  then show ?case using Cons by (cases "f s") auto
qed simp

lemma read_all_safe:
  assumes "\<forall>(f, r) \<in> set rs. r \<noteq> None" "\<And>f e. safe R Q (onerr f e s)"
    "\<And>vs. length vs = length rs \<Longrightarrow> safe R Q (k vs s)"
  shows "safe R Q (read_all rs onerr k s)"
  using assms
proof (induction rs arbitrary: k)
  case (Cons p rs)
  obtain f r where p: "p = (f, r)" by (cases p)
  then obtain x where x: "r = Some x" using Cons.prems(1) by auto
  show ?case
  proof (cases x)
    case (Inr v)
    have "safe R Q (read_all rs onerr (\<lambda>vs. k (v # vs)) s)"
      by (rule Cons.IH) (use Cons.prems in auto)
    then show ?thesis by (simp add: p x Inr)
  qed (use Cons.prems(2) p x in simp)
qed simp

lemma field_readers_total:
  "pulse data \<noteq> None" "voltage data \<noteq> None" "ai1 data \<noteq> None" "ai2 data \<noteq> None" "ai3 data \<noteq> None"
  "dropletTemp data \<noteq> None" "dropletPressure data \<noteq> None" "dropletHumidity data \<noteq> None"
  "dropletVoltage data \<noteq> None" "dropletLight data \<noteq> None" "dropletMotion data \<noteq> None"
proof -
  have "parse_field data what required parts \<noteq> None"
    if "\<forall>(i, j) \<in> set parts. i \<le> j \<and> j \<le> required" for what required parts
    using parse_field_total [OF that] by auto
  then show "pulse data \<noteq> None" "voltage data \<noteq> None" "ai1 data \<noteq> None" "ai2 data \<noteq> None" "ai3 data \<noteq> None"
    "dropletTemp data \<noteq> None" "dropletPressure data \<noteq> None" "dropletHumidity data \<noteq> None"
    "dropletVoltage data \<noteq> None" "dropletLight data \<noteq> None" "dropletMotion data \<noteq> None"
    by (simp_all add: pulse_def voltage_def ai1_def ai2_def ai3_def dropletTemp_def dropletPressure_def
        dropletHumidity_def dropletVoltage_def dropletLight_def dropletMotion_def map_val_def del: not_None_eq)
qed

lemma map_val_total: "r \<noteq> None \<Longrightarrow> map_val f r \<noteq> None"
  by (simp add: map_val_def)

context reception
begin

lemma report_points_safe:
  assumes "Q s"
  shows "safe R Q (report_points cb dev pts s)"
  unfolding report_points_def safe_Pair
  by (rule report_all_kept [where Q = Q]) (auto simp: kept_perform point assms)

lemma DecodeME_safe: "Q s \<Longrightarrow> safe R Q (DecodeME data dev cb s)"
  unfolding DecodeME_def
  by (rule read_all_safe)
     (auto simp: map_val_total field_readers_total length_Suc_conv report_points_safe point_err simp del: not_None_eq)

lemma DecodeDropletTH_safe: "Q s \<Longrightarrow> safe R Q (DecodeDropletTH data dev cb s)"
  unfolding DecodeDropletTH_def
  by (rule read_all_safe)
     (auto simp: map_val_total field_readers_total length_Suc_conv report_points_safe point_err simp del: not_None_eq)

lemma read_one_safe:
  assumes "r \<noteq> None" "Q s"
  shows "safe R Q (read_all [(f, r)] (\<lambda>f err. updatePointErrFn cb f err dev None)
           (\<lambda>vs. report_points cb dev (zip [f] vs)) s)"
  by (rule read_all_safe) (use assms in \<open>auto simp: report_points_safe point_err\<close>)

lemma DecodeDropletTHL_safe:
  assumes "Q s"
  shows "safe R Q (DecodeDropletTHL data dev cb s)"
  using DecodeDropletTH_safe [OF assms, of data]
    read_one_safe [OF map_val_total [OF field_readers_total(10)]]
  by (auto simp: DecodeDropletTHL_def simp del: read_all.simps split: option.splits)

lemma DecodeDropletTHLM_safe:
  assumes "Q s"
  shows "safe R Q (DecodeDropletTHLM data dev cb s)"
  using DecodeDropletTHL_safe [OF assms, of data]
    read_one_safe [OF map_val_total [OF field_readers_total(11)]]
  by (auto simp: DecodeDropletTHLM_def simp del: read_all.simps split: option.splits)

end

subsection \<open>Properties\<close>

text \<open>C39: On the hexadecimal form (either letter case) of a frame of at least 15 bytes, the
  MicroEdge decoder reports exactly the pulse counter (bytes 4 to 7, big endian), the battery
  voltage (byte 8 over 50) and the three 16-bit analog inputs, in that order, and no error.\<close>

theorem microedge_frame_values:
  assumes "hex_frame data bs" "15 \<le> length bs"
  shows "DecodeME data dev cb s = report_points cb dev (me_points bs) s"
  by (rule DecodeME_on_frame [OF assms])

theorem microedge_frame_values_witness:
  "DecodeME (hex_encode (map word_of_nat [0..<18])) example_device recorder []
    = report_points recorder example_device (me_points (map word_of_nat [0..<18])) []"
  by (rule microedge_frame_values [OF hex_frame_encode(1)]) simp

text \<open>C38: On the hexadecimal form of a frame of at least 12 bytes, the THLM droplet decoder
  reports temperature (signed 16 bit, little endian, hundredths), pressure (little endian,
  tenths), humidity (low seven bits), battery voltage, light (little endian) and motion (top
  bit of the humidity byte), in that order, and no error.\<close>

theorem droplet_frame_values:
  assumes "hex_frame data bs" "12 \<le> length bs"
  shows "DecodeDropletTHLM data dev cb s = report_points cb dev (thlm_points bs) s"
  by (rule DecodeDropletTHLM_on_frame [OF assms])

theorem droplet_frame_values_witness:
  "DecodeDropletTHLM (to_upper (hex_encode (map word_of_nat [0..<18]))) example_device recorder []
    = report_points recorder example_device (thlm_points (map word_of_nat [0..<18])) []"
  by (rule droplet_frame_values [OF hex_frame_encode(2)]) simp

text \<open>The legacy decoders never panic, whatever string a frame holds: every slice they
  take is inside the length they checked (as long as the callbacks do not panic).\<close>

theorem legacy_decoders_never_panic:
  assumes "total_callbacks cb"
  shows "DecodeME data dev cb s \<noteq> None \<and> DecodeDropletTH data dev cb s \<noteq> None
    \<and> DecodeDropletTHL data dev cb s \<noteq> None \<and> DecodeDropletTHLM data dev cb s \<noteq> None"
  using total_reception [OF assms, THEN reception.DecodeME_safe] total_reception [OF assms, THEN reception.DecodeDropletTH_safe]
    total_reception [OF assms, THEN reception.DecodeDropletTHL_safe] total_reception [OF assms, THEN reception.DecodeDropletTHLM_safe]
  by (simp only: safe_total simp_thms)

theorem legacy_decoders_never_panic_witness:
  "DecodeME ''zz'' example_device recorder [] \<noteq> None \<and> DecodeDropletTH ''zz'' example_device recorder [] \<noteq> None
    \<and> DecodeDropletTHL ''zz'' example_device recorder [] \<noteq> None \<and> DecodeDropletTHLM ''zz'' example_device recorder [] \<noteq> None"
  by (rule legacy_decoders_never_panic [OF total_recorder])

end
