(* ===== verification/Zip_HydroTap.thy ===== *)
theory Zip_HydroTap
  imports Legacy_Decoders
begin

text \<open>
  ziphydrotap.go: the decoder of ZipHydroTap payloads.  Byte 0 of a payload is its type; the
  packet version follows and selects the optional version-2 fields at the end.  The reader
  threads the running index through the fields the way the code does; a read beyond the
  payload is a panic (\<open>None\<close>), which the length checks are shown to exclude.
\<close>

unbundle bit_operations_syntax

subsection \<open>Names and lengths\<close>

abbreviation (input) RebootField :: string where "RebootField \<equiv> ''reboot''"
abbreviation (input) ResetFilterField :: string where "ResetFilterField \<equiv> ''reset_filter''"
abbreviation (input) RemoteCalibrationField :: string where "RemoteCalibrationField \<equiv> ''remote_calibration''"
abbreviation (input) ResetEnergyField :: string where "ResetEnergyField \<equiv> ''reset_energy''"
abbreviation (input) TimeStartField :: string where "TimeStartField \<equiv> ''time_start''"
abbreviation (input) TimeStopField :: string where "TimeStopField \<equiv> ''time_stop''"
abbreviation (input) EnableStartField :: string where "EnableStartField \<equiv> ''enable_start''"
abbreviation (input) EnableStopField :: string where "EnableStopField \<equiv> ''enable_stop''"
abbreviation (input) TimeField :: string where "TimeField \<equiv> ''time''"
abbreviation (input) DispenseTimeBoilingField :: string where "DispenseTimeBoilingField \<equiv> ''dispense_time_boiling''"
abbreviation (input) DispenseTimeChilledField :: string where "DispenseTimeChilledField \<equiv> ''dispense_time_chilled''"
abbreviation (input) DispenseTimeSparklingField :: string where "DispenseTimeSparklingField \<equiv> ''dispense_time_sparkling''"
abbreviation (input) TemperatureSPBoilingField :: string where "TemperatureSPBoilingField \<equiv> ''temperature_sp_boiling''"
abbreviation (input) TemperatureSPChilledField :: string where "TemperatureSPChilledField \<equiv> ''temperature_sp_chilled''"
abbreviation (input) TemperatureSPSparklingField :: string where "TemperatureSPSparklingField \<equiv> ''temperature_sp_sparkling''"
abbreviation (input) SleepModeSettingField :: string where "SleepModeSettingField \<equiv> ''sleep_mode_setting''"
abbreviation (input) FilterInfoLifeLitresInternalField :: string where "FilterInfoLifeLitresInternalField \<equiv> ''filter_info_life_litres_internal''"
abbreviation (input) FilterInfoLifeMonthsInternalField :: string where "FilterInfoLifeMonthsInternalField \<equiv> ''filter_info_life_months_internal''"
abbreviation (input) FilterInfoLifeLitresExternalField :: string where "FilterInfoLifeLitresExternalField \<equiv> ''filter_info_life_litres_external''"
abbreviation (input) FilterInfoLifeMonthsExternalField :: string where "FilterInfoLifeMonthsExternalField \<equiv> ''filter_info_life_months_external''"
abbreviation (input) SafetyAllowTapChangesField :: string where "SafetyAllowTapChangesField \<equiv> ''safety_allow_tap_changes''"
abbreviation (input) SafetyLockField :: string where "SafetyLockField \<equiv> ''safety_lock''"
abbreviation (input) SafetyHotIsolationField :: string where "SafetyHotIsolationField \<equiv> ''safety_hot_isolation''"
abbreviation (input) SecurityEnableField :: string where "SecurityEnableField \<equiv> ''security_enable''"
abbreviation (input) SecurityPinField :: string where "SecurityPinField \<equiv> ''security_pin''"
abbreviation (input) FilterInfoLifeLitresUVField :: string where "FilterInfoLifeLitresUVField \<equiv> ''filter_info_life_litres_uv''"
abbreviation (input) FilterInfoLifeMonthsUVField :: string where "FilterInfoLifeMonthsUVField \<equiv> ''filter_info_life_months_uv''"
abbreviation (input) CO2LifeGramsField :: string where "CO2LifeGramsField \<equiv> ''co2_life_grams''"
abbreviation (input) CO2LifeMonthsField :: string where "CO2LifeMonthsField \<equiv> ''co2_life_months''"
abbreviation (input) CO2PressureField :: string where "CO2PressureField \<equiv> ''co2_pressure''"
abbreviation (input) CO2TankCapacityField :: string where "CO2TankCapacityField \<equiv> ''co2_tank_capacity''"
abbreviation (input) CO2AbsorptionRateField :: string where "CO2AbsorptionRateField \<equiv> ''co2_absorption_rate''"
abbreviation (input) SparklingFlowRateField :: string where "SparklingFlowRateField \<equiv> ''sparkling_flow_rate''"
abbreviation (input) SparklingFlushTimeField :: string where "SparklingFlushTimeField \<equiv> ''sparkling_flush_time''"
abbreviation (input) RebootedField :: string where "RebootedField \<equiv> ''rebooted''"
abbreviation (input) SleepModeStatusField :: string where "SleepModeStatusField \<equiv> ''sleep_mode_status''"
abbreviation (input) TemperatureNTCBoilingField :: string where "TemperatureNTCBoilingField \<equiv> ''temperature_ntc_boiling''"
abbreviation (input) TemperatureNTCChilledField :: string where "TemperatureNTCChilledField \<equiv> ''temperature_ntc_chilled''"
abbreviation (input) TemperatureNTCStreamField :: string where "TemperatureNTCStreamField \<equiv> ''temperature_ntc_stream''"
abbreviation (input) TemperatureNTCCondensorField :: string where "TemperatureNTCCondensorField \<equiv> ''temperature_ntc_condensor''"
abbreviation (input) Fault1Field :: string where "Fault1Field \<equiv> ''fault_1''"
abbreviation (input) Fault2Field :: string where "Fault2Field \<equiv> ''fault_2''"
abbreviation (input) Fault3Field :: string where "Fault3Field \<equiv> ''fault_3''"
abbreviation (input) Fault4Field :: string where "Fault4Field \<equiv> ''fault_4''"
abbreviation (input) UsageEnergyKWhField :: string where "UsageEnergyKWhField \<equiv> ''usage_energy_kwh''"
abbreviation (input) UsageWaterDeltaDispensesBoilingField :: string where "UsageWaterDeltaDispensesBoilingField \<equiv> ''usage_water_delta_dispenses_boiling''"
abbreviation (input) UsageWaterDeltaDispensesChilledField :: string where "UsageWaterDeltaDispensesChilledField \<equiv> ''usage_water_delta_dispenses_chilled''"
abbreviation (input) UsageWaterDeltaDispensesSparklingField :: string where "UsageWaterDeltaDispensesSparklingField \<equiv> ''usage_water_delta_dispenses_sparkling''"
abbreviation (input) UsageWaterDeltaLitresBoilingField :: string where "UsageWaterDeltaLitresBoilingField \<equiv> ''usage_water_delta_litres_boiling''"
abbreviation (input) UsageWaterDeltaLitresChilledField :: string where "UsageWaterDeltaLitresChilledField \<equiv> ''usage_water_delta_litres_chilled''"
abbreviation (input) UsageWaterDeltaLitresSparklingField :: string where "UsageWaterDeltaLitresSparklingField \<equiv> ''usage_water_delta_litres_sparkling''"
abbreviation (input) FilterWarningInternalField :: string where "FilterWarningInternalField \<equiv> ''filter_warning_internal''"
abbreviation (input) FilterWarningExternalField :: string where "FilterWarningExternalField \<equiv> ''filter_warning_external''"
abbreviation (input) FilterInfoUsageLitresInternalField :: string where "FilterInfoUsageLitresInternalField \<equiv> ''filter_info_usage_litres_internal''"
abbreviation (input) FilterInfoUsageDaysInternalField :: string where "FilterInfoUsageDaysInternalField \<equiv> ''filter_info_usage_days_internal''"
abbreviation (input) FilterInfoUsageLitresExternalField :: string where "FilterInfoUsageLitresExternalField \<equiv> ''filter_info_usage_litres_external''"
abbreviation (input) FilterInfoUsageDaysExternalField :: string where "FilterInfoUsageDaysExternalField \<equiv> ''filter_info_usage_days_external''"
abbreviation (input) FilterInfoUsageLitresUVField :: string where "FilterInfoUsageLitresUVField \<equiv> ''filter_info_usage_litres_uv''"
abbreviation (input) FilterInfoUsageDaysUVField :: string where "FilterInfoUsageDaysUVField \<equiv> ''filter_info_usage_days_uv''"
abbreviation (input) FilterWarningUVField :: string where "FilterWarningUVField \<equiv> ''filter_warning_uv''"
abbreviation (input) CO2LowGasWarningField :: string where "CO2LowGasWarningField \<equiv> ''co2_low_gas_warning''"
abbreviation (input) CO2UsageGramsField :: string where "CO2UsageGramsField \<equiv> ''co2_usage_grams''"
abbreviation (input) CO2UsageDaysField :: string where "CO2UsageDaysField \<equiv> ''co2_usage_days''"

abbreviation (input) ZHTPlLenStaticV1 :: nat where "ZHTPlLenStaticV1 \<equiv> 97"
abbreviation (input) ZHTPlLenStaticV2 :: nat where "ZHTPlLenStaticV2 \<equiv> 102"
abbreviation (input) ZHTPlLenWriteV1 :: nat where "ZHTPlLenWriteV1 \<equiv> 51"
abbreviation (input) ZHTPlLenWriteV2 :: nat where "ZHTPlLenWriteV2 \<equiv> 66"
abbreviation (input) ZHTPlLenPollV1 :: nat where "ZHTPlLenPollV1 \<equiv> 40"
abbreviation (input) ZHTPlLenPollV2 :: nat where "ZHTPlLenPollV2 \<equiv> 47"
abbreviation (input) ZipHTTimerLength :: nat where "ZipHTTimerLength \<equiv> 7"

abbreviation (input) ErrorData :: int where "ErrorData \<equiv> 0"
abbreviation (input) StaticData :: int where "StaticData \<equiv> 1"
abbreviation (input) WriteData :: int where "WriteData \<equiv> 2"
abbreviation (input) PollData :: int where "PollData \<equiv> 3"

definition numbered :: "string \<Rightarrow> nat \<Rightarrow> string" where
  "numbered field i = field @ ''_'' @ itoa (int i)"

definition GenerateTimerFieldNames :: "string list" where
  "GenerateTimerFieldNames = concat (map (\<lambda>i.
     [numbered TimeStartField i, numbered TimeStopField i, numbered EnableStartField i,
      numbered EnableStopField i]) [0..<ZipHTTimerLength])"

definition GetTZipHydroTapWriteOnlyFields :: "string list" where
  "GetTZipHydroTapWriteOnlyFields = [
     RebootField, ResetFilterField, RemoteCalibrationField,
     ResetEnergyField]"

definition GetTZipHydroTapWriteFields :: "string list" where
  "GetTZipHydroTapWriteFields = [
     TimeField, DispenseTimeBoilingField, DispenseTimeChilledField,
     DispenseTimeSparklingField, TemperatureSPBoilingField, TemperatureSPChilledField,
     TemperatureSPSparklingField, SleepModeSettingField, FilterInfoLifeLitresInternalField,
     FilterInfoLifeMonthsInternalField, FilterInfoLifeLitresExternalField, FilterInfoLifeMonthsExternalField,
     SafetyAllowTapChangesField, SafetyLockField, SafetyHotIsolationField,
     SecurityEnableField, SecurityPinField, FilterInfoLifeLitresUVField,
     FilterInfoLifeMonthsUVField, CO2LifeGramsField, CO2LifeMonthsField,
     CO2PressureField, CO2TankCapacityField, CO2AbsorptionRateField,
     SparklingFlowRateField, SparklingFlushTimeField]
     @ GenerateTimerFieldNames"

definition GetTZipHydroTapPollFields :: "string list" where
  "GetTZipHydroTapPollFields = [
     RebootedField, SleepModeStatusField, TemperatureNTCBoilingField,
     TemperatureNTCChilledField, TemperatureNTCStreamField, TemperatureNTCCondensorField,
     UsageEnergyKWhField, UsageWaterDeltaDispensesBoilingField, UsageWaterDeltaDispensesChilledField,
     UsageWaterDeltaDispensesSparklingField, UsageWaterDeltaLitresBoilingField, UsageWaterDeltaLitresChilledField,
     UsageWaterDeltaLitresSparklingField, Fault1Field, Fault2Field,
     Fault3Field, Fault4Field, FilterWarningInternalField,
     FilterWarningExternalField, FilterInfoUsageLitresInternalField, FilterInfoUsageDaysInternalField,
     FilterInfoUsageLitresExternalField, FilterInfoUsageDaysExternalField, FilterInfoUsageLitresUVField,
     FilterInfoUsageDaysUVField, FilterWarningUVField, CO2LowGasWarningField,
     CO2UsageGramsField, CO2UsageDaysField]"

definition GetZHTPointNames :: "string list" where
  "GetZHTPointNames = ((GetCommonValueNames @ GetTZipHydroTapWriteOnlyFields)
     @ GetTZipHydroTapWriteFields) @ GetTZipHydroTapPollFields"

text \<open>A parse error leaves the zero value (two digits are never out of range).\<close>

definition getPayloadBytes :: "string \<Rightarrow> goerr + byte list" where
  "getPayloadBytes data =
     (if length data < 2 then Inl (ErrMsg ''payload too short'')
      else case hex_decode (drop 2 data) of
             (bytes, Some err) \<Rightarrow> Inl err
           | (bytes, None) \<Rightarrow> Inr bytes)"

definition getPayloadType :: "string \<Rightarrow> int" where
  "getPayloadType data =
     (if length data < 2 then ErrorData
      else case parse_int 16 (take 2 data) of Inl err \<Rightarrow> 0 | Inr plID \<Rightarrow> plID)"

definition getPacketVersion :: "string \<Rightarrow> byte" where
  "getPacketVersion data =
     (if length data < 4 then 0
      else case parse_int 16 (take 2 (drop 2 data)) of Inl err \<Rightarrow> 0 | Inr v \<Rightarrow> word_of_int v)"

definition CheckPayloadLengthZHT :: "string \<Rightarrow> bool" where
  "CheckPayloadLengthZHT data =
     (let dataLength = length data div 2; payloadType = getPayloadType data in
      if getPacketVersion data = 1 then
        (payloadType = StaticData \<and> dataLength = ZHTPlLenStaticV1) \<or>
        (payloadType = WriteData \<and> dataLength = ZHTPlLenWriteV1) \<or>
        (payloadType = PollData \<and> dataLength = ZHTPlLenPollV1)
      else if getPacketVersion data = 2 then
        (payloadType = StaticData \<and> dataLength = ZHTPlLenStaticV2) \<or>
        (payloadType = WriteData \<and> dataLength = ZHTPlLenWriteV2) \<or>
        (payloadType = PollData \<and> dataLength = ZHTPlLenPollV2)
      else False)"

subsection \<open>Reading fields\<close>

text \<open>\<^verbatim>\<open>string(b)\<close> of a byte is the UTF-8 encoding of the code point: one byte below 128, two above.\<close>

definition string_of_byte :: "byte \<Rightarrow> string" where
  "string_of_byte b = (let n = unat b in
     if n < 128 then [char_of n] else [char_of (192 + n div 64), char_of (128 + n mod 64)])"

definition bytesToString :: "byte list \<Rightarrow> string" where
  "bytesToString bytes = concat (map string_of_byte (takeWhile (\<lambda>b. b \<noteq> 0) bytes))"

definition bytesToDate :: "byte list \<Rightarrow> string" where
  "bytesToDate bytes =
     (if length bytes < 3 then ''''
      else itoa (uint (bytes ! 0)) @ ''/'' @ itoa (uint (bytes ! 1)) @ ''/'' @ itoa (uint (bytes ! 2)))"

definition le_val :: "byte list \<Rightarrow> int" where
  "le_val bs = be_val (rev bs)"

definition read_n :: "nat \<Rightarrow> byte list \<Rightarrow> nat \<Rightarrow> (byte list \<times> nat) option" where
  "read_n n data index = map_option (\<lambda>bs. (bs, index + n)) (go_slice data index (index + n))"

definition read8 :: "byte list \<Rightarrow> nat \<Rightarrow> (byte \<times> nat) option" where
  "read8 data index = map_option (\<lambda>b. (b, index + 1)) (go_index data index)"

definition read16 :: "byte list \<Rightarrow> nat \<Rightarrow> (int \<times> nat) option" where
  "read16 data index = map_option (\<lambda>(bs, index). (le_val bs, index)) (read_n 2 data index)"

definition read32 :: "byte list \<Rightarrow> nat \<Rightarrow> (int \<times> nat) option" where
  "read32 data index = map_option (\<lambda>(bs, index). (le_val bs, index)) (read_n 4 data index)"

text \<open>\<^verbatim>\<open>float32(n) / 10\<close> (then widened to float64, exactly).\<close>

definition tenths :: "int \<Rightarrow> gofloat" where
  "tenths n = fl_divc mk_f32 (f32_of_int n) 10"

definition short_payload :: "string \<Rightarrow> nat \<Rightarrow> nat \<Rightarrow> goerr" where
  "short_payload what required actual =
     ErrMsg (what @ '' payload too short: required>='' @ itoa (int required) @ '' actual='' @ itoa (int actual))"

definition short_v2 :: "string \<Rightarrow> nat \<Rightarrow> nat \<Rightarrow> goerr" where
  "short_v2 what index len =
     ErrMsg (''insufficient data for v2 '' @ what @ '' payload fields: index='' @ itoa (int index)
       @ '' len='' @ itoa (int len))"

subsection \<open>Static payload\<close>

text \<open>
  The loop over the freshly built map: every existing tag with the key is updated, and a new
  tag is appended in any case (the inner \<^verbatim>\<open>continue\<close> continues the inner loop).  \<open>order\<close> is
  Go's unspecified iteration order of the map.
\<close>

definition put_meta_tag :: "string \<Rightarrow> string \<times> string \<Rightarrow> meta_tag list \<Rightarrow> meta_tag list" where
  "put_meta_tag devUUID kv tags =
     map (\<lambda>t. if fst kv = tag_Key t then t\<lparr>tag_Value := snd kv\<rparr> else t) tags
     @ [\<lparr>tag_DeviceUUID = devUUID, tag_Key = fst kv, tag_Value = snd kv\<rparr>]"

definition zht_modbus_address :: "device \<Rightarrow> int" where
  "zht_modbus_address dev =
     (let addressUUID = (case dev_AddressUUID dev of None \<Rightarrow> '''' | Some a \<Rightarrow> a) in
      if 6 \<le> length addressUUID then
        (case parse_int 16 (take 2 (drop 4 addressUUID)) of Inl err \<Rightarrow> 0 | Inr v \<Rightarrow> v)
      else 0)"

definition staticPayloadDecoder ::
  "((string \<times> string) list \<Rightarrow> (string \<times> string) list) \<Rightarrow> byte list \<Rightarrow> device \<Rightarrow> 's callbacks \<Rightarrow> 's action" where
  "staticPayloadDecoder order data dev cb s =
     (let minLength = 96 in
      if length data < minLength then Some (Some (short_payload ''static'' minLength (length data)), s)
      else do {
        (fwMa, index) \<leftarrow> read8 data 1;
        (fwMi, index) \<leftarrow> read8 data index;
        (buildMa, index) \<leftarrow> read8 data index;
        (buildMi, index) \<leftarrow> read8 data index;
        (sn, index) \<leftarrow> read_n 15 data index;
        (mn, index) \<leftarrow> read_n 20 data index;
        (pn, index) \<leftarrow> read_n 20 data index;
        (fw, index) \<leftarrow> read_n 20 data index;
        (calDate, index) \<leftarrow> read_n 3 data index;
        (f50lDate, index) \<leftarrow> read_n 3 data index;
        (filtLogDateInt, index) \<leftarrow> read_n 3 data index;
        (filtLogLitresInt, index) \<leftarrow> read16 data index;
        (filtLogDateExt, index) \<leftarrow> read_n 3 data index;
        (filtLogLitresExt, index) \<leftarrow> read16 data index;
        version \<leftarrow> go_index data 0;
        if 2 \<le> version \<and> length data < index + 5
        then Some (Some (short_v2 ''static'' index (length data)), s)
        else do {
          (filtLogDateUV, filtLogLitresUV) \<leftarrow>
            (if 2 \<le> version then do {
               (d, index) \<leftarrow> read_n 3 data index;
               (l, index) \<leftarrow> read16 data index;
               Some (bytesToDate d, l) }
             else Some ('''', 0));
          let metaTags = [
            (''lora_firmware_major'', itoa (uint fwMa)), (''lora_firmware_minor'', itoa (uint fwMi)),
            (''lora_build_major'', itoa (uint buildMa)), (''lora_build_minor'', itoa (uint buildMi)),
            (''serial_number'', bytesToString sn), (''model_number'', bytesToString mn),
            (''product_number'', bytesToString pn), (''firmware_version'', bytesToString fw),
            (''calibration_date'', bytesToDate calDate), (''first_50_litres_data'', bytesToDate f50lDate),
            (''filter_log_date_internal'', bytesToDate filtLogDateInt),
            (''filter_log_litres_internal'', itoa filtLogLitresInt),
            (''filter_log_date_external'', bytesToDate filtLogDateExt),
            (''filter_log_litres_external'', itoa filtLogLitresExt),
            (''filter_log_date_uv'', filtLogDateUV), (''filter_log_litres_uv'', itoa filtLogLitresUV),
            (''modbus_address'', itoa (zht_modbus_address dev))];
          let tags = fold (put_meta_tag (dev_UUID dev)) (order metaTags) (dev_MetaTags dev);
          updateMetaTagsFn cb (dev_UUID dev) tags s } })"

subsection \<open>Write payload\<close>

text \<open>One pass of the timer loop, and the loop.\<close>

definition timer_step :: "byte list \<Rightarrow> device \<Rightarrow> 's callbacks \<Rightarrow> nat \<Rightarrow> nat \<times> 's \<Rightarrow> (nat \<times> 's) option" where
  "timer_step data dev cb i st = (case st of (index, s) \<Rightarrow> do {
     (u16, index) \<leftarrow> read16 data index;
     let timeStart = u16 mod 10000;
     let enableStart = 10000 \<le> u16;
     (u16, index) \<leftarrow> read16 data index;
     let timeStop = u16 mod 10000;
     let enableStop = 10000 \<le> u16;
     (_, s) \<leftarrow> report_points cb dev [
       (numbered TimeStartField i, f64_of_int timeStart),
       (numbered TimeStopField i, f64_of_int timeStop),
       (numbered EnableStartField i, BoolToFloat enableStart),
       (numbered EnableStopField i, BoolToFloat enableStop)] s;
     Some (index, s) })"

fun timer_loop :: "byte list \<Rightarrow> device \<Rightarrow> 's callbacks \<Rightarrow> nat list \<Rightarrow> nat \<times> 's \<Rightarrow> (nat \<times> 's) option" where
  "timer_loop data dev cb [] st = Some st"
| "timer_loop data dev cb (i # is) st = do { st \<leftarrow> timer_step data dev cb i st; timer_loop data dev cb is st }"

definition writePayloadDecoder :: "byte list \<Rightarrow> device \<Rightarrow> 's callbacks \<Rightarrow> 's action" where
  "writePayloadDecoder data dev cb s =
     (let minLength = 22 + ZipHTTimerLength * 4 in
      if length data < minLength then Some (Some (short_payload ''write'' minLength (length data)), s)
      else do {
        (time, index) \<leftarrow> read32 data 1;
        (dispB, index) \<leftarrow> read8 data index;
        (dispC, index) \<leftarrow> read8 data index;
        (dispS, index) \<leftarrow> read8 data index;
        (tempSpB, index) \<leftarrow> read16 data index;
        (tempSpC, index) \<leftarrow> read8 data index;
        (tempSpS, index) \<leftarrow> read8 data index;
        (sm, index) \<leftarrow> read8 data index;
        (filLyfLtrInt, index) \<leftarrow> read16 data index;
        (filLyfMnthInt, index) \<leftarrow> read8 data index;
        (filLyfLtrExt, index) \<leftarrow> read16 data index;
        (filLyfMnthExt, index) \<leftarrow> read8 data index;
        (flags, index) \<leftarrow> read8 data index;
        (secUI16, index) \<leftarrow> read16 data index;
        (index, s) \<leftarrow> timer_loop data dev cb [0..<ZipHTTimerLength] (index, s);
        version \<leftarrow> go_index data 0;
        if 2 \<le> version \<and> length data < index + 15
        then Some (Some (short_v2 ''write'' index (length data)), s)
        else do {
          (filLyfLtrUV, filLyfMnthUV, cO2LyfGrams, cO2LyfMnths, cO2Pressure, cO2TankCap, cO2AbsorpRate,
             sparklFlowRate, sparklFlushTime) \<leftarrow>
            (if 2 \<le> version then do {
               (a, index) \<leftarrow> read16 data index;
               (b, index) \<leftarrow> read8 data index;
               (c, index) \<leftarrow> read16 data index;
               (d, index) \<leftarrow> read8 data index;
               (e, index) \<leftarrow> read8 data index;
               (f, index) \<leftarrow> read16 data index;
               (g, index) \<leftarrow> read16 data index;
               (h, index) \<leftarrow> read16 data index;
               (i, index) \<leftarrow> read16 data index;
               Some (a, uint b, c, uint d, uint e, f, g, h, i) }
             else Some (0, 0, 0, 0, 0, 0, 0, 0, 0));
          report_points cb dev [
            (TimeField, f64_of_int time),
            (DispenseTimeBoilingField, f64_of_int (uint dispB)),
            (DispenseTimeChilledField, f64_of_int (uint dispC)),
            (DispenseTimeSparklingField, f64_of_int (uint dispS)),
            (TemperatureSPBoilingField, tenths tempSpB),
            (TemperatureSPChilledField, f32_of_int (uint tempSpC)),
            (TemperatureSPSparklingField, f32_of_int (uint tempSpS)),
            (SleepModeSettingField, f64_of_int (uint sm)),
            (FilterInfoLifeLitresInternalField, f64_of_int filLyfLtrInt),
            (FilterInfoLifeMonthsInternalField, f64_of_int (uint filLyfMnthInt)),
            (FilterInfoLifeLitresExternalField, f64_of_int filLyfLtrExt),
            (FilterInfoLifeMonthsExternalField, f64_of_int (uint filLyfMnthExt)),
            (SafetyAllowTapChangesField, BoolToFloat (drop_bit 2 flags AND 1 = 1)),
            (SafetyLockField, BoolToFloat (drop_bit 1 flags AND 1 = 1)),
            (SafetyHotIsolationField, BoolToFloat (drop_bit 0 flags AND 1 = 1)),
            (SecurityEnableField, BoolToFloat (10000 \<le> secUI16)),
            (SecurityPinField, f64_of_int (secUI16 mod 10000)),
            (FilterInfoLifeLitresUVField, f64_of_int filLyfLtrUV),
            (FilterInfoLifeMonthsUVField, f64_of_int filLyfMnthUV),
            (CO2LifeGramsField, f64_of_int cO2LyfGrams),
            (CO2LifeMonthsField, f64_of_int cO2LyfMnths),
            (CO2PressureField, f64_of_int cO2Pressure),
            (CO2TankCapacityField, f64_of_int cO2TankCap),
            (CO2AbsorptionRateField, f64_of_int cO2AbsorpRate),
            (SparklingFlowRateField, f64_of_int sparklFlowRate),
            (SparklingFlushTimeField, f64_of_int sparklFlushTime)] s } })"

subsection \<open>Poll payload\<close>

definition pollPayloadDecoder :: "byte list \<Rightarrow> device \<Rightarrow> 's callbacks \<Rightarrow> 's action" where
  "pollPayloadDecoder data dev cb s =
     (let minLength = 39 in
      if length data < minLength then Some (Some (short_payload ''poll'' minLength (length data)), s)
      else do {
        (status, index) \<leftarrow> read8 data 1;
        (tempB, index) \<leftarrow> read16 data index;
        (tempC, index) \<leftarrow> read16 data index;
        (tempS, index) \<leftarrow> read16 data index;
        (tempCond, index) \<leftarrow> read16 data index;
        (f1, index) \<leftarrow> read8 data index;
        (f2, index) \<leftarrow> read8 data index;
        (f3, index) \<leftarrow> read8 data index;
        (f4, index) \<leftarrow> read8 data index;
        (kwh, index) \<leftarrow> read32 data index;
        (dltDispB, index) \<leftarrow> read16 data index;
        (dltDispC, index) \<leftarrow> read16 data index;
        (dltDispS, index) \<leftarrow> read16 data index;
        (dltLtrB, index) \<leftarrow> read16 data index;
        (dltLtrC, index) \<leftarrow> read16 data index;
        (dltLtrS, index) \<leftarrow> read16 data index;
        (warning, index) \<leftarrow> read8 data index;
        (fltrNfoUseLtrInt, index) \<leftarrow> read16 data index;
        (fltrNfoUseDayInt, index) \<leftarrow> read16 data index;
        (fltrNfoUseLtrExt, index) \<leftarrow> read16 data index;
        (fltrNfoUseDayExt, index) \<leftarrow> read16 data index;
        version \<leftarrow> go_index data 0;
        if 2 \<le> version \<and> length data < index + 7
        then Some (Some (short_v2 ''poll'' index (length data)), s)
        else do {
          (fltrNfoUseLtrUV, fltrNfoUseDayUV, fltrWrnUV, cO2GasPressureWrn, cO2UsgGrams, cO2UsgDays) \<leftarrow>
            (if 2 \<le> version then do {
               (a, index) \<leftarrow> read16 data index;
               (b, index) \<leftarrow> read16 data index;
               (g, index) \<leftarrow> read16 data index;
               (d, index) \<leftarrow> read8 data index;
               Some (a, b, drop_bit 2 warning AND 1 = 1, drop_bit 3 warning AND 1 = 1, g, uint d) }
             else Some (0, 0, False, False, 0, 0));
          report_points cb dev [
            (RebootedField, BoolToFloat (drop_bit 5 status AND 1 = 1)),
            (SleepModeStatusField, f64_of_int (sint (status AND 63))),
            (TemperatureNTCBoilingField, tenths tempB),
            (TemperatureNTCChilledField, tenths tempC),
            (TemperatureNTCStreamField, tenths tempS),
            (TemperatureNTCCondensorField, tenths tempCond),
            (Fault1Field, f64_of_int (uint f1)),
            (Fault2Field, f64_of_int (uint f2)),
            (Fault3Field, f64_of_int (uint f3)),
            (Fault4Field, f64_of_int (uint f4)),
            (UsageEnergyKWhField, fl_mulc mk_f32 (f32_of_int kwh) (r32 (1 / 10))),
            (UsageWaterDeltaDispensesBoilingField, f64_of_int dltDispB),
            (UsageWaterDeltaDispensesChilledField, f64_of_int dltDispC),
            (UsageWaterDeltaDispensesSparklingField, f64_of_int dltDispS),
            (UsageWaterDeltaLitresBoilingField, tenths dltLtrB),
            (UsageWaterDeltaLitresChilledField, tenths dltLtrC),
            (UsageWaterDeltaLitresSparklingField, tenths dltLtrS),
            (FilterWarningInternalField, BoolToFloat (drop_bit 0 warning AND 1 = 1)),
            (FilterWarningExternalField, BoolToFloat (drop_bit 1 warning AND 1 = 1)),
            (FilterInfoUsageLitresInternalField, f64_of_int fltrNfoUseLtrInt),
            (FilterInfoUsageDaysInternalField, f64_of_int fltrNfoUseDayInt),
            (FilterInfoUsageLitresExternalField, f64_of_int fltrNfoUseLtrExt),
            (FilterInfoUsageDaysExternalField, f64_of_int fltrNfoUseDayExt),
            (FilterInfoUsageLitresUVField, f64_of_int fltrNfoUseLtrUV),
            (FilterInfoUsageDaysUVField, f64_of_int fltrNfoUseDayUV),
            (FilterWarningUVField, BoolToFloat fltrWrnUV),
            (CO2LowGasWarningField, BoolToFloat cO2GasPressureWrn),
            (CO2UsageGramsField, f64_of_int cO2UsgGrams),
            (CO2UsageDaysField, f64_of_int cO2UsgDays)] s } })"

subsection \<open>DecodeZHT\<close>

definition DecodeZHT ::
  "((string \<times> string) list \<Rightarrow> (string \<times> string) list) \<Rightarrow> byte list \<Rightarrow> device \<Rightarrow> 's callbacks \<Rightarrow> 's action" where
  "DecodeZHT order payloadBytes dev cb s =
     (if length payloadBytes < 2
      then Some (Some (ErrMsg (''ZHT payload too short: '' @ itoa (int (length payloadBytes)))), s)
      else do {
        b0 \<leftarrow> go_index payloadBytes 0;
        innerBytes \<leftarrow> go_slice payloadBytes 1 (length payloadBytes);
        (let payloadType = uint b0 in
         if payloadType = StaticData then staticPayloadDecoder order innerBytes dev cb s
         else if payloadType = WriteData then writePayloadDecoder innerBytes dev cb s
         else if payloadType = PollData then pollPayloadDecoder innerBytes dev cb s
         else Some (None, s)) })"

subsection \<open>The layout of a payload\<close>

text \<open>The little-endian value of \<open>n\<close> bytes at an offset.\<close>

definition le_at :: "nat \<Rightarrow> byte list \<Rightarrow> nat \<Rightarrow> int" where
  "le_at n data i = le_val (take n (drop i data))"

lemma reads:
  "i < length data \<Longrightarrow> read8 data i = Some (data ! i, i + 1)"
  "i + n \<le> length data \<Longrightarrow> read_n n data i = Some (take n (drop i data), i + n)"
  "i + 2 \<le> length data \<Longrightarrow> read16 data i = Some (le_at 2 data i, i + 2)"
  "i + 4 \<le> length data \<Longrightarrow> read32 data i = Some (le_at 4 data i, i + 4)"
  by (simp_all add: read8_def read_n_def read16_def read32_def le_at_def)

text \<open>The poll fields by their offsets; version 2 adds four fields after byte 38.\<close>

definition poll_points :: "byte list \<Rightarrow> (string \<times> gofloat) list" where
  "poll_points data =
     (let v2 = 2 \<le> data ! 0; b = (\<lambda>i. uint (data ! i)); flag = (\<lambda>i k. BoolToFloat (bit (data ! i) k)) in
      [(RebootedField, flag 1 5), (SleepModeStatusField, f64_of_int (sint (data ! 1 AND 63))),
       (TemperatureNTCBoilingField, tenths (le_at 2 data 2)), (TemperatureNTCChilledField, tenths (le_at 2 data 4)),
       (TemperatureNTCStreamField, tenths (le_at 2 data 6)), (TemperatureNTCCondensorField, tenths (le_at 2 data 8)),
       (Fault1Field, f64_of_int (b 10)), (Fault2Field, f64_of_int (b 11)),
       (Fault3Field, f64_of_int (b 12)), (Fault4Field, f64_of_int (b 13)),
       (UsageEnergyKWhField, fl_mulc mk_f32 (f32_of_int (le_at 4 data 14)) (r32 (1 / 10))),
       (UsageWaterDeltaDispensesBoilingField, f64_of_int (le_at 2 data 18)),
       (UsageWaterDeltaDispensesChilledField, f64_of_int (le_at 2 data 20)),
       (UsageWaterDeltaDispensesSparklingField, f64_of_int (le_at 2 data 22)),
       (UsageWaterDeltaLitresBoilingField, tenths (le_at 2 data 24)),
       (UsageWaterDeltaLitresChilledField, tenths (le_at 2 data 26)),
       (UsageWaterDeltaLitresSparklingField, tenths (le_at 2 data 28)),
       (FilterWarningInternalField, flag 30 0), (FilterWarningExternalField, flag 30 1),
       (FilterInfoUsageLitresInternalField, f64_of_int (le_at 2 data 31)),
       (FilterInfoUsageDaysInternalField, f64_of_int (le_at 2 data 33)),
       (FilterInfoUsageLitresExternalField, f64_of_int (le_at 2 data 35)),
       (FilterInfoUsageDaysExternalField, f64_of_int (le_at 2 data 37)),
       (FilterInfoUsageLitresUVField, f64_of_int (if v2 then le_at 2 data 39 else 0)),
       (FilterInfoUsageDaysUVField, f64_of_int (if v2 then le_at 2 data 41 else 0)),
       (FilterWarningUVField, BoolToFloat (v2 \<and> bit (data ! 30) 2)),
       (CO2LowGasWarningField, BoolToFloat (v2 \<and> bit (data ! 30) 3)),
       (CO2UsageGramsField, f64_of_int (if v2 then le_at 2 data 43 else 0)),
       (CO2UsageDaysField, f64_of_int (if v2 then b 45 else 0))])"

lemma two_nat: "Suc (Suc 0) = 2"
  by simp

lemma flag_bit: "drop_bit n (b :: byte) AND 1 = 1 \<longleftrightarrow> bit b n"
  by (simp add: and_one_eq bit_iff_odd_drop_bit odd_iff_mod_2_eq_one)

lemma pollPayloadDecoder_layout:
  assumes "39 \<le> length data"
  shows "pollPayloadDecoder data dev cb s =
    (if 2 \<le> data ! 0 \<and> length data < 46 then Some (Some (short_v2 ''poll'' 39 (length data)), s)
     else report_points cb dev (poll_points data) s)"
proof -
  have ne: "data \<noteq> []" using assms by auto
  consider "\<not> 2 \<le> data ! 0" | "2 \<le> data ! 0" "length data < 46" | "2 \<le> data ! 0" "\<not> length data < 46"
    by blast
  then show ?thesis
    unfolding pollPayloadDecoder_def flag_bit
    by cases (use assms ne in \<open>simp_all add: reads poll_points_def Let_def two_nat\<close>)
qed

text \<open>The timer fields: four bytes and four reports per timer.\<close>

definition timer_fields :: "byte list \<Rightarrow> nat \<Rightarrow> nat \<Rightarrow> (string \<times> gofloat) list" where
  "timer_fields data index i =
     [(numbered TimeStartField i, f64_of_int (le_at 2 data index mod 10000)),
      (numbered TimeStopField i, f64_of_int (le_at 2 data (index + 2) mod 10000)),
      (numbered EnableStartField i, BoolToFloat (10000 \<le> le_at 2 data index)),
      (numbered EnableStopField i, BoolToFloat (10000 \<le> le_at 2 data (index + 2)))]"

fun timer_points :: "byte list \<Rightarrow> nat \<Rightarrow> nat list \<Rightarrow> (string \<times> gofloat) list" where
  "timer_points data index [] = []"
| "timer_points data index (i # is) = timer_fields data index i @ timer_points data (index + 4) is"

lemma timer_step_layout:
  assumes "index + 4 \<le> length data"
  shows "timer_step data dev cb i (index, s) =
    map_option (\<lambda>(e, s). (index + 4, s)) (report_points cb dev (timer_fields data index i) s)"
proof -
  have r: "read16 data index = Some (le_at 2 data index, index + 2)"
    "read16 data (index + 2) = Some (le_at 2 data (index + 2), index + 2 + 2)"
    using assms by (simp_all only: reads)
  show ?thesis
    unfolding timer_step_def timer_fields_def
    by (simp only: prod.case r Option.bind.simps Let_def add.assoc numeral_plus_numeral Num.add_num_simps)
       (auto simp: map_option_case split: option.split prod.split)
qed

lemma timer_loop_layout:
  "index + 4 * length is \<le> length data \<Longrightarrow>
   timer_loop data dev cb is (index, s) =
     map_option (\<lambda>(e, s). (index + 4 * length is, s)) (report_points cb dev (timer_points data index is) s)"
proof (induction "is" arbitrary: index s)
  case Nil
  then show ?case by (simp add: report_points_def)
next
  case (Cons i "is")
  have st: "timer_step data dev cb i (index, s) =
      map_option (\<lambda>(e, s). (index + 4, s)) (report_points cb dev (timer_fields data index i) s)"
    using Cons.prems by (intro timer_step_layout) simp
  have IH: "timer_loop data dev cb is (index + 4, s') =
      map_option (\<lambda>(e, s). (index + 4 + 4 * length is, s)) (report_points cb dev (timer_points data (index + 4) is) s')" for s'
    using Cons.prems by (intro Cons.IH) simp
  show ?case
    by (simp add: st report_points_append split: option.split)
       (auto simp: IH add.assoc split: option.split)
qed

definition write_points :: "byte list \<Rightarrow> (string \<times> gofloat) list" where
  "write_points data =
     (let v2 = 2 \<le> data ! 0; b = (\<lambda>i. f64_of_int (uint (data ! i)));
          w = (\<lambda>i. f64_of_int (if v2 then le_at 2 data i else 0));
          ub = (\<lambda>i. f64_of_int (if v2 then uint (data ! i) else 0));
          flag = (\<lambda>k. BoolToFloat (bit (data ! 19) k)) in
      [(TimeField, f64_of_int (le_at 4 data 1)),
       (DispenseTimeBoilingField, b 5), (DispenseTimeChilledField, b 6), (DispenseTimeSparklingField, b 7),
       (TemperatureSPBoilingField, tenths (le_at 2 data 8)),
       (TemperatureSPChilledField, f32_of_int (uint (data ! 10))),
       (TemperatureSPSparklingField, f32_of_int (uint (data ! 11))),
       (SleepModeSettingField, b 12),
       (FilterInfoLifeLitresInternalField, f64_of_int (le_at 2 data 13)),
       (FilterInfoLifeMonthsInternalField, b 15),
       (FilterInfoLifeLitresExternalField, f64_of_int (le_at 2 data 16)),
       (FilterInfoLifeMonthsExternalField, b 18),
       (SafetyAllowTapChangesField, flag 2), (SafetyLockField, flag 1), (SafetyHotIsolationField, flag 0),
       (SecurityEnableField, BoolToFloat (10000 \<le> le_at 2 data 20)),
       (SecurityPinField, f64_of_int (le_at 2 data 20 mod 10000)),
       (FilterInfoLifeLitresUVField, w 50), (FilterInfoLifeMonthsUVField, ub 52),
       (CO2LifeGramsField, w 53), (CO2LifeMonthsField, ub 55), (CO2PressureField, ub 56),
       (CO2TankCapacityField, w 57), (CO2AbsorptionRateField, w 59),
       (SparklingFlowRateField, w 61), (SparklingFlushTimeField, w 63)])"

lemma writePayloadDecoder_layout:
  assumes "50 \<le> length data"
  shows "writePayloadDecoder data dev cb s =
    (case report_points cb dev (timer_points data 22 [0..<ZipHTTimerLength]) s of
       None \<Rightarrow> None
     | Some (e, s') \<Rightarrow>
         if 2 \<le> data ! 0 \<and> length data < 65 then Some (Some (short_v2 ''write'' 50 (length data)), s')
         else report_points cb dev (write_points data) s')"
proof -
  have ne: "data \<noteq> []" using assms by auto
  have tl: "timer_loop data dev cb [0..<7] (22, s) =
      map_option (\<lambda>(e, s). (50, s)) (report_points cb dev (timer_points data 22 [0..<7]) s)"
    using timer_loop_layout [of 22 "[0..<7]" data dev cb s] assms by (simp del: upt_rec_numeral)
  show ?thesis
  proof (cases "report_points cb dev (timer_points data 22 [0..<7]) s")
    case None
    then show ?thesis
      using assms ne tl unfolding writePayloadDecoder_def flag_bit
      by (simp add: reads Let_def two_nat del: upt_rec_numeral)
  next
    case (Some es)
    obtain e s' where es: "es = (e, s')" by (cases es)
    consider "\<not> 2 \<le> data ! 0" | "2 \<le> data ! 0" "length data < 65" | "2 \<le> data ! 0" "\<not> length data < 65"
      by blast
    then show ?thesis
      unfolding writePayloadDecoder_def flag_bit
      by cases (use assms ne tl Some es in
        \<open>simp_all add: reads write_points_def Let_def two_nat del: upt_rec_numeral\<close>)
  qed
qed

text \<open>The 17 tags of a static payload.\<close>

definition static_tags :: "byte list \<Rightarrow> device \<Rightarrow> (string \<times> string) list" where
  "static_tags data dev =
     (let v2 = 2 \<le> data ! 0; num = (\<lambda>i. itoa (uint (data ! i)));
          str = (\<lambda>i n. bytesToString (take n (drop i data))); date = (\<lambda>i. bytesToDate (take 3 (drop i data))) in
      [(''lora_firmware_major'', num 1), (''lora_firmware_minor'', num 2),
       (''lora_build_major'', num 3), (''lora_build_minor'', num 4),
       (''serial_number'', str 5 15), (''model_number'', str 20 20),
       (''product_number'', str 40 20), (''firmware_version'', str 60 20),
       (''calibration_date'', date 80), (''first_50_litres_data'', date 83),
       (''filter_log_date_internal'', date 86), (''filter_log_litres_internal'', itoa (le_at 2 data 89)),
       (''filter_log_date_external'', date 91), (''filter_log_litres_external'', itoa (le_at 2 data 94)),
       (''filter_log_date_uv'', if v2 then date 96 else ''''),
       (''filter_log_litres_uv'', itoa (if v2 then le_at 2 data 99 else 0)),
       (''modbus_address'', itoa (zht_modbus_address dev))])"

lemma staticPayloadDecoder_layout:
  assumes "96 \<le> length data"
  shows "staticPayloadDecoder order data dev cb s =
    (if 2 \<le> data ! 0 \<and> length data < 101 then Some (Some (short_v2 ''static'' 96 (length data)), s)
     else updateMetaTagsFn cb (dev_UUID dev)
            (fold (put_meta_tag (dev_UUID dev)) (order (static_tags data dev)) (dev_MetaTags dev)) s)"
proof -
  have ne: "data \<noteq> []" using assms by auto
  consider "\<not> 2 \<le> data ! 0" | "2 \<le> data ! 0" "length data < 101" | "2 \<le> data ! 0" "\<not> length data < 101"
    by blast
  then show ?thesis
    unfolding staticPayloadDecoder_def
    by cases (use assms ne in \<open>simp_all add: reads static_tags_def Let_def two_nat\<close>)
qed

lemma length_put_tags: "length (fold (put_meta_tag u) kvs tags) = length tags + length kvs"
  by (induction kvs arbitrary: tags) (simp_all add: put_meta_tag_def)

subsection \<open>What is reported, by name\<close>

text \<open>The names of the points among recorded callbacks.\<close>

fun reported_names :: "event list \<Rightarrow> string list" where
  "reported_names [] = []"
| "reported_names (PointOk n v dd # es) = n # reported_names es"
| "reported_names (PointErr n e dd # es) = n # reported_names es"
| "reported_names (MetaTags u tags # es) = reported_names es"
| "reported_names (WrittenOk n v i # es) = n # reported_names es"
| "reported_names (WrittenErr n e i # es) = n # reported_names es"

definition point_events :: "(string \<times> gofloat) list \<Rightarrow> event list" where
  "point_events pts = map (\<lambda>(n, v). PointOk n v None) pts"

lemma report_points_recorder: "report_points recorder dev pts s = Some (None, s @ point_events pts)"
proof -
  have "report_all (map (\<lambda>(n, v). perform (updatePointFn recorder n v dev None)) pts) s = Some (s @ point_events pts)"
    by (induction pts arbitrary: s) (auto simp: recorder_def point_events_def)
  then show ?thesis by (simp add: report_points_def)
qed

lemma reported_names_points: "reported_names (point_events pts) = map fst pts"
  by (induction pts) (auto simp: point_events_def)

lemma timer_point_names:
  "map fst (timer_points data index is) = concat (map (\<lambda>i. [numbered TimeStartField i,
     numbered TimeStopField i, numbered EnableStartField i, numbered EnableStopField i]) is)"
  by (induction "is" arbitrary: index) (simp_all add: timer_fields_def)

lemma write_point_names: "map fst (write_points data @ timer_points data 22 [0..<7]) = GetTZipHydroTapWriteFields"
  by (simp add: GetTZipHydroTapWriteFields_def GenerateTimerFieldNames_def write_points_def timer_point_names Let_def
      del: upt_rec_numeral)

lemma poll_point_names: "set (map fst (poll_points data)) = set GetTZipHydroTapPollFields"
  "length (map fst (poll_points data)) = length GetTZipHydroTapPollFields"
  by (auto simp: GetTZipHydroTapPollFields_def poll_points_def Let_def)

lemma zht_names_distinct: "distinct GetZHTPointNames"
  by code_simp

text \<open>Names that may be reported together: declared and distinct.\<close>

definition declared :: "string list \<Rightarrow> bool" where
  "declared ns \<longleftrightarrow> set ns \<subseteq> set GetZHTPointNames \<and> distinct ns"

lemma declared_lists:
  "declared (map fst (poll_points data))" "declared (map fst (timer_points data 22 [0..<7]))"
  "declared (map fst (timer_points data 22 [0..<7] @ write_points data))" "declared []"
proof -
  have d: "distinct GetTZipHydroTapWriteFields" "distinct GetTZipHydroTapPollFields"
    "set GetTZipHydroTapWriteFields \<subseteq> set GetZHTPointNames" "set GetTZipHydroTapPollFields \<subseteq> set GetZHTPointNames"
    using zht_names_distinct by (auto simp: GetZHTPointNames_def)
  have w: "distinct (map fst (write_points data @ timer_points data 22 [0..<7]))"
    "set (map fst (write_points data @ timer_points data 22 [0..<7])) \<subseteq> set GetZHTPointNames"
    unfolding write_point_names using d by blast+
  show "declared (map fst (timer_points data 22 [0..<7] @ write_points data))"
    "declared (map fst (timer_points data 22 [0..<7]))"
    using w by (auto simp: declared_def simp del: upt_rec_numeral)
  have "distinct (map fst (poll_points data))"
    using d(2) poll_point_names [of data] by (metis card_distinct distinct_card)
  then show "declared (map fst (poll_points data))" using d(4) poll_point_names(1) by (simp add: declared_def)
qed (simp add: declared_def)

text \<open>What each payload decoder records, whatever the length of the payload.\<close>

lemma poll_recorded:
  "\<exists>err pts. pollPayloadDecoder data dev recorder s = Some (err, s @ point_events pts) \<and> declared (map fst pts)
    \<and> (46 \<le> length data \<longrightarrow> err = None \<and> set (map fst pts) = set GetTZipHydroTapPollFields)"
proof (cases "39 \<le> length data \<and> \<not> (2 \<le> data ! 0 \<and> length data < 46)")
  case True
  then have "pollPayloadDecoder data dev recorder s = Some (None, s @ point_events (poll_points data))"
    by (auto simp: pollPayloadDecoder_layout report_points_recorder)
  then show ?thesis using declared_lists(1) poll_point_names(1) by metis
next
  case False
  then obtain err where "pollPayloadDecoder data dev recorder s = Some (Some err, s @ point_events [])" "length data < 46"
    by (cases "39 \<le> length data") (auto simp: pollPayloadDecoder_layout, auto simp: pollPayloadDecoder_def point_events_def)
  then show ?thesis using declared_lists(4) by (metis list.simps(8) not_le)
qed

lemma write_recorded:
  "\<exists>err pts. writePayloadDecoder data dev recorder s = Some (err, s @ point_events pts) \<and> declared (map fst pts)
    \<and> (65 \<le> length data \<longrightarrow> err = None \<and> set (map fst pts) = set GetTZipHydroTapWriteFields)"
proof -
  let ?t = "timer_points data 22 [0..<7]"
  consider (short) "length data < 50" | (late) "50 \<le> length data" "2 \<le> data ! 0" "length data < 65"
    | (full) "50 \<le> length data" "\<not> (2 \<le> data ! 0 \<and> length data < 65)" by linarith
  then show ?thesis
  proof cases
    case short
    then have "writePayloadDecoder data dev recorder s
        = Some (Some (short_payload ''write'' 50 (length data)), s @ point_events [])"
      by (simp add: writePayloadDecoder_def point_events_def)
    then show ?thesis using declared_lists(4) short by fastforce
  next
    case late
    then have "writePayloadDecoder data dev recorder s = Some (Some (short_v2 ''write'' 50 (length data)), s @ point_events ?t)"
      by (simp add: writePayloadDecoder_layout report_points_recorder del: upt_rec_numeral)
    then show ?thesis using declared_lists(2) late(3) by (metis not_le)
  next
    case full
    then have "writePayloadDecoder data dev recorder s = Some (None, s @ point_events (?t @ write_points data))"
      by (simp add: writePayloadDecoder_layout report_points_recorder point_events_def del: upt_rec_numeral)
    moreover have "set (map fst (?t @ write_points data)) = set GetTZipHydroTapWriteFields"
      unfolding write_point_names [of data, symmetric] by (auto simp del: upt_rec_numeral)
    ultimately show ?thesis using declared_lists(3) by metis
  qed
qed

lemma static_recorded:
  "\<exists>err new. staticPayloadDecoder order data dev recorder s = Some (err, s @ new)
    \<and> (\<forall>e \<in> set new. \<exists>tags. e = MetaTags (dev_UUID dev) tags) \<and> reported_names new = []"
proof (cases "96 \<le> length data \<and> \<not> (2 \<le> data ! 0 \<and> length data < 101)")
  case True
  then have "staticPayloadDecoder order data dev recorder s = Some (None, s @ [MetaTags (dev_UUID dev)
      (fold (put_meta_tag (dev_UUID dev)) (order (static_tags data dev)) (dev_MetaTags dev))])"
    by (auto simp: staticPayloadDecoder_layout recorder_def record_event_def)
  then show ?thesis by (intro exI conjI) (assumption, simp_all)
next
  case False
  then obtain err where "staticPayloadDecoder order data dev recorder s = Some (Some err, s @ [])"
    by (cases "96 \<le> length data") (auto simp: staticPayloadDecoder_layout, auto simp: staticPayloadDecoder_def)
  then show ?thesis by (intro exI conjI) (assumption, simp_all)
qed

lemma zht_kinds:
  assumes "data \<noteq> []"
  shows "DecodeZHT order (1 # data) dev cb s = staticPayloadDecoder order data dev cb s"
    "DecodeZHT order (2 # data) dev cb s = writePayloadDecoder data dev cb s"
    "DecodeZHT order (3 # data) dev cb s = pollPayloadDecoder data dev cb s"
    "b \<notin> {1, 2, 3} \<Longrightarrow> DecodeZHT order (b # data) dev cb s = Some (None, s)"
proof -
  have "uint b = 1 \<longleftrightarrow> b = 1" "uint b = 2 \<longleftrightarrow> b = 2" "uint b = 3 \<longleftrightarrow> b = 3" for b :: byte
    by (simp_all add: word_uint_eq_iff)
  then show "b \<notin> {1, 2, 3} \<Longrightarrow> DecodeZHT order (b # data) dev cb s = Some (None, s)"
    using assms by (cases data) (auto simp: DecodeZHT_def go_slice_def)
qed (use assms in \<open>cases data; auto simp: DecodeZHT_def\<close>)+

subsection \<open>What the decoder keeps\<close>

context reception
begin

lemma staticPayloadDecoder_safe:
  assumes "Q s"
  shows "safe R Q (staticPayloadDecoder order data dev cb s)"
proof (cases "length data < 96")
  case True
  then show ?thesis using assms by (simp add: staticPayloadDecoder_def)
next
  case False
  then show ?thesis using meta [OF assms] assms by (simp add: staticPayloadDecoder_layout)
qed

lemma pollPayloadDecoder_safe:
  assumes "Q s"
  shows "safe R Q (pollPayloadDecoder data dev cb s)"
proof (cases "length data < 39")
  case True
  then show ?thesis using assms by (simp add: pollPayloadDecoder_def)
next
  case False
  then show ?thesis using report_points_safe [OF assms] assms by (simp add: pollPayloadDecoder_layout)
qed

lemma writePayloadDecoder_safe:
  assumes "Q s"
  shows "safe R Q (writePayloadDecoder data dev cb s)"
proof (cases "length data < 50")
  case True
  then show ?thesis using assms by (simp add: writePayloadDecoder_def)
next
  case False
  then show ?thesis using report_points_safe [OF assms, of "timer_points data 22 [0..<7]"] report_points_safe
    by (auto simp: writePayloadDecoder_layout simp del: upt_rec_numeral split: option.split)
qed

lemma DecodeZHT_safe:
  assumes "Q s"
  shows "safe R Q (DecodeZHT order payload dev cb s)"
proof (cases payload)
  case Nil
  then show ?thesis using assms by (simp add: DecodeZHT_def)
next
  case (Cons b inner)
  then show ?thesis
    using staticPayloadDecoder_safe [OF assms] writePayloadDecoder_safe [OF assms] pollPayloadDecoder_safe [OF assms] assms
    by (simp add: DecodeZHT_def Let_def)
qed

end

subsection \<open>Properties\<close>

text \<open>The ZipHydroTap decoder never panics: for every payload of every length, content and
  map iteration order, each read is inside the payload (as long as the callbacks do not panic).\<close>

theorem zht_never_panics:
  assumes "total_callbacks cb"
  shows "DecodeZHT order payload dev cb s \<noteq> None"
  using total_reception [OF assms, THEN reception.DecodeZHT_safe] by (simp only: safe_total simp_thms)

theorem zht_never_panics_witness:
  "DecodeZHT id (3 # replicate 39 2) example_device recorder [] \<noteq> None"
  by (rule zht_never_panics [OF total_recorder])

text \<open>C36: A poll payload of at least 40 bytes reports the 29 poll values at their fixed offsets
  (with the version-2 fields zero below packet version 2), whatever follows; a version-2 payload
  that is too short for its extra fields is an error and reports nothing.\<close>

theorem zht_poll_layout:
  assumes "39 \<le> length data"
  shows "DecodeZHT order (3 # data) dev cb s =
    (if 2 \<le> data ! 0 \<and> length data < 46 then Some (Some (short_v2 ''poll'' 39 (length data)), s)
     else report_points cb dev (poll_points data) s)"
proof -
  have "DecodeZHT order (3 # data) dev cb s = pollPayloadDecoder data dev cb s"
    using assms by (auto simp: DecodeZHT_def)
  then show ?thesis using pollPayloadDecoder_layout [OF assms] by metis
qed

theorem zht_poll_layout_witness:
  "DecodeZHT id (3 # replicate 39 1) example_device recorder [] =
    (if 2 \<le> replicate 39 (1 :: byte) ! 0 \<and> length (replicate 39 (1 :: byte)) < 46
     then Some (Some (short_v2 ''poll'' 39 (length (replicate 39 (1 :: byte)))), [])
     else report_points recorder example_device (poll_points (replicate 39 1)) [])"
  by (rule zht_poll_layout) simp

text \<open>C37: A write payload of at least 51 bytes first reports the 28 timer values and then the 26
  settings at their fixed offsets.  The version-2 length is checked only after the timers: a
  version-2 payload that is too short reports all timers and then returns the error.\<close>

theorem zht_write_layout:
  assumes "50 \<le> length data"
  shows "DecodeZHT order (2 # data) dev cb s =
    (case report_points cb dev (timer_points data 22 [0..<ZipHTTimerLength]) s of
       None \<Rightarrow> None
     | Some (e, s') \<Rightarrow>
         if 2 \<le> data ! 0 \<and> length data < 65 then Some (Some (short_v2 ''write'' 50 (length data)), s')
         else report_points cb dev (write_points data) s')"
proof -
  have "DecodeZHT order (2 # data) dev cb s = writePayloadDecoder data dev cb s"
    using assms by (auto simp: DecodeZHT_def)
  then show ?thesis using writePayloadDecoder_layout [OF assms] by metis
qed

theorem zht_write_layout_witness:
  "DecodeZHT id (2 # replicate 50 2) example_device recorder [] =
    (case report_points recorder example_device (timer_points (replicate 50 2) 22 [0..<7]) [] of
       None \<Rightarrow> None
     | Some (e, s') \<Rightarrow>
         if 2 \<le> replicate 50 (2 :: byte) ! 0 \<and> length (replicate 50 (2 :: byte)) < 65
         then Some (Some (short_v2 ''write'' 50 (length (replicate 50 (2 :: byte)))), s')
         else report_points recorder example_device (write_points (replicate 50 2)) s')"
  by (rule zht_write_layout) simp

text \<open>Every static payload makes the device's tag list grow by 17 entries, however often the
  same tags were sent before: existing tags are updated and a duplicate is appended as well.\<close>

theorem zht_static_tags_grow:
  assumes "96 \<le> length data" "data ! 0 < 2" "length (order (static_tags data dev)) = 17"
  shows "\<exists>tags. DecodeZHT order (1 # data) dev cb s = updateMetaTagsFn cb (dev_UUID dev) tags s
    \<and> length tags = length (dev_MetaTags dev) + 17"
proof -
  have "DecodeZHT order (1 # data) dev cb s = staticPayloadDecoder order data dev cb s"
    using assms(1) by (auto simp: DecodeZHT_def)
  moreover have "\<not> 2 \<le> data ! 0" using assms(2) by simp
  ultimately have "DecodeZHT order (1 # data) dev cb s = updateMetaTagsFn cb (dev_UUID dev)
      (fold (put_meta_tag (dev_UUID dev)) (order (static_tags data dev)) (dev_MetaTags dev)) s"
    using staticPayloadDecoder_layout [OF assms(1)] by simp
  then show ?thesis using assms(3) by (intro exI conjI) (assumption, simp add: length_put_tags)
qed

theorem zht_static_tags_grow_witness:
  "\<exists>tags. DecodeZHT id (1 # replicate 96 1) example_device recorder [] = updateMetaTagsFn recorder (dev_UUID example_device) tags []
    \<and> length tags = length (dev_MetaTags example_device) + 17"
  by (rule zht_static_tags_grow) (simp_all add: static_tags_def Let_def)

text \<open>C40: For every payload, of whatever length and content, \<^verbatim>\<open>DecodeZHT\<close> reports only points that the model
  declares (\<^verbatim>\<open>GetZHTPointNames\<close>), none of them twice, and apart from these only sends the device's meta tags.  A
  poll payload that is long enough reports every declared poll field, a write payload that is long
  enough every declared write field and timer, and the other payloads report no point.\<close>

theorem zht_reports_declared_points:
  "\<exists>err new. DecodeZHT order payload dev recorder s = Some (err, s @ new)
    \<and> (\<forall>e \<in> set new. (\<exists>n v. e = PointOk n v None \<and> n \<in> set GetZHTPointNames) \<or> (\<exists>tags. e = MetaTags (dev_UUID dev) tags))
    \<and> distinct (reported_names new)
    \<and> (take 1 payload = [3] \<and> 47 \<le> length payload \<longrightarrow> err = None \<and> set (reported_names new) = set GetTZipHydroTapPollFields)
    \<and> (take 1 payload = [2] \<and> 66 \<le> length payload \<longrightarrow> err = None \<and> set (reported_names new) = set GetTZipHydroTapWriteFields)
    \<and> (take 1 payload \<noteq> [2] \<and> take 1 payload \<noteq> [3] \<longrightarrow> reported_names new = [])"
proof (cases "length payload < 2")
  case True
  then show ?thesis by (intro exI [of _ "Some _"] exI [of _ "[]"]) (auto simp: DecodeZHT_def)
next
  case False
  then obtain b data where p: "payload = b # data" "data \<noteq> []" by (cases payload; cases "tl payload") auto
  note D = zht_kinds [OF p(2)]
  have events: "(\<forall>e \<in> set (point_events pts). \<exists>n v. e = PointOk n v None \<and> n \<in> set GetZHTPointNames)
      \<and> distinct (reported_names (point_events pts))" if "declared (map fst pts)" for pts
    using that unfolding reported_names_points by (force simp: declared_def point_events_def)
  consider "b = 1" | "b = 2" | "b = 3" | "b \<notin> {1, 2, 3}" by blast
  then show ?thesis
  proof cases
    case 1
    obtain err new where w: "staticPayloadDecoder order data dev recorder s = Some (err, s @ new)"
      "\<forall>e \<in> set new. \<exists>tags. e = MetaTags (dev_UUID dev) tags" "reported_names new = []" using static_recorded [of order data dev s] by blast
    with 1 p(1) show ?thesis by (intro exI [of _ err] exI [of _ new]) (simp add: D)
  next
    case 2
    obtain err pts where w: "writePayloadDecoder data dev recorder s = Some (err, s @ point_events pts)" "declared (map fst pts)"
      "65 \<le> length data \<longrightarrow> err = None \<and> set (map fst pts) = set GetTZipHydroTapWriteFields" using write_recorded by blast
    with 2 p(1) events [OF w(2)] show ?thesis
      by (intro exI [of _ err] exI [of _ "point_events pts"]) (simp add: D reported_names_points)
  next
    case 3
    obtain err pts where w: "pollPayloadDecoder data dev recorder s = Some (err, s @ point_events pts)" "declared (map fst pts)"
      "46 \<le> length data \<longrightarrow> err = None \<and> set (map fst pts) = set GetTZipHydroTapPollFields" using poll_recorded by blast
    with 3 p(1) events [OF w(2)] show ?thesis
      by (intro exI [of _ err] exI [of _ "point_events pts"]) (simp add: D reported_names_points)
  next
    case 4
    then show ?thesis using p(1) by (intro exI [of _ None] exI [of _ "[]"]) (auto simp: D)
  qed
qed

theorem zht_reports_declared_points_witness:
  "\<exists>new. DecodeZHT id (3 # replicate 46 1) example_device recorder [] = Some (None, new)
    \<and> set (reported_names new) = set GetTZipHydroTapPollFields"
  using zht_reports_declared_points [of id "3 # replicate 46 1" example_device "[]"] by auto

end
