(* ===== verification/Rubix_Serial.thy ===== *)
theory Rubix_Serial
  imports Go_Prelude
begin

text \<open>
  The data model of the Rubix wire format: \<^verbatim>\<open>serialdata.go\<close> (the buffer with its read and
  write bit positions, position bytes, error codes) and \<^verbatim>\<open>serialmap.go\<close> (the table that
  gives each 6-bit metadata key its encoding).
\<close>

subsection \<open>serialdata.go\<close>

record serial_data =
  Buffer :: "byte list"
  ReadBitPos :: nat
  WriteBitPos :: nat

abbreviation (input) PositionDataType_GENERAL :: nat where "PositionDataType_GENERAL \<equiv> 0"
abbreviation (input) PositionDataType_UO :: nat where "PositionDataType_UO \<equiv> 1"
abbreviation (input) PositionDataType_DO :: nat where "PositionDataType_DO \<equiv> 2"
abbreviation (input) PositionDataType_UI :: nat where "PositionDataType_UI \<equiv> 3"
abbreviation (input) PositionDataType_DI :: nat where "PositionDataType_DI \<equiv> 4"
abbreviation (input) PositionDataType_UVP :: nat where "PositionDataType_UVP \<equiv> 5"
abbreviation (input) PositionDataType_UVP2 :: nat where "PositionDataType_UVP2 \<equiv> 6"
abbreviation (input) PositionDataType_DVP :: nat where "PositionDataType_DVP \<equiv> 7"

record position_data =
  pos_ID :: nat
  pos_Type :: nat

abbreviation (input) MinSize :: nat where "MinSize \<equiv> 1"
abbreviation (input) DataOffsetBits :: nat where "DataOffsetBits \<equiv> 8"
abbreviation (input) DefaultSettings :: byte where "DefaultSettings \<equiv> 0"

definition NewSerialData :: serial_data where
  "NewSerialData = \<lparr>Buffer = replicate MinSize DefaultSettings,
     ReadBitPos = DataOffsetBits, WriteBitPos = DataOffsetBits\<rparr>"

definition NewSerialDataWithBuffer :: "byte list \<Rightarrow> serial_data" where
  "NewSerialDataWithBuffer buffer =
     \<lparr>Buffer = buffer, ReadBitPos = DataOffsetBits, WriteBitPos = DataOffsetBits\<rparr>"

definition BIT_SET :: "byte \<Rightarrow> bool \<Rightarrow> nat \<Rightarrow> byte" where
  "BIT_SET byteValue b position =
     (if b then byteValue OR push_bit position 1 else byteValue AND NOT (push_bit position 1))"

text \<open>Both read \<open>Buffer[0]\<close>, which panics on an empty buffer.\<close>

definition setPositionalData :: "serial_data \<Rightarrow> bool \<Rightarrow> serial_data option" where
  "setPositionalData sd on = do {
     b0 \<leftarrow> go_index (Buffer sd) 0;
     Some (sd\<lparr>Buffer := (Buffer sd)[0 := BIT_SET b0 on 0]\<rparr>) }"

definition hasPositionalData :: "serial_data \<Rightarrow> bool option" where
  "hasPositionalData sd = do {
     b0 \<leftarrow> go_index (Buffer sd) 0;
     Some (b0 AND 1 = 1) }"

subsection \<open>serialmap.go\<close>

abbreviation (input) DATA_TYPE_BIT_COUNT :: nat where "DATA_TYPE_BIT_COUNT \<equiv> 6"

record meta_data =
  dataType :: nat
  lowValue :: int
  highValue :: int
  decimalPoint :: nat
  byteCount :: nat

abbreviation (input) FIXEDPOINT :: nat where "FIXEDPOINT \<equiv> 1"
abbreviation (input) DATAPOINT :: nat where "DATAPOINT \<equiv> 2"

type_synonym meta_data_key = int

abbreviation (input) MDK_TEMP :: meta_data_key where "MDK_TEMP \<equiv> 1"
abbreviation (input) MDK_RH :: meta_data_key where "MDK_RH \<equiv> 2"
abbreviation (input) MDK_LUX :: meta_data_key where "MDK_LUX \<equiv> 3"
abbreviation (input) MDK_MOVEMENT :: meta_data_key where "MDK_MOVEMENT \<equiv> 4"
abbreviation (input) MDK_COUNTER :: meta_data_key where "MDK_COUNTER \<equiv> 5"
abbreviation (input) MDK_DIGITAL :: meta_data_key where "MDK_DIGITAL \<equiv> 6"
abbreviation (input) MDK_VOLTAGE_0_10 :: meta_data_key where "MDK_VOLTAGE_0_10 \<equiv> 7"
abbreviation (input) MDK_MILLIAMPS_4_20 :: meta_data_key where "MDK_MILLIAMPS_4_20 \<equiv> 8"
abbreviation (input) MDK_OHM :: meta_data_key where "MDK_OHM \<equiv> 10"
abbreviation (input) MDK_CO2 :: meta_data_key where "MDK_CO2 \<equiv> 11"
abbreviation (input) MDK_BATTERY_VOLTAGE :: meta_data_key where "MDK_BATTERY_VOLTAGE \<equiv> 12"
abbreviation (input) MDK_PUSH_FREQUENCY :: meta_data_key where "MDK_PUSH_FREQUENCY \<equiv> 13"
abbreviation (input) MDK_ANALOG_IN :: meta_data_key where "MDK_ANALOG_IN \<equiv> 16"
abbreviation (input) MDK_FIRMWARE_VERSION :: meta_data_key where "MDK_FIRMWARE_VERSION \<equiv> 61"
abbreviation (input) MDK_HARDWARE_VERSION :: meta_data_key where "MDK_HARDWARE_VERSION \<equiv> 62"
abbreviation (input) MDK_UINT_8 :: meta_data_key where "MDK_UINT_8 \<equiv> 30"
abbreviation (input) MDK_INT_8 :: meta_data_key where "MDK_INT_8 \<equiv> 31"
abbreviation (input) MDK_UINT_16 :: meta_data_key where "MDK_UINT_16 \<equiv> 32"
abbreviation (input) MDK_INT_16 :: meta_data_key where "MDK_INT_16 \<equiv> 33"
abbreviation (input) MDK_UINT_32 :: meta_data_key where "MDK_UINT_32 \<equiv> 34"
abbreviation (input) MDK_INT_32 :: meta_data_key where "MDK_INT_32 \<equiv> 35"
abbreviation (input) MDK_UINT_64 :: meta_data_key where "MDK_UINT_64 \<equiv> 36"
abbreviation (input) MDK_INT_64 :: meta_data_key where "MDK_INT_64 \<equiv> 37"
abbreviation (input) MDK_BOOL :: meta_data_key where "MDK_BOOL \<equiv> 38"
abbreviation (input) MDK_CHAR :: meta_data_key where "MDK_CHAR \<equiv> 39"
abbreviation (input) MDK_FLOAT :: meta_data_key where "MDK_FLOAT \<equiv> 40"
abbreviation (input) MDK_DOUBLE :: meta_data_key where "MDK_DOUBLE \<equiv> 41"
abbreviation (input) MDK_STRING :: meta_data_key where "MDK_STRING \<equiv> 42"
abbreviation (input) MDK_ERROR :: meta_data_key where "MDK_ERROR \<equiv> 43"

definition mk_meta :: "nat \<Rightarrow> int \<Rightarrow> int \<Rightarrow> nat \<Rightarrow> nat \<Rightarrow> meta_data" where
  [simp]: "mk_meta dt lo hi dec bc =
     \<lparr>dataType = dt, lowValue = lo, highValue = hi, decimalPoint = dec, byteCount = bc\<rparr>"

definition serialMap :: "(meta_data_key \<times> meta_data) list" where
  "serialMap = [
     (MDK_TEMP, mk_meta FIXEDPOINT (-45) 120 2 0),
     (MDK_RH, mk_meta FIXEDPOINT 0 100 2 0),
     (MDK_LUX, mk_meta FIXEDPOINT 0 65534 0 0),
     (MDK_MOVEMENT, mk_meta FIXEDPOINT 0 1 0 0),
     (MDK_COUNTER, mk_meta FIXEDPOINT 0 1048576 0 0),
     (MDK_DIGITAL, mk_meta FIXEDPOINT 0 1 0 0),
     (MDK_VOLTAGE_0_10, mk_meta FIXEDPOINT 0 10 2 0),
     (MDK_MILLIAMPS_4_20, mk_meta FIXEDPOINT 4 20 2 0),
     (MDK_OHM, mk_meta FIXEDPOINT 0 1048576 0 0),
     (MDK_CO2, mk_meta FIXEDPOINT 0 400 0 0),
     (MDK_BATTERY_VOLTAGE, mk_meta FIXEDPOINT 0 6 1 0),
     (MDK_PUSH_FREQUENCY, mk_meta FIXEDPOINT 0 2000 0 0),
     (MDK_ANALOG_IN, mk_meta FIXEDPOINT 0 1 3 0),
     (MDK_FIRMWARE_VERSION, mk_meta FIXEDPOINT 0 255 0 0),
     (MDK_HARDWARE_VERSION, mk_meta FIXEDPOINT 0 255 0 0),
     (MDK_UINT_8, mk_meta DATAPOINT 0 0 0 1),
     (MDK_INT_8, mk_meta DATAPOINT 0 0 0 1),
     (MDK_UINT_16, mk_meta DATAPOINT 0 0 0 2),
     (MDK_INT_16, mk_meta DATAPOINT 0 0 0 2),
     (MDK_UINT_32, mk_meta DATAPOINT 0 0 0 4),
     (MDK_INT_32, mk_meta DATAPOINT 0 0 0 4),
     (MDK_UINT_64, mk_meta DATAPOINT 0 0 0 8),
     (MDK_INT_64, mk_meta DATAPOINT 0 0 0 8),
     (MDK_BOOL, mk_meta FIXEDPOINT 0 1 0 0),
     (MDK_CHAR, mk_meta DATAPOINT 0 0 0 1),
     (MDK_FLOAT, mk_meta DATAPOINT 0 0 0 4),
     (MDK_DOUBLE, mk_meta DATAPOINT 0 0 0 8),
     (MDK_ERROR, mk_meta DATAPOINT 0 0 0 1)]"

text \<open>A Go map lookup yields the zero \<^verbatim>\<open>MetaData\<close> for a missing key.\<close>

definition getMetaData :: "meta_data_key \<Rightarrow> meta_data" where
  "getMetaData k = (case map_of serialMap k of None \<Rightarrow> mk_meta 0 0 0 0 0 | Some m \<Rightarrow> m)"

definition mdk_String :: "meta_data_key \<Rightarrow> string" where
  "mdk_String m = (
     if m = MDK_TEMP then ''temp''
     else if m = MDK_RH then ''rh''
     else if m = MDK_LUX then ''lux''
     else if m = MDK_MOVEMENT then ''movement''
     else if m = MDK_COUNTER then ''count''
     else if m = MDK_DIGITAL then ''digital''
     else if m = MDK_VOLTAGE_0_10 then ''0-10v''
     else if m = MDK_MILLIAMPS_4_20 then ''4-20ma''
     else if m = MDK_OHM then ''ohm''
     else if m = MDK_CO2 then ''co2''
     else if m = MDK_BATTERY_VOLTAGE then ''battery-voltage''
     else if m = MDK_PUSH_FREQUENCY then ''push-frequency''
     else if m = MDK_ANALOG_IN then ''ai-raw''
     else if m = MDK_FIRMWARE_VERSION then ''firmware-version''
     else if m = MDK_HARDWARE_VERSION then ''hardware-version''
     else if m = MDK_BOOL then ''bool''
     else if m = MDK_CHAR then ''char''
     else if m = MDK_UINT_8 then ''uint_8''
     else if m = MDK_INT_8 then ''int_8''
     else if m = MDK_UINT_16 then ''uint_16''
     else if m = MDK_INT_16 then ''int_16''
     else if m = MDK_UINT_32 then ''uint_32''
     else if m = MDK_INT_32 then ''int_32''
     else if m = MDK_UINT_64 then ''uint_64''
     else if m = MDK_INT_64 then ''int_64''
     else if m = MDK_FLOAT then ''float''
     else if m = MDK_DOUBLE then ''double''
     else if m = MDK_ERROR then ''error''
     else ''unknown'')"

subsection \<open>Basic facts\<close>

lemma hasPositionalData_Cons [simp]:
  "Buffer sd = b # bs \<Longrightarrow> hasPositionalData sd = Some (b AND 1 = 1)"
  by (simp add: hasPositionalData_def)

lemma hasPositionalData_Nil [simp]: "Buffer sd = [] \<Longrightarrow> hasPositionalData sd = None"
  by (simp add: hasPositionalData_def)

lemma hasPositionalData_None_iff: "hasPositionalData sd = None \<longleftrightarrow> Buffer sd = []"
  by (cases "Buffer sd") simp_all

lemma setPositionalData_NewSerialData:
  "setPositionalData NewSerialData True =
     Some \<lparr>Buffer = [1], ReadBitPos = 8, WriteBitPos = 8\<rparr>"
  by (simp add: setPositionalData_def NewSerialData_def BIT_SET_def)

text \<open>Reading a flag back after writing it, on any non-empty buffer.\<close>

lemma hasPositionalData_set:
  assumes "setPositionalData sd s = Some sd'"
  shows "hasPositionalData sd' = Some s"
proof -
  from assms obtain b bs where b: "Buffer sd = b # bs"
    by (cases "Buffer sd") (auto simp: setPositionalData_def)
  have "BIT_SET b s 0 AND 1 = (if s then 1 else 0)"
    by (rule bit_eqI) (auto simp: BIT_SET_def bit_simps)
  with assms b show ?thesis
    by (auto simp: setPositionalData_def)
qed

lemma map_of_serialMap_dom: "map_of serialMap k = Some m \<Longrightarrow> k \<in> fst ` set serialMap"
  by (force dest: map_of_SomeD)

end
