(* ===== verification/Rubix_Bits.thy ===== *)
theory Rubix_Bits
  imports Rubix_Serial
begin

text \<open>
  The bit-level readers and writers of the Rubix codec (\<^verbatim>\<open>getVector\<close>, \<^verbatim>\<open>vectorToBits\<close>,
  \<^verbatim>\<open>getBitCount\<close> of decoder.go; \<^verbatim>\<open>bitsToVector\<close>, \<^verbatim>\<open>reshapeVector\<close>, \<^verbatim>\<open>addVectorToBuffer\<close> of
  encoder.go), their abstraction to bit strings (most significant bit first), and the
  lemmas that the byte shuffling of the code reads and appends exactly the intended bits.
\<close>

unbundle bit_operations_syntax

named_theorems bits_simps \<open>bit strings and the words they denote\<close>

subsection \<open>Bit strings\<close>

definition byte_bits :: "byte \<Rightarrow> bool list" where
  "byte_bits b = map (\<lambda>i. bit b (7 - i)) [0..<8]"

fun bits_of :: "byte list \<Rightarrow> bool list" where
  "bits_of [] = []"
| "bits_of (b # bs) = byte_bits b @ bits_of bs"

text \<open>The 64-bit number a bit string denotes, and the low \<open>n\<close> bits of a number as a string.\<close>

definition bits_val :: "bool list \<Rightarrow> 64 word" where
  "bits_val bs = horner_sum of_bool 2 (rev bs)"

definition val_bits :: "nat \<Rightarrow> 'a::len word \<Rightarrow> bool list" where
  "val_bits n d = map (\<lambda>j. bit d (n - 1 - j)) [0..<n]"

lemma length_byte_bits [simp]: "length (byte_bits b) = 8"
  by (simp add: byte_bits_def)

lemma nth_byte_bits [simp]: "i < 8 \<Longrightarrow> byte_bits b ! i = bit b (7 - i)"
  by (simp add: byte_bits_def)

lemma length_bits_of [simp]: "length (bits_of bs) = 8 * length bs"
  by (induction bs) auto

lemma bits_of_append [simp]: "bits_of (xs @ ys) = bits_of xs @ bits_of ys"
  by (induction xs) auto

lemma nth_bits_of: "k < 8 * length bs \<Longrightarrow> bits_of bs ! k = bit (bs ! (k div 8)) (7 - k mod 8)"
proof (induction bs arbitrary: k)
  case Nil
  then show ?case by simp
next
  case (Cons b bs)
  show ?case
  proof (cases "k < 8")
    case True
    then show ?thesis by (simp add: nth_append)
  next
    case False
    then obtain m where k: "k = m + 8" using le_iff_add [of 8 k] by (auto simp: add.commute)
    moreover have "(m + 8) div 8 = Suc (m div 8)" by simp
    ultimately show ?thesis using Cons by (simp add: nth_append)
  qed
qed

lemma length_val_bits [simp]: "length (val_bits n d) = n"
  by (simp add: val_bits_def)

lemma nth_val_bits [simp]: "j < n \<Longrightarrow> val_bits n d ! j = bit d (n - 1 - j)"
  by (simp add: val_bits_def)

lemma bit_bits_val [bits_simps]:
  "bit (bits_val bs) j \<longleftrightarrow> j < 64 \<and> j < length bs \<and> bs ! (length bs - 1 - j)"
  by (auto simp: bits_val_def bit_horner_sum_bit_word_iff rev_nth)

lemma bits_val_append:
  "bits_val (xs @ ys) = push_bit (length ys) (bits_val xs) OR bits_val ys"
  by (rule bit_eqI) (auto simp: bit_simps bits_simps nth_append)

lemma bits_val_byte_bits: "bits_val (byte_bits b) = ucast b"
proof (rule bit_eqI)
  fix n
  show "bit (bits_val (byte_bits b)) n = bit (ucast b :: 64 word) n"
    using bit_imp_le_length [of b n] by (auto simp: bit_simps bits_simps)
qed

lemma bits_val_val_bits: "n \<le> 64 \<Longrightarrow> bits_val (val_bits n d) = take_bit n (ucast d)"
  by (rule bit_eqI) (auto simp: bit_simps bits_simps)

lemma byte_bits_val_bits: "byte_bits b = val_bits 8 b"
  by (rule nth_equalityI) auto

lemma bits_val_Nil [simp]: "bits_val [] = 0"
  by (simp add: bits_val_def)

lemma bits_val_replicate_False [simp]: "bits_val (replicate n False) = 0"
  by (rule bit_eqI) (simp add: bits_simps)

subsection \<open>Reading: getVector and vectorToBits\<close>

definition getVector :: "serial_data \<Rightarrow> nat \<Rightarrow> nat \<Rightarrow> (byte list \<times> nat \<times> nat) \<times> serial_data" where
  "getVector sd bitCount pos =
     (let shiftFromPos = pos mod 8;
          bytesRequired = bitCount div 8;
          bytesRequired = (if bitCount mod 8 \<noteq> 0 then bytesRequired + 1 else bytesRequired);
          bytesRequired = (if bitCount + shiftFromPos > bytesRequired * 8 then bytesRequired + 1
                           else bytesRequired);
          byteLocation = pos div 8;
          dataVector = (if byteLocation + bytesRequired > length (Buffer sd)
                        then (replicate bytesRequired 0)[0 := 0]
                        else map (\<lambda>i. Buffer sd ! (byteLocation + i)) [0..<bytesRequired])
      in ((dataVector, shiftFromPos, bytesRequired),
          sd\<lparr>ReadBitPos := ReadBitPos sd + bitCount\<rparr>))"

text \<open>
  \<open>vtb_loop\<close> is the loop over all bytes but the last: OR the byte in, shift by 8 unless
  it is the last of the loop.  The two subtractions below never truncate on a vector of
  \<open>getVector\<close> (lemma \<open>getVector_shape\<close>).
\<close>

fun vtb_loop :: "64 word \<Rightarrow> byte list \<Rightarrow> 64 word" where
  "vtb_loop data64 [] = data64"
| "vtb_loop data64 [b] = data64 OR ucast b"
| "vtb_loop data64 (b # bs) = vtb_loop (push_bit 8 (data64 OR ucast b)) bs"

definition vectorToBits :: "byte list \<Rightarrow> nat \<Rightarrow> nat \<Rightarrow> nat \<Rightarrow> 64 word" where
  "vectorToBits dataVector bitCount shiftPos bytesRequired =
     (let shiftLeft = bytesRequired * 8 - bitCount - shiftPos;
          data64 = vtb_loop 0 (butlast dataVector);
          data64 = push_bit (8 - shiftLeft) data64;
          data64 = data64 OR drop_bit shiftLeft (ucast (last dataVector))
      in if bitCount < 64 then data64 AND (push_bit bitCount 1 - 1) else data64)"

text \<open>What a read of \<open>n\<close> bits at bit position \<open>pos\<close> returns, on the bit string.\<close>

definition peek_bits :: "byte list \<Rightarrow> nat \<Rightarrow> nat \<Rightarrow> 64 word" where
  "peek_bits buf n pos =
     (if pos + n \<le> 8 * length buf then bits_val (take n (drop pos (bits_of buf))) else 0)"

lemma vtb_loop_val:
  "v \<noteq> [] \<Longrightarrow> vtb_loop d v = push_bit (8 * (length v - 1)) d OR bits_val (bits_of v)"
proof (induction d v rule: vtb_loop.induct)
  case (3 d b c cs)
  let ?v = "c # cs"
  have "vtb_loop d (b # ?v) = push_bit (8 * (length ?v - 1)) (push_bit 8 (d OR ucast b)) OR bits_val (bits_of ?v)"
    using 3 by simp
  also have "\<dots> = push_bit (8 * length ?v) (d OR ucast b) OR bits_val (bits_of ?v)"
    by (simp add: push_bit_push_bit add.commute)
  also have "\<dots> = push_bit (8 * length ?v) d OR bits_val (bits_of (b # ?v))"
    unfolding bits_of.simps(2) [of b ?v] bits_val_append bits_val_byte_bits length_bits_of push_bit_or
    by (simp only: or.assoc length_Cons mult_Suc_right)
  finally show ?case by (simp only: length_Cons diff_Suc_1)
qed (simp_all add: bits_val_byte_bits)

lemma vtb_loop_0: "vtb_loop 0 v = bits_val (bits_of v)"
  by (cases "v = []") (simp_all add: vtb_loop_val)

lemma bit_mask_and: "bit (x AND (2 ^ n - 1) :: 64 word) j \<longleftrightarrow> bit x j \<and> j < n"
proof -
  have "(2 ^ n - 1 :: 64 word) = mask n" by (simp add: mask_eq_exp_minus_1)
  then show ?thesis by (auto simp: bit_simps dest: bit_imp_le_length)
qed

lemma vectorToBits_val:
  assumes v: "v = u @ [b]" and len: "length v = r" and n: "n + s \<le> 8 * r" "n \<le> 64"
    and sl: "8 * r - (n + s) < 8"
  shows "vectorToBits v n s r = bits_val (take n (drop s (bits_of v)))"
proof -
  define sl where "sl = 8 * r - (n + s)"
  have sl8: "sl < 8" using assms(5) by (simp add: sl_def)
  have ns: "n + s = 8 * r - sl" "sl \<le> 8 * r" using n sl8 by (auto simp: sl_def)
  have ru: "r = Suc (length u)" using v len by simp
  have sl_eq: "r * 8 - n - s = sl" by (simp add: sl_def)
  let ?d = "push_bit (8 - sl) (bits_val (bits_of u)) OR drop_bit sl (ucast b :: 64 word)"
  have key: "bit ?d j \<longleftrightarrow> bits_of v ! (s + (n - 1 - j))" if j: "j < n" for j
  proof -
    have k: "s + (n - 1 - j) = 8 * r - sl - 1 - j" using ns j by linarith
    show ?thesis
    proof (cases "j + sl < 8")
      case True
      have "\<not> 8 * r - sl - 1 - j < 8 * length u" using ru True by linarith
      then have "bits_of v ! (8 * r - sl - 1 - j) = byte_bits b ! (8 * r - sl - 1 - j - 8 * length u)"
        using v by (simp add: nth_append)
      also have "8 * r - sl - 1 - j - 8 * length u = 7 - (sl + j)" using ru True by linarith
      finally have "bits_of v ! (8 * r - sl - 1 - j) \<longleftrightarrow> bit b (sl + j)" using True by simp
      with True j n k show ?thesis by (auto simp: bit_simps bits_simps add.commute)
    next
      case False
      have lt: "8 * r - sl - 1 - j < 8 * length u" using False ru ns j by linarith
      have K: "8 * r - sl - 1 - j = 8 * length u - 1 - (j - (8 - sl))"
        using ru False sl8 by linarith
      have idx: "bits_of v ! (8 * r - sl - 1 - j) = bits_of u ! (8 * length u - 1 - (j - (8 - sl)))"
        using lt v K by (simp add: nth_append)
      have "\<not> bit (drop_bit sl (ucast b :: 64 word)) j"
        using False by (auto simp: bit_simps add.commute dest: bit_imp_le_length)
      moreover have "bit (push_bit (8 - sl) (bits_val (bits_of u))) j
          \<longleftrightarrow> bits_of u ! (8 * length u - 1 - (j - (8 - sl)))"
      proof -
        have "8 - sl \<le> j" "j < 64" "j - (8 - sl) < 64" "j - (8 - sl) < 8 * length u"
          using False j n ns sl8 ru by linarith+
        then show ?thesis by (simp add: bit_simps bits_simps)
      qed
      ultimately show ?thesis unfolding k idx by (simp add: bit_or_iff)
    qed
  qed
  have rhs: "bit (bits_val (take n (drop s (bits_of v)))) j \<longleftrightarrow> j < n \<and> bits_of v ! (s + (n - 1 - j))" for j
  proof -
    have "length (take n (drop s (bits_of v))) = n" using n len by simp
    then show ?thesis using n len by (auto simp: bits_simps)
  qed
  have lhs: "bit (vectorToBits v n s r) j \<longleftrightarrow> bit ?d j \<and> j < n" if "j < 64" for j
    using v that n unfolding vectorToBits_def Let_def sl_eq
    by (auto simp: bit_mask_and vtb_loop_0)
  show ?thesis
  proof (rule bit_eqI)
    fix j
    assume "possible_bit TYPE(64 word) j"
    then have "j < 64" by simp
    then show "bit (vectorToBits v n s r) j = bit (bits_val (take n (drop s (bits_of v)))) j"
      using lhs rhs key by blast
  qed
qed

lemma getVector_shape:
  assumes "getVector sd n pos = ((v, s, r), sd')" and "0 < n"
  shows "length v = r" "r > 0" "s = pos mod 8" "n + s \<le> 8 * r" "8 * r - (n + s) < 8"
    "sd' = sd\<lparr>ReadBitPos := ReadBitPos sd + n\<rparr>"
    "pos div 8 + r \<le> length (Buffer sd) \<longleftrightarrow> pos + n \<le> 8 * length (Buffer sd)"
    "v = (if pos div 8 + r \<le> length (Buffer sd) then take r (drop (pos div 8) (Buffer sd))
          else replicate r 0)"
proof -
  let ?r0 = "if n mod 8 \<noteq> 0 then n div 8 + 1 else n div 8"
  have r: "r = (if n + pos mod 8 > ?r0 * 8 then ?r0 + 1 else ?r0)"
    and s: "s = pos mod 8"
    and v: "v = (if pos div 8 + r > length (Buffer sd) then (replicate r 0)[0 := 0]
                 else map (\<lambda>i. Buffer sd ! (pos div 8 + i)) [0..<r])"
    using assms(1) by (auto simp: getVector_def Let_def)
  show "s = pos mod 8" by (rule s)
  show "sd' = sd\<lparr>ReadBitPos := ReadBitPos sd + n\<rparr>"
    using assms(1) by (simp add: getVector_def Let_def)
  define a b where "a = n div 8" and "b = n mod 8"
  have nab: "n = 8 * a + b" "b < 8" by (simp_all add: a_def b_def)
  have s8: "s < 8" by (simp add: s)
  have r': "r = (if n + s > (if b \<noteq> 0 then a + 1 else a) * 8
                 then (if b \<noteq> 0 then a + 1 else a) + 1 else (if b \<noteq> 0 then a + 1 else a))"
    unfolding r s a_def b_def by simp
  have lo: "n + s \<le> 8 * r" using nab s8 unfolding r' by (auto split: if_splits)
  have hi: "8 * r < n + s + 8" using nab s8 unfolding r' by (auto split: if_splits)
  show "n + s \<le> 8 * r" by (rule lo)
  show "8 * r - (n + s) < 8" "r > 0" using lo hi assms(2) by linarith+
  have "pos = 8 * (pos div 8) + s" unfolding s by simp
  then show "pos div 8 + r \<le> length (Buffer sd) \<longleftrightarrow> pos + n \<le> 8 * length (Buffer sd)"
    using lo hi by linarith
  have "(replicate r 0)[0 := 0] = replicate r (0 :: byte)" by (cases r) simp_all
  moreover have "pos div 8 + r \<le> length (Buffer sd) \<Longrightarrow>
      map (\<lambda>i. Buffer sd ! (pos div 8 + i)) [0..<r] = take r (drop (pos div 8) (Buffer sd))"
    by (rule nth_equalityI) simp_all
  ultimately show "v = (if pos div 8 + r \<le> length (Buffer sd) then take r (drop (pos div 8) (Buffer sd))
      else replicate r 0)"
    unfolding v by simp
  then show "length v = r" by simp
qed

lemma take_bits_of: "take (8 * n) (bits_of bs) = bits_of (take n bs)"
proof (induction bs arbitrary: n)
  case (Cons b bs)
  then show ?case by (cases n) (simp_all add: algebra_simps)
qed simp

lemma drop_bits_of: "drop (8 * n) (bits_of bs) = bits_of (drop n bs)"
proof (induction bs arbitrary: n)
  case (Cons b bs)
  then show ?case by (cases n) (simp_all add: algebra_simps)
qed simp

lemma bits_of_replicate_0 [simp]: "bits_of (replicate n 0) = replicate (8 * n) False"
proof (induction n)
  case (Suc n)
  have "byte_bits 0 = replicate 8 False" by (simp add: byte_bits_def map_replicate_trivial)
  with Suc show ?case by (simp flip: replicate_add)
qed simp

text \<open>
  The reader contract: a \<open>getVector\<close> followed by \<open>vectorToBits\<close> returns the \<open>n\<close> bits at
  \<open>pos\<close> (or 0 when they are not all in the buffer) and advances the read position by \<open>n\<close>.
\<close>

lemma vectorToBits_getVector:
  assumes gv: "getVector sd n pos = ((v, s, r), sd')" and n: "0 < n" "n \<le> 64"
  shows "vectorToBits v n s r = peek_bits (Buffer sd) n pos"
proof -
  note sh = getVector_shape [OF gv n(1)]
  from sh(1,2) obtain u b where ub: "v = u @ [b]" by (cases v rule: rev_cases) auto
  have val: "vectorToBits v n s r = bits_val (take n (drop s (bits_of v)))"
    by (rule vectorToBits_val [OF ub sh(1) sh(4) n(2) sh(5)])
  show ?thesis
  proof (cases "pos div 8 + r \<le> length (Buffer sd)")
    case True
    have "bits_of v = take (8 * r) (drop (8 * (pos div 8)) (bits_of (Buffer sd)))"
      using True sh(8) by (simp add: take_bits_of drop_bits_of)
    moreover have "drop s (drop (8 * (pos div 8)) (bits_of (Buffer sd))) = drop pos (bits_of (Buffer sd))"
      unfolding sh(3) drop_drop by (simp add: mod_mult_div_eq)
    ultimately have "take n (drop s (bits_of v)) = take n (drop pos (bits_of (Buffer sd)))"
      using sh(4) by (simp add: drop_take min_def)
    with val True sh(7) show ?thesis by (simp add: peek_bits_def)
  next
    case False
    with val sh(7,8) show ?thesis by (simp add: peek_bits_def drop_replicate take_replicate)
  qed
qed

text \<open>\<^verbatim>\<open>getBitCount\<close>: the float comparisons are exact for the table's sizes (all below 2^53).\<close>

function bit_count_loop :: "nat \<Rightarrow> nat \<Rightarrow> nat" where
  "bit_count_loop requiredSize bitCount =
     (if 2 ^ bitCount < requiredSize then bit_count_loop requiredSize (bitCount + 1) else bitCount)"
  by pat_completeness auto
termination
proof (relation "measure (\<lambda>(r, n). r - n)")
  fix r n :: nat
  assume "2 ^ n < r"
  moreover have "n < 2 ^ n" by (rule less_exp)
  ultimately have "n < r" by (rule less_trans [rotated])
  then show "((r, n + 1), (r, n)) \<in> measure (\<lambda>(r, n). r - n)" by simp
qed simp

declare bit_count_loop.simps [simp del]

definition getBitCount :: "int \<Rightarrow> int \<Rightarrow> nat \<Rightarrow> nat" where
  "getBitCount low high decimal =
     (let requiredSize = (word_of_int (high - low) :: 64 word) * 10 ^ decimal
      in bit_count_loop (unat requiredSize) 1)"

lemma bit_count_loop_bounds:
  "n \<le> bit_count_loop r n \<and> r \<le> 2 ^ bit_count_loop r n
     \<and> (n < bit_count_loop r n \<longrightarrow> 2 ^ (bit_count_loop r n - 1) < r)"
proof (induction r n rule: bit_count_loop.induct)
  case (1 r n)
  show ?case
  proof (cases "2 ^ n < r")
    case True
    with 1 have IH: "n + 1 \<le> bit_count_loop r (n + 1)" "r \<le> 2 ^ bit_count_loop r (n + 1)"
      "n + 1 < bit_count_loop r (n + 1) \<longrightarrow> 2 ^ (bit_count_loop r (n + 1) - 1) < r" by auto
    have eq: "bit_count_loop r n = bit_count_loop r (n + 1)"
      using True by (simp add: bit_count_loop.simps [of r n])
    show ?thesis
      unfolding eq using IH True by (cases "n + 1 < bit_count_loop r (n + 1)") (auto simp: le_less)
  next
    case False
    then show ?thesis by (simp add: bit_count_loop.simps [of r n])
  qed
qed

lemma getBitCount_pos: "0 < getBitCount low high decimal"
  using bit_count_loop_bounds [of 1 "unat ((word_of_int (high - low) :: 64 word) * 10 ^ decimal)"]
  by (simp add: getBitCount_def Let_def)

lemma getBitCount_le_64: "getBitCount low high decimal \<le> 64"
proof (rule ccontr)
  let ?r = "unat ((word_of_int (high - low) :: 64 word) * 10 ^ decimal)"
  let ?n = "bit_count_loop ?r 1"
  assume "\<not> getBitCount low high decimal \<le> 64"
  then have n: "64 < ?n" by (simp add: getBitCount_def Let_def)
  then have "2 ^ (?n - 1) < ?r" using bit_count_loop_bounds [of 1 ?r] by simp
  moreover have "(2 :: nat) ^ 64 \<le> 2 ^ (?n - 1)" using n by (intro power_increasing) auto
  moreover have "?r < 2 ^ 64"
    using unsigned_less [where ?'a = nat, of "(word_of_int (high - low) :: 64 word) * 10 ^ decimal"]
    by simp
  ultimately show False by linarith
qed

end
