(* ===== verification/Rubix_Decoder.thy ===== *)
theory Rubix_Decoder
  imports Rubix_Bits Codec_Types
begin

text \<open>
  decoder.go: metadata and position bytes, typed field decoding, point names, and the loop
  \<^verbatim>\<open>DecodeRubix\<close> that walks the bit stream and reports every field to a callback.
\<close>

unbundle bit_operations_syntax

subsection \<open>Fields\<close>

text \<open>A typed Go number: what \<^verbatim>\<open>decodeData\<close> stores and what \<^verbatim>\<open>EncodeData\<close> is given.\<close>

datatype gonum = F32 gofloat | F64 gofloat
  | U8 "8 word" | I8 "8 word" | U16 "16 word" | I16 "16 word"
  | U32 "32 word" | I32 "32 word" | U64 "64 word" | I64 "64 word"

text \<open>The dynamic type of the pointer handed to \<^verbatim>\<open>decodeData\<close> (\<^verbatim>\<open>byte\<close> is \<^verbatim>\<open>uint8\<close>).\<close>

datatype target = Pf32 | Pu8 | Pi8 | Pu16 | Pi16 | Pu32 | Pi32 | Pu64 | Pi64 | Pother

definition canDecode :: "serial_data \<Rightarrow> bool" where
  "canDecode sd \<longleftrightarrow> ReadBitPos sd + DATA_TYPE_BIT_COUNT < length (Buffer sd) * 8"

definition parsePosition :: "byte \<Rightarrow> position_data" where
  "parsePosition positionByte =
     \<lparr>pos_ID = unat (positionByte AND 31), pos_Type = unat (drop_bit 5 positionByte)\<rparr>"

definition parseMetaData :: "serial_data \<Rightarrow> ((meta_data_key \<times> position_data) \<times> serial_data) option" where
  "parseMetaData sd = do {
     hp \<leftarrow> hasPositionalData sd;
     let (positionData, sd) =
       (if hp then
          (let ((positionVector, shiftPos, bytesRequired), sd) = getVector sd 8 (ReadBitPos sd);
               positionByte = ucast (vectorToBits positionVector 8 shiftPos bytesRequired) :: byte
           in (parsePosition positionByte, sd))
        else (\<lparr>pos_ID = 0, pos_Type = 0\<rparr>, sd));
     let ((typeVector, shiftPos, bytesRequired), sd) = getVector sd DATA_TYPE_BIT_COUNT (ReadBitPos sd);
     Some ((uint (vectorToBits typeVector DATA_TYPE_BIT_COUNT shiftPos bytesRequired), positionData), sd) }"

text \<open>\<open>float32(float64(dataBits)/math.Pow(10, decimalPoint) + float64(lowValue))\<close>.\<close>

definition fixed_value :: "meta_data \<Rightarrow> 64 word \<Rightarrow> gofloat" where
  "fixed_value metaData dataBits =
     f32_of_f64 (fl_addc mk_f64 (fl_divc mk_f64 (f64_of_int (uint dataBits)) (10 ^ decimalPoint metaData))
       (of_int (lowValue metaData)))"

definition datapoint_value :: "meta_data_key \<Rightarrow> target \<Rightarrow> 64 word \<Rightarrow> goerr + gonum" where
  "datapoint_value k tgt d =
     (if k = MDK_CHAR then (if tgt = Pu8 then Inr (U8 (ucast d)) else Inl (ErrMsg ''invalid type for MDK_CHAR''))
      else if k = MDK_UINT_8 then (if tgt = Pu8 then Inr (U8 (ucast d)) else Inl (ErrMsg ''invalid type for MDK_UINT_8''))
      else if k = MDK_INT_8 then (if tgt = Pi8 then Inr (I8 (ucast d)) else Inl (ErrMsg ''invalid type for MDK_INT_8''))
      else if k = MDK_UINT_16 then (if tgt = Pu16 then Inr (U16 (ucast d)) else Inl (ErrMsg ''invalid type for MDK_UINT_16''))
      else if k = MDK_INT_16 then (if tgt = Pi16 then Inr (I16 (ucast d)) else Inl (ErrMsg ''invalid type for MDK_INT_16''))
      else if k = MDK_UINT_32 then (if tgt = Pu32 then Inr (U32 (ucast d)) else Inl (ErrMsg ''invalid type for MDK_UINT_32''))
      else if k = MDK_INT_32 then (if tgt = Pi32 then Inr (I32 (ucast d)) else Inl (ErrMsg ''invalid type for MDK_INT_32''))
      else if k = MDK_UINT_64 then (if tgt = Pu64 then Inr (U64 d) else Inl (ErrMsg ''invalid type for MDK_UINT_64''))
      else if k = MDK_INT_64 then (if tgt = Pi64 then Inr (I64 d) else Inl (ErrMsg ''invalid type for MDK_INT_64''))
      else if k = MDK_FLOAT then (if tgt = Pf32 then Inr (F32 (f32_of_bits (ucast d))) else Inl (ErrMsg ''invalid type for MDK_FLOAT''))
      else if k = MDK_ERROR then (if tgt = Pu8 then Inr (U8 (ucast d)) else Inl (ErrMsg ''invalid type for MDK_ERROR''))
      else Inl (ErrMsg ''unsupported MetaDataKey''))"

definition decodeData :: "serial_data \<Rightarrow> meta_data_key \<Rightarrow> target \<Rightarrow> (goerr + gonum) \<times> serial_data" where
  "decodeData sd k tgt =
     (if k = 0 then (Inl (ErrMsg ''invalid MetaDataKey''), sd)
      else let metaData = getMetaData k in
        if dataType metaData = FIXEDPOINT then
          (let bitCount = getBitCount (lowValue metaData) (highValue metaData) (decimalPoint metaData);
               ((dataVector, shiftPos, bytesRequired), sd) = getVector sd bitCount (ReadBitPos sd);
               dataBits = vectorToBits dataVector bitCount shiftPos bytesRequired
           in (if tgt = Pf32 then Inr (F32 (fixed_value metaData dataBits))
               else Inl (ErrMsg ''unsupported data type''), sd))
        else if dataType metaData = DATAPOINT then
          (let bitCount = byteCount metaData * 8;
               ((dataVector, shiftPos, bytesRequired), sd) = getVector sd bitCount (ReadBitPos sd);
               dataBits = vectorToBits dataVector bitCount shiftPos bytesRequired
           in (datapoint_value k tgt dataBits, sd))
        else (Inl (ErrMsg ''unsupported data type1''), sd))"

subsection \<open>Point names\<close>

definition generateFieldName :: "meta_data_key \<Rightarrow> position_data \<Rightarrow> string" where
  "generateFieldName k pos =
     (let id = int (pos_ID pos) + 1; t = pos_Type pos in
      if t = PositionDataType_GENERAL then mdk_String k @ ''-'' @ itoa id
      else if t = PositionDataType_UO then ''UO-'' @ itoa id
      else if t = PositionDataType_DO then ''DO-'' @ itoa id
      else if t = PositionDataType_UI then ''UI-'' @ itoa id
      else if t = PositionDataType_DI then ''DI-'' @ itoa id
      else if t = PositionDataType_UVP then ''UVP-'' @ itoa id
      else if t = PositionDataType_UVP2 then ''UVP-'' @ itoa (id + 32)
      else if t = PositionDataType_DVP then ''DVP-'' @ itoa id
      else ''INVALID_POSITION_TYPE-'' @ itoa (int t) @ ''-'' @ itoa id)"

definition getPosition :: "string \<Rightarrow> goerr + byte" where
  "getPosition fieldName =
     (case split_on (CHR ''-'') fieldName of
        [pointType, num] \<Rightarrow>
          (case atoi num of
             Inl e \<Rightarrow> Inl e
           | Inr pointNum \<Rightarrow>
               if pointNum < 1 \<or> (pointType = ''UVP'' \<and> pointNum > 64) \<or> (pointType \<noteq> ''UVP'' \<and> pointNum > 32)
               then Inl (ErrMsg ''point number out of range'')
               else let pointIdx = pointNum - 1 in
                 if pointType = ''UO'' then Inr (push_bit 5 (of_nat PositionDataType_UO) + word_of_int pointIdx)
                 else if pointType = ''DO'' then Inr (push_bit 5 (of_nat PositionDataType_DO) + word_of_int pointIdx)
                 else if pointType = ''UI'' then Inr (push_bit 5 (of_nat PositionDataType_UI) + word_of_int pointIdx)
                 else if pointType = ''DI'' then Inr (push_bit 5 (of_nat PositionDataType_DI) + word_of_int pointIdx)
                 else if pointType = ''UVP'' then
                   (if pointIdx < 32 then Inr (push_bit 5 (of_nat PositionDataType_UVP) + word_of_int pointIdx)
                    else Inr (push_bit 5 (of_nat PositionDataType_UVP2) + word_of_int (pointIdx - 32)))
                 else if pointType = ''DVP'' then Inr (push_bit 5 (of_nat PositionDataType_DVP) + word_of_int pointIdx)
                 else Inl (ErrMsg ''invalid point type''))
      | _ \<Rightarrow> Inl (ErrMsg ''invalid fieldName format''))"

text \<open>Returns the data type number as a string, and an error for a malformed name.\<close>

definition GetMetaDataKey :: "string \<Rightarrow> string \<times> goerr option" where
  "GetMetaDataKey fieldName =
     (case split_on (CHR ''-'') fieldName of
        [pointType, num] \<Rightarrow>
          (if pointType = ''UO'' \<or> pointType = ''UI'' then itoa MDK_ANALOG_IN
           else if pointType = ''DO'' \<or> pointType = ''DI'' \<or> pointType = ''DVP'' then itoa MDK_DIGITAL
           else itoa MDK_FLOAT, None)
      | _ \<Rightarrow> (itoa MDK_FLOAT, Some (ErrMsg ''invalid fieldName format'')))"

subsection \<open>Decoding one point\<close>

text \<open>\<^verbatim>\<open>float64(x)\<close> of the decoded variable; a failed decode leaves the variable zero.\<close>

fun num_value :: "goerr + gonum \<Rightarrow> gofloat" where
  "num_value (Inl e) = Fin 0"
| "num_value (Inr (F32 v)) = v"
| "num_value (Inr (F64 v)) = v"
| "num_value (Inr (U8 w)) = f64_of_int (uint w)"
| "num_value (Inr (I8 w)) = f64_of_int (sint w)"
| "num_value (Inr (U16 w)) = f64_of_int (uint w)"
| "num_value (Inr (I16 w)) = f64_of_int (sint w)"
| "num_value (Inr (U32 w)) = f64_of_int (uint w)"
| "num_value (Inr (I32 w)) = f64_of_int (sint w)"
| "num_value (Inr (U64 w)) = f64_of_int (uint w)"
| "num_value (Inr (I64 w)) = f64_of_int (sint w)"

definition error_code :: "goerr + gonum \<Rightarrow> byte" where
  "error_code r = (case r of Inr (U8 w) \<Rightarrow> w | _ \<Rightarrow> 0)"

definition error_of_code :: "byte \<Rightarrow> goerr option" where
  "error_of_code c =
     (if c = 0 then None
      else if c = 1 then Some (ErrMsg ''unknown error'')
      else if c = 2 then Some (ErrMsg ''non-writable point'')
      else if c = 3 then Some (ErrMsg ''internal error'')
      else if c = 4 then Some (ErrMsg ''invalid point ID'')
      else if c = 5 then Some (ErrMsg ''data type mismatch'')
      else if c = 6 then Some (ErrMsg ''invalid value'')
      else Some (ErrMsg (''Unknown error'' @ itoa (uint c))))"

text \<open>The \<^verbatim>\<open>switch\<close> picks the variable (its type) each key is decoded into.\<close>

definition key_target :: "meta_data_key \<Rightarrow> target option" where
  "key_target k =
     (if k \<in> {MDK_TEMP, MDK_RH, MDK_LUX, MDK_MOVEMENT, MDK_COUNTER, MDK_DIGITAL, MDK_VOLTAGE_0_10,
              MDK_MILLIAMPS_4_20, MDK_OHM, MDK_CO2, MDK_BATTERY_VOLTAGE, MDK_PUSH_FREQUENCY,
              MDK_ANALOG_IN, MDK_FIRMWARE_VERSION, MDK_HARDWARE_VERSION} then Some Pf32
      else if k = MDK_UINT_8 then Some Pu8
      else if k = MDK_INT_8 then Some Pi8
      else if k = MDK_UINT_16 then Some Pu16
      else if k = MDK_INT_16 then Some Pi16
      else if k = MDK_UINT_32 then Some Pu32
      else if k = MDK_INT_32 then Some Pi32
      else if k = MDK_UINT_64 then Some Pu64
      else if k = MDK_INT_64 then Some Pi64
      else if k = MDK_CHAR then Some Pu8
      else if k = MDK_FLOAT then Some Pf32
      else if k = MDK_BOOL then Some Pf32
      else if k = MDK_ERROR then Some Pu8
      else None)"

definition decodePointRubix ::
  "serial_data \<Rightarrow> meta_data_key \<Rightarrow> position_data \<Rightarrow> (string \<times> gofloat \<times> goerr option) \<times> serial_data" where
  "decodePointRubix sd k pos =
     (let name = generateFieldName k pos in
      case key_target k of
        Some tgt \<Rightarrow>
          (let (r, sd) = decodeData sd k tgt in
           if k = MDK_ERROR then ((name, Fin 0, error_of_code (error_code r)), sd)
           else ((name, num_value r, None), sd))
      | None \<Rightarrow> ((name, Fin 0, None), sd))"

lemma getVector_ReadBitPos: "snd (getVector sd n pos) = sd\<lparr>ReadBitPos := ReadBitPos sd + n\<rparr>"
  by (simp add: getVector_def Let_def)

lemma getVector_Buffer [simp]: "Buffer (snd (getVector sd n pos)) = Buffer sd"
  by (simp add: getVector_ReadBitPos)

lemma parseMetaData_advances:
  assumes "parseMetaData sd = Some ((k, p), sd')"
  shows "Buffer sd' = Buffer sd \<and> ReadBitPos sd + 6 \<le> ReadBitPos sd'"
  using assms
  by (auto simp: parseMetaData_def getVector_def Let_def split: bind_splits if_splits)

lemma decodeData_advances:
  "Buffer (snd (decodeData sd k tgt)) = Buffer sd \<and> ReadBitPos sd \<le> ReadBitPos (snd (decodeData sd k tgt))"
  by (simp add: decodeData_def getVector_def Let_def)

lemma decodePointRubix_advances:
  "Buffer (snd (decodePointRubix sd k pos)) = Buffer sd
     \<and> ReadBitPos sd \<le> ReadBitPos (snd (decodePointRubix sd k pos))"
proof (cases "key_target k")
  case None
  then show ?thesis by (simp add: decodePointRubix_def Let_def)
next
  case (Some tgt)
  then show ?thesis
    using decodeData_advances [of sd k tgt]
    by (cases "decodeData sd k tgt") (simp add: decodePointRubix_def Let_def)
qed

subsection \<open>The decode loop\<close>

lemma rubix_step_decreases:
  assumes "canDecode sd" "parseMetaData sd = Some ((k, q), sd1)" "(res, sd2) = decodePointRubix sd1 k p"
  shows "length (Buffer sd2) * 8 - ReadBitPos sd2 < length (Buffer sd) * 8 - ReadBitPos sd"
proof -
  have "Buffer sd1 = Buffer sd \<and> ReadBitPos sd + 6 \<le> ReadBitPos sd1"
    by (rule parseMetaData_advances [OF assms(2)])
  moreover have "Buffer sd2 = Buffer sd1 \<and> ReadBitPos sd1 \<le> ReadBitPos sd2"
    using decodePointRubix_advances [of sd1 k p] assms(3) by (metis snd_conv)
  ultimately show ?thesis using assms(1) unfolding canDecode_def by auto
qed

text \<open>
  \<open>report\<close> is the body's callback dispatch: with an update function the uplink callbacks are
  used, otherwise the written-point callbacks with the message id; a nil callback panics.
\<close>

record 's rubix_fns =
  fnPoint :: "'s point_fn option"
  fnPointErr :: "'s point_err_fn option"
  fnWritten :: "'s written_fn option"
  fnWrittenErr :: "'s written_err_fn option"

definition report ::
  "'s rubix_fns \<Rightarrow> device \<Rightarrow> lora_desc option \<Rightarrow> byte \<Rightarrow> string \<times> gofloat \<times> goerr option \<Rightarrow> 's \<Rightarrow> 's option" where
  "report fns dev devDesc msgId res s =
     (case res of (name, value, err) \<Rightarrow>
        if fnPoint fns \<noteq> None then
          (case err of
             Some e \<Rightarrow> (case fnPointErr fns of None \<Rightarrow> None | Some f \<Rightarrow> perform (f name e dev devDesc) s)
           | None \<Rightarrow> (case fnPoint fns of None \<Rightarrow> None | Some f \<Rightarrow> perform (f name value dev devDesc) s))
        else
          (case err of
             Some e \<Rightarrow> (case fnWrittenErr fns of None \<Rightarrow> None | Some f \<Rightarrow> perform (f name e msgId dev) s)
           | None \<Rightarrow> (case fnWritten fns of None \<Rightarrow> None | Some f \<Rightarrow> perform (f name value msgId dev) s)))"

function rubix_loop ::
  "(string \<times> gofloat \<times> goerr option \<Rightarrow> 's \<Rightarrow> 's option) \<Rightarrow> bool \<Rightarrow> position_data \<Rightarrow> serial_data \<Rightarrow> 's \<Rightarrow> 's option" where
  "rubix_loop rep hasPos positionData sd s =
     (if canDecode sd then
        (case parseMetaData sd of
           None \<Rightarrow> None
         | Some ((metaDataKey, positionDataNew), sd1) \<Rightarrow>
             (let positionData = (if hasPos then positionDataNew else positionData);
                  (res, sd2) = decodePointRubix sd1 metaDataKey positionData
              in case rep res s of
                   None \<Rightarrow> None
                 | Some s' \<Rightarrow> rubix_loop rep hasPos (positionData\<lparr>pos_ID := pos_ID positionData + 1\<rparr>) sd2 s'))
      else Some s)"
  by pat_completeness auto
termination
  by (relation "measure (\<lambda>(rep, hasPos, p, sd, s). length (Buffer sd) * 8 - ReadBitPos sd)") (auto intro: rubix_step_decreases)

declare rubix_loop.simps [simp del]

definition DecodeRubix ::
  "byte list \<Rightarrow> device \<Rightarrow> lora_desc option \<Rightarrow> byte \<Rightarrow> 's rubix_fns \<Rightarrow> 's action" where
  "DecodeRubix payloadBytes dev devDesc msgId fns s =
     (let serialData = NewSerialDataWithBuffer payloadBytes in do {
        hasPos \<leftarrow> hasPositionalData serialData;
        s \<leftarrow> rubix_loop (report fns dev devDesc msgId) hasPos
               \<lparr>pos_ID = 0, pos_Type = PositionDataType_GENERAL\<rparr> serialData s;
        Some (None, s) })"

definition DecodeRubixUplink ::
  "byte list \<Rightarrow> lora_desc option \<Rightarrow> device \<Rightarrow> 's callbacks \<Rightarrow> 's action" where
  "DecodeRubixUplink payloadBytes devDesc dev cb =
     DecodeRubix payloadBytes dev devDesc 0
       \<lparr>fnPoint = Some (updatePointFn cb), fnPointErr = Some (updatePointErrFn cb),
        fnWritten = None, fnWrittenErr = None\<rparr>"

definition DecodeRubixResponse ::
  "byte list \<Rightarrow> byte \<Rightarrow> lora_desc option \<Rightarrow> device \<Rightarrow> 's callbacks \<Rightarrow> 's action" where
  "DecodeRubixResponse payloadBytes msgId devDesc dev cb =
     DecodeRubix payloadBytes dev devDesc msgId
       \<lparr>fnPoint = None, fnPointErr = None,
        fnWritten = Some (updateWrittenFn cb), fnWrittenErr = Some (updateWrittenErrFn cb)\<rparr>"

definition CheckPayloadLengthRubix :: "string \<Rightarrow> bool" where
  "CheckPayloadLengthRubix data = True"

subsection \<open>The fields of a payload, without callbacks\<close>

text \<open>
  \<open>rubix_points\<close> is the abstract view of a payload: the list of decoded points in stream
  order.  \<open>DecodeRubix\<close> is a left fold of the reporting callback over it.
\<close>

function rubix_points ::
  "bool \<Rightarrow> position_data \<Rightarrow> serial_data \<Rightarrow> (string \<times> gofloat \<times> goerr option) list" where
  "rubix_points hasPos positionData sd =
     (if canDecode sd then
        (case parseMetaData sd of
           None \<Rightarrow> []
         | Some ((metaDataKey, positionDataNew), sd1) \<Rightarrow>
             (let positionData = (if hasPos then positionDataNew else positionData);
                  (res, sd2) = decodePointRubix sd1 metaDataKey positionData
              in res # rubix_points hasPos (positionData\<lparr>pos_ID := pos_ID positionData + 1\<rparr>) sd2))
      else [])"
  by pat_completeness auto
termination
  by (relation "measure (\<lambda>(hasPos, p, sd). length (Buffer sd) * 8 - ReadBitPos sd)") (auto intro: rubix_step_decreases)

declare rubix_points.simps [simp del]

definition payload_points :: "byte list \<Rightarrow> (string \<times> gofloat \<times> goerr option) list" where
  "payload_points payload =
     (case payload of [] \<Rightarrow> []
      | b # bs \<Rightarrow> rubix_points (b AND 1 = 1) \<lparr>pos_ID = 0, pos_Type = PositionDataType_GENERAL\<rparr>
                   (NewSerialDataWithBuffer payload))"

fun foldM :: "('a \<Rightarrow> 's \<Rightarrow> 's option) \<Rightarrow> 'a list \<Rightarrow> 's \<Rightarrow> 's option" where
  "foldM f [] s = Some s"
| "foldM f (x # xs) s = (case f x s of None \<Rightarrow> None | Some s' \<Rightarrow> foldM f xs s')"

lemma parseMetaData_Some: "Buffer sd \<noteq> [] \<Longrightarrow> \<exists>r. parseMetaData sd = Some r"
  by (cases "Buffer sd") (auto simp: parseMetaData_def Let_def split: prod.split)

lemma rubix_loop_fold:
  "Buffer sd \<noteq> [] \<Longrightarrow> rubix_loop rep hasPos p sd s = foldM rep (rubix_points hasPos p sd) s"
proof (induction rep hasPos p sd s rule: rubix_loop.induct)
  case (1 rep hasPos p sd s)
  show ?case
  proof (cases "canDecode sd")
    case False
    then show ?thesis by (simp add: rubix_loop.simps [of rep hasPos p sd] rubix_points.simps [of hasPos p sd])
  next
    case True
    obtain k q sd1 where pm: "parseMetaData sd = Some ((k, q), sd1)"
      using parseMetaData_Some [OF "1.prems"] by auto
    define p' where "p' = (if hasPos then q else p)"
    obtain res sd2 where dp: "decodePointRubix sd1 k p' = (res, sd2)"
      by (cases "decodePointRubix sd1 k p'")
    have "Buffer sd2 = Buffer sd"
      using parseMetaData_advances [OF pm] decodePointRubix_advances [of sd1 k p'] dp by simp
    with "1.prems" have ne: "Buffer sd2 \<noteq> []" by simp
    have lp: "rubix_loop rep hasPos p sd s =
        (case rep res s of None \<Rightarrow> None
         | Some s' \<Rightarrow> rubix_loop rep hasPos (p'\<lparr>pos_ID := pos_ID p' + 1\<rparr>) sd2 s')"
      unfolding rubix_loop.simps [of rep hasPos p sd s] using True pm dp by (cases hasPos) (simp_all add: p'_def split: option.split)
    have rp: "rubix_points hasPos p sd = res # rubix_points hasPos (p'\<lparr>pos_ID := pos_ID p' + 1\<rparr>) sd2"
      unfolding rubix_points.simps [of hasPos p sd] using True pm dp by (cases hasPos) (simp_all add: p'_def split: option.split)
    have IH: "rep res s = Some s' \<Longrightarrow>
        rubix_loop rep hasPos (p'\<lparr>pos_ID := pos_ID p' + 1\<rparr>) sd2 s'
          = foldM rep (rubix_points hasPos (p'\<lparr>pos_ID := pos_ID p' + 1\<rparr>) sd2) s'" for s'
      by (rule "1.IH" [OF True pm refl refl p'_def refl dp [symmetric] _ ne])
    show ?thesis unfolding lp rp using IH by (simp split: option.split)
  qed
qed

text \<open>The shape of the main result on the loop: one report per field, in stream order.\<close>

lemma DecodeRubix_fold:
  assumes "payload \<noteq> []"
  shows "DecodeRubix payload dev devDesc msgId fns s =
           map_option (\<lambda>s'. (None, s')) (foldM (report fns dev devDesc msgId) (payload_points payload) s)"
proof -
  obtain b bs where p: "payload = b # bs" using assms by (cases payload) auto
  have "Buffer (NewSerialDataWithBuffer payload) = b # bs" by (simp add: NewSerialDataWithBuffer_def p)
  then show ?thesis
    by (simp add: DecodeRubix_def Let_def rubix_loop_fold payload_points_def p map_option_case
        split: option.split)
qed

lemma DecodeRubix_empty: "DecodeRubix [] dev devDesc msgId fns s = None"
  by (simp add: DecodeRubix_def NewSerialDataWithBuffer_def Let_def)

end
