(* ===== verification/Device_Registry.thy ===== *)
theory Device_Registry
  imports Zip_HydroTap Rubix_Decoder
begin

text \<open>
  codecs.go: the table of device descriptions, and the calls through its function fields.
  A nil function field is \<open>None\<close> in the description and a panic when called.
\<close>

subsection \<open>Models (schema/device.go)\<close>

abbreviation (input) DeviceModelTHLM :: string where "DeviceModelTHLM \<equiv> ''THLM''"
abbreviation (input) DeviceModelTHL :: string where "DeviceModelTHL \<equiv> ''THL''"
abbreviation (input) DeviceModelTH :: string where "DeviceModelTH \<equiv> ''TH''"
abbreviation (input) DeviceModelMicroEdgeV1 :: string where "DeviceModelMicroEdgeV1 \<equiv> ''MicroEdgeV1''"
abbreviation (input) DeviceModelMicroEdgeV2 :: string where "DeviceModelMicroEdgeV2 \<equiv> ''MicroEdgeV2''"
abbreviation (input) DeviceModelZiptHydroTap :: string where "DeviceModelZiptHydroTap \<equiv> ''ZipHydroTap''"
abbreviation (input) DeviceModelRubix :: string where "DeviceModelRubix \<equiv> ''Rubix''"
abbreviation (input) DeviceModelUART :: string where "DeviceModelUART \<equiv> ''UART''"
abbreviation (input) DeviceModelRubixEncrypted :: string where "DeviceModelRubixEncrypted \<equiv> ''RubixEncrypted''"

definition device_models :: "string list" where
  "device_models = [DeviceModelTHLM, DeviceModelTHL, DeviceModelTH, DeviceModelMicroEdgeV1,
     DeviceModelMicroEdgeV2, DeviceModelZiptHydroTap, DeviceModelRubix, DeviceModelUART,
     DeviceModelRubixEncrypted]"

subsection \<open>The table\<close>

definition legacy_desc :: "string \<Rightarrow> string \<Rightarrow> length_fn \<Rightarrow> uplink_fn \<Rightarrow> names_fn \<Rightarrow> lora_desc" where
  "legacy_desc name m cl du gp = \<lparr>DeviceName = name, Model = m, SensorCode = '''', CheckLength = Some cl,
     DecodeUplink = Some du, DecodeResponse = None, EncodeRequestMessage_of = None,
     GetPointNames = Some gp, IsLoRaRAW = False, AllowUnencrypted = False\<rparr>"

definition rubix_desc :: "string \<Rightarrow> string \<Rightarrow> bool \<Rightarrow> lora_desc" where
  "rubix_desc name m allow = \<lparr>DeviceName = name, Model = m, SensorCode = '''',
     CheckLength = Some CheckPayloadLengthRubix_fn, DecodeUplink = Some DecodeRubixUplink_fn,
     DecodeResponse = Some DecodeRubixResponse_fn, EncodeRequestMessage_of = Some EncodeRequestMessage_fn,
     GetPointNames = Some GetRubixPointNames_fn, IsLoRaRAW = True, AllowUnencrypted = allow\<rparr>"

definition zht_desc :: lora_desc where
  "zht_desc = \<lparr>DeviceName = ''ZipHydroTap'', Model = DeviceModelZiptHydroTap, SensorCode = '''',
     CheckLength = Some CheckPayloadLengthZHT_fn, DecodeUplink = Some DecodeZHT_fn, DecodeResponse = None,
     EncodeRequestMessage_of = None, GetPointNames = Some GetZHTPointNames_fn, IsLoRaRAW = True,
     AllowUnencrypted = True\<rparr>"

definition LoRaDeviceDescriptions :: "lora_desc list" where
  "LoRaDeviceDescriptions = [
     legacy_desc ''MicroEdge'' DeviceModelMicroEdgeV1 CheckPayloadLengthME_fn DecodeME_fn GetMePointNames_fn,
     legacy_desc ''MicroEdge'' DeviceModelMicroEdgeV2 CheckPayloadLengthME_fn DecodeME_fn GetMePointNames_fn,
     legacy_desc ''Droplet'' DeviceModelTHLM CheckPayloadLengthDroplet_fn DecodeDropletTHLM_fn GetTHLMPointNames_fn,
     legacy_desc ''Droplet'' DeviceModelTHL CheckPayloadLengthDroplet_fn DecodeDropletTHL_fn GetTHLPointNames_fn,
     legacy_desc ''Droplet'' DeviceModelTH CheckPayloadLengthDroplet_fn DecodeDropletTH_fn GetTHPointNames_fn,
     zht_desc,
     rubix_desc ''Rubix'' DeviceModelRubix True,
     rubix_desc ''UART'' DeviceModelUART False,
     rubix_desc ''RubixEncrypted'' DeviceModelRubixEncrypted False]"

definition GetRubixPointNames :: "string list" where
  "GetRubixPointNames = GetCommonValueNames"

subsection \<open>Calls through the function fields\<close>

fun call_CheckLength :: "length_fn \<Rightarrow> string \<Rightarrow> bool" where
  "call_CheckLength CheckPayloadLengthME_fn data = CheckPayloadLengthME data"
| "call_CheckLength CheckPayloadLengthDroplet_fn data = CheckPayloadLengthDroplet data"
| "call_CheckLength CheckPayloadLengthZHT_fn data = CheckPayloadLengthZHT data"
| "call_CheckLength CheckPayloadLengthRubix_fn data = CheckPayloadLengthRubix data"
| "call_CheckLength NilCheckLength_fn data = NilLoRaDeviceDescriptionCheckLength data"

type_synonym map_order = "(string \<times> string) list \<Rightarrow> (string \<times> string) list"

fun call_DecodeUplink ::
  "map_order \<Rightarrow> uplink_fn \<Rightarrow> string \<Rightarrow> byte list \<Rightarrow> lora_desc option \<Rightarrow> device \<Rightarrow> 's callbacks \<Rightarrow> 's action" where
  "call_DecodeUplink order DecodeME_fn data bytes dd dev cb = DecodeME data dev cb"
| "call_DecodeUplink order DecodeDropletTHLM_fn data bytes dd dev cb = DecodeDropletTHLM data dev cb"
| "call_DecodeUplink order DecodeDropletTHL_fn data bytes dd dev cb = DecodeDropletTHL data dev cb"
| "call_DecodeUplink order DecodeDropletTH_fn data bytes dd dev cb = DecodeDropletTH data dev cb"
| "call_DecodeUplink order DecodeZHT_fn data bytes dd dev cb = DecodeZHT order bytes dev cb"
| "call_DecodeUplink order DecodeRubixUplink_fn data bytes dd dev cb = DecodeRubixUplink bytes dd dev cb"
| "call_DecodeUplink order NilDecode_fn data bytes dd dev cb = NilLoRaDeviceDescriptionDecode"

fun call_DecodeResponse ::
  "response_fn \<Rightarrow> byte list \<Rightarrow> byte \<Rightarrow> lora_desc option \<Rightarrow> device \<Rightarrow> 's callbacks \<Rightarrow> 's action" where
  "call_DecodeResponse DecodeRubixResponse_fn bytes msgId dd dev cb = DecodeRubixResponse bytes msgId dd dev cb"
| "call_DecodeResponse NilDecodeResponse_fn bytes msgId dd dev cb = NilLoRaDeviceDescriptionDecodeResponse"

fun call_GetPointNames :: "names_fn \<Rightarrow> string list" where
  "call_GetPointNames GetMePointNames_fn = GetMePointNames"
| "call_GetPointNames GetTHLMPointNames_fn = GetTHLMPointNames"
| "call_GetPointNames GetTHLPointNames_fn = GetTHLPointNames"
| "call_GetPointNames GetTHPointNames_fn = GetTHPointNames"
| "call_GetPointNames GetZHTPointNames_fn = GetZHTPointNames"
| "call_GetPointNames GetRubixPointNames_fn = GetRubixPointNames"
| "call_GetPointNames NilGetPointsStruct_fn = NilLoRaDeviceDescriptionGetPointsStruct"

definition GetDevicePointNames :: "device \<Rightarrow> lora_desc list \<Rightarrow> string list option" where
  "GetDevicePointNames dev ds =
     map_option call_GetPointNames (GetPointNames (deref_desc (GetDeviceDescription dev ds)))"

subsection \<open>Lemmas\<close>

lemma GetDeviceDescription_Some:
  "GetDeviceDescription dev ds = Some d \<Longrightarrow> d \<in> set ds \<and> equal_fold (dev_Model dev) (Model d)"
  by (induction ds) (auto split: if_splits)

lemma registered_forms:
  "set LoRaDeviceDescriptions =
     {legacy_desc ''MicroEdge'' DeviceModelMicroEdgeV1 CheckPayloadLengthME_fn DecodeME_fn GetMePointNames_fn,
      legacy_desc ''MicroEdge'' DeviceModelMicroEdgeV2 CheckPayloadLengthME_fn DecodeME_fn GetMePointNames_fn,
      legacy_desc ''Droplet'' DeviceModelTHLM CheckPayloadLengthDroplet_fn DecodeDropletTHLM_fn GetTHLMPointNames_fn,
      legacy_desc ''Droplet'' DeviceModelTHL CheckPayloadLengthDroplet_fn DecodeDropletTHL_fn GetTHLPointNames_fn,
      legacy_desc ''Droplet'' DeviceModelTH CheckPayloadLengthDroplet_fn DecodeDropletTH_fn GetTHPointNames_fn,
      zht_desc, rubix_desc ''Rubix'' DeviceModelRubix True, rubix_desc ''UART'' DeviceModelUART False,
      rubix_desc ''RubixEncrypted'' DeviceModelRubixEncrypted False}"
  unfolding LoRaDeviceDescriptions_def by simp

text \<open>The lookup ignores letter case, and no two models of the table fold to the same name.\<close>

lemma GetDeviceDescription_model:
  assumes "d \<in> set ds" "equal_fold (dev_Model dev) (Model d)" "distinct (map (to_upper \<circ> Model) ds)"
  shows "GetDeviceDescription dev ds = Some d"
  using assms
proof (induction ds)
  case (Cons x xs)
  show ?case
  proof (cases "d = x")
    case True
    then show ?thesis using Cons.prems(2) by simp
  next
    case False
    then have d: "d \<in> set xs" using Cons.prems(1) by simp
    have "to_upper (Model x) \<noteq> to_upper (Model d)"
      using Cons.prems(3) imageI [OF d, of "to_upper \<circ> Model"] by auto
    then have "\<not> equal_fold (dev_Model dev) (Model x)" using Cons.prems(2) by (simp add: equal_fold_def)
    then show ?thesis using Cons d by simp
  qed
qed simp

lemma registry_distinct: "distinct (map (to_upper \<circ> Model) LoRaDeviceDescriptions)"
  by code_simp

subsection \<open>Properties\<close>

text \<open>Every model the schema offers has exactly one description, found in any letter case:
  looking a registered description up by its own model gives that description.\<close>

theorem registry_lookup:
  "map Model LoRaDeviceDescriptions \<noteq> [] \<and> set (map Model LoRaDeviceDescriptions) = set device_models
   \<and> (\<forall>d \<in> set LoRaDeviceDescriptions. \<forall>dev :: device. dev_Model dev \<in> {Model d, to_upper (Model d)}
        \<longrightarrow> GetDeviceDescription dev LoRaDeviceDescriptions = Some d)"
proof (intro conjI ballI allI impI)
  show "map Model LoRaDeviceDescriptions \<noteq> []" by (simp add: LoRaDeviceDescriptions_def)
  show "set (map Model LoRaDeviceDescriptions) = set device_models"
    by (auto simp: LoRaDeviceDescriptions_def device_models_def legacy_desc_def rubix_desc_def zht_desc_def)
  fix d and dev :: device
  assume d: "d \<in> set LoRaDeviceDescriptions" and m: "dev_Model dev \<in> {Model d, to_upper (Model d)}"
  have "equal_fold (dev_Model dev) (Model d)" using m by (auto simp: equal_fold_def)
  then show "GetDeviceDescription dev LoRaDeviceDescriptions = Some d"
    by (rule GetDeviceDescription_model [OF d _ registry_distinct])
qed

theorem registry_lookup_witness:
  "GetDeviceDescription (example_device\<lparr>dev_Model := ''RUBIX''\<rparr>) LoRaDeviceDescriptions
     = Some (rubix_desc ''Rubix'' DeviceModelRubix True)"
proof -
  have "rubix_desc ''Rubix'' DeviceModelRubix True \<in> set LoRaDeviceDescriptions"
    by (simp add: LoRaDeviceDescriptions_def)
  moreover have "dev_Model (example_device\<lparr>dev_Model := ''RUBIX''\<rparr>)
      \<in> {Model (rubix_desc ''Rubix'' DeviceModelRubix True), to_upper (Model (rubix_desc ''Rubix'' DeviceModelRubix True))}"
    by (simp add: rubix_desc_def to_upper_def upper_char_def char_of_def bit_0)
  ultimately show ?thesis using registry_lookup by blast
qed

text \<open>Only Rubix and ZipHydroTap accept plaintext LoRaRAW frames, and every LoRaRAW model but
  ZipHydroTap can be written to: the others, ZipHydroTap included, have no request encoder and
  no response decoder.\<close>

theorem registry_capabilities:
  "\<forall>d \<in> set LoRaDeviceDescriptions.
     (AllowUnencrypted d \<longleftrightarrow> Model d \<in> {DeviceModelRubix, DeviceModelZiptHydroTap})
   \<and> (EncodeRequestMessage_of d = None \<longleftrightarrow> DecodeResponse d = None)
   \<and> (DecodeResponse d = None \<longleftrightarrow> \<not> IsLoRaRAW d \<or> Model d = DeviceModelZiptHydroTap)
   \<and> CheckLength d \<noteq> None \<and> DecodeUplink d \<noteq> None \<and> GetPointNames d \<noteq> None"
  by (simp add: LoRaDeviceDescriptions_def legacy_desc_def rubix_desc_def zht_desc_def)

theorem registry_capabilities_witness:
  "AllowUnencrypted zht_desc \<and> DecodeResponse zht_desc = None \<and> EncodeRequestMessage_of zht_desc = None"
proof -
  have "zht_desc \<in> set LoRaDeviceDescriptions" by (simp add: LoRaDeviceDescriptions_def)
  from bspec [OF registry_capabilities this] show ?thesis by (simp add: zht_desc_def)
qed
end
