(* ===== verification/Write_Queue.thy ===== *)
theory Write_Queue
  imports Codec_Types
begin

text \<open>
  writeQueue.go: the pending writes of one device.  Items are shared by pointer between the
  queue, the scheduler and the receive path, so they live in a store and a queue is the list of
  their addresses (positions in the store).  The \<^verbatim>\<open>done\<close> channel is the flag that it is closed; a nil
  message is \<open>None\<close>.  Each operation runs under the queue's mutex and is one atomic step.
\<close>

record pending_write =
  MessageId :: byte
  Message :: "byte list option"
  MessageType :: bool
  Point :: point
  RetryCount :: int
  done_closed :: bool
  acked :: bool

type_synonym store = "pending_write list"
type_synonym write_queue = "nat list"

subsection \<open>Operations\<close>

definition update_item :: "nat \<Rightarrow> (pending_write \<Rightarrow> pending_write) \<Rightarrow> store \<Rightarrow> store" where
  "update_item item f st = st[item := f (st ! item)]"

definition markDone :: "bool \<Rightarrow> pending_write \<Rightarrow> pending_write" where
  "markDone b p = (if done_closed p then p else p\<lparr>acked := b, done_closed := True\<rparr>)"

definition NewPointWriteQueue :: write_queue where
  "NewPointWriteQueue = []"

definition new_item :: "point \<Rightarrow> pending_write" where
  "new_item pt = \<lparr>MessageId = 0, Message = None, MessageType = False, Point = pt, RetryCount = 0,
     done_closed = False, acked = False\<rparr>"

definition EnqueueWriteQueue :: "point \<Rightarrow> store \<times> write_queue \<Rightarrow> store \<times> write_queue" where
  "EnqueueWriteQueue pt = (\<lambda>(st, q). (st @ [new_item pt], q @ [length st]))"

definition Peek :: "write_queue \<Rightarrow> nat option" where
  "Peek q = (case q of [] \<Rightarrow> None | item # _ \<Rightarrow> Some item)"

definition SetMessage :: "nat \<Rightarrow> byte \<Rightarrow> byte list \<Rightarrow> store \<Rightarrow> store" where
  "SetMessage item messageId message =
     update_item item (\<lambda>p. p\<lparr>MessageId := messageId, Message := Some message\<rparr>)"

definition IncRetry :: "nat \<Rightarrow> store \<Rightarrow> int \<times> store" where
  "IncRetry item st =
     (let st = update_item item (\<lambda>p. p\<lparr>RetryCount := RetryCount p + 1\<rparr>) st in (RetryCount (st ! item), st))"

definition RemoveItem :: "nat \<Rightarrow> store \<times> write_queue \<Rightarrow> bool \<times> store \<times> write_queue" where
  "RemoveItem item = (\<lambda>(st, q).
     case q of
       [] \<Rightarrow> (False, st, q)
     | head # rest \<Rightarrow> if head \<noteq> item then (False, st, q)
                      else (True, update_item item (markDone False) st, rest))"

definition dequeue :: "byte option \<Rightarrow> store \<times> write_queue \<Rightarrow> nat option \<times> store \<times> write_queue" where
  "dequeue messageId = (\<lambda>(st, q).
     case q of
       [] \<Rightarrow> (None, st, q)
     | head # rest \<Rightarrow>
         (case messageId of
            None \<Rightarrow> (Some head, update_item head (markDone False) st, rest)
          | Some i \<Rightarrow>
              if Message (st ! head) = None \<or> MessageId (st ! head) \<noteq> i then (None, st, q)
              else (Some head, update_item head (markDone True) st, rest)))"

definition DequeueWriteQueue :: "store \<times> write_queue \<Rightarrow> store \<times> write_queue" where
  "DequeueWriteQueue sq = snd (dequeue None sq)"

definition DequeueUsingMessageId :: "byte \<Rightarrow> store \<times> write_queue \<Rightarrow> point option \<times> store \<times> write_queue" where
  "DequeueUsingMessageId messageId sq =
     (case dequeue (Some messageId) sq of
        (None, sq) \<Rightarrow> (None, sq)
      | (Some item, sq) \<Rightarrow> (Some (Point (fst sq ! item)), sq))"

definition queue_Size :: "write_queue \<Rightarrow> nat" where
  "queue_Size q = length q"

subsection \<open>Lemmas\<close>

lemma update_item_simps [simp]:
  "length (update_item a f st) = length st"
  "a < length st \<Longrightarrow> update_item a f st ! a = f (st ! a)"
  "a \<noteq> b \<Longrightarrow> update_item a f st ! b = st ! b"
  by (simp_all add: update_item_def)

lemma nth_update_item:
  "a < length st \<Longrightarrow> update_item a f st ! b = (if a = b then f (st ! a) else st ! b)"
  by simp

lemma markDone_simps [simp]:
  "done_closed (markDone b p)" "Point (markDone b p) = Point p" "RetryCount (markDone b p) = RetryCount p"
  "Message (markDone b p) = Message p" "MessageId (markDone b p) = MessageId p"
  "\<not> done_closed p \<Longrightarrow> acked (markDone b p) = b"
  by (simp_all add: markDone_def)

subsection \<open>First in, first out\<close>

locale fifo =
  fixes enq :: "'x \<Rightarrow> 'q \<Rightarrow> 'q" and front :: "'q \<Rightarrow> 'x option" and pop :: "'q \<Rightarrow> 'q"
    and contents :: "'q \<Rightarrow> 'x list" and wf :: "'q \<Rightarrow> bool"
  assumes enq: "wf q \<Longrightarrow> wf (enq x q) \<and> contents (enq x q) = contents q @ [x]"
    and front: "wf q \<Longrightarrow> front q = (case contents q of [] \<Rightarrow> None | x # _ \<Rightarrow> Some x)"
    and pop: "wf q \<Longrightarrow> wf (pop q) \<and> contents (pop q) = tl (contents q)"
begin

lemma enq_all: "wf q \<Longrightarrow> wf (fold enq xs q) \<and> contents (fold enq xs q) = contents q @ xs"
  by (induction xs arbitrary: q) (auto simp: enq)

lemma pop_many: "wf q \<Longrightarrow> wf ((pop ^^ n) q) \<and> contents ((pop ^^ n) q) = drop n (contents q)"
  by (induction n) (auto simp: pop tl_drop drop_Suc)

lemma front_after:
  assumes "wf q" "n < length (contents q) + length xs"
  shows "front ((pop ^^ n) (fold enq xs q)) = Some ((contents q @ xs) ! n)"
proof -
  have "wf ((pop ^^ n) (fold enq xs q))" "contents ((pop ^^ n) (fold enq xs q)) = drop n (contents q @ xs)"
    using enq_all [OF assms(1)] pop_many by auto
  moreover have "drop n (contents q @ xs) = (contents q @ xs) ! n # drop (Suc n) (contents q @ xs)"
    by (rule Cons_nth_drop_Suc [symmetric]) (use assms(2) in simp)
  ultimately show ?thesis using front by simp
qed

end

definition queue_points :: "store \<times> write_queue \<Rightarrow> point list" where
  "queue_points = (\<lambda>(st, q). map (\<lambda>a. Point (st ! a)) q)"

definition head_point :: "store \<times> write_queue \<Rightarrow> point option" where
  "head_point = (\<lambda>(st, q). map_option (\<lambda>a. Point (st ! a)) (Peek q))"

definition queue_wf :: "store \<times> write_queue \<Rightarrow> bool" where
  "queue_wf = (\<lambda>(st, q). \<forall>a \<in> set q. a < length st)"

lemma queue_points_update: "\<forall>a \<in> set q. a < length st \<Longrightarrow> h < length st \<Longrightarrow> (\<And>p. Point (f p) = Point p) \<Longrightarrow>
   map (\<lambda>a. Point (update_item h f st ! a)) q = map (\<lambda>a. Point (st ! a)) q"
  by (auto simp: nth_update_item)

interpretation pwq: fifo EnqueueWriteQueue head_point DequeueWriteQueue queue_points queue_wf
proof
  fix q :: "store \<times> write_queue" and x
  assume "queue_wf q"
  then show "queue_wf (EnqueueWriteQueue x q) \<and> queue_points (EnqueueWriteQueue x q) = queue_points q @ [x]"
    by (auto simp: queue_wf_def EnqueueWriteQueue_def queue_points_def nth_append new_item_def less_Suc_eq)
next
  fix q :: "store \<times> write_queue"
  assume w: "queue_wf q"
  show "head_point q = (case queue_points q of [] \<Rightarrow> None | x # _ \<Rightarrow> Some x)"
    by (cases q) (auto simp: head_point_def Peek_def queue_points_def split: list.split)
  show "queue_wf (DequeueWriteQueue q) \<and> queue_points (DequeueWriteQueue q) = tl (queue_points q)"
  proof -
    obtain st ws where q: "q = (st, ws)" by (cases q)
    show ?thesis
    proof (cases ws)
      case (Cons h r)
      then show ?thesis using w queue_points_update [of r st h "markDone False"]
        by (simp add: q queue_wf_def DequeueWriteQueue_def dequeue_def queue_points_def)
    qed (simp add: q queue_wf_def DequeueWriteQueue_def dequeue_def queue_points_def)
  qed
qed

subsection \<open>Items leave once\<close>

text \<open>An acknowledgement removes the head only, and only when the head's frame has been built and
  carries that message id.\<close>

lemma dequeue_ack:
  "dequeue (Some i) (st, q) = (case q of
     head # rest \<Rightarrow>
       if Message (st ! head) \<noteq> None \<and> MessageId (st ! head) = i
       then (Some head, update_item head (markDone True) st, rest) else (None, st, q)
   | [] \<Rightarrow> (None, st, q))"
  by (auto simp: dequeue_def split: list.split)

subsection \<open>Properties\<close>

text \<open>A device's pending writes leave its queue in the order they were queued: after any number
  of enqueued points, removing the head \<open>n\<close> times leaves the \<open>n\<close>-th oldest point at the head.\<close>

theorem pending_writes_fifo:
  assumes "queue_wf sq" "n < length (queue_points sq) + length pts"
  shows "head_point ((DequeueWriteQueue ^^ n) (fold EnqueueWriteQueue pts sq)) = Some ((queue_points sq @ pts) ! n)"
  by (rule pwq.front_after [OF assms])

theorem pending_writes_fifo_witness:
  "\<forall>p q. head_point ((DequeueWriteQueue ^^ 1) (fold EnqueueWriteQueue [p, q] ([], NewPointWriteQueue)))
     = Some ((queue_points ([], NewPointWriteQueue) @ [p, q]) ! 1)"
  by (intro allI pending_writes_fifo) (simp_all add: queue_wf_def NewPointWriteQueue_def)

end
