(* ===== verification/Aes_Block.thy ===== *)
theory Aes_Block
  imports Go_Prelude
begin

text \<open>
  The part of Go's \<^verbatim>\<open>crypto/aes\<close> and \<^verbatim>\<open>crypto/cipher\<close> that the module uses: the AES block
  cipher (FIPS-197) for keys of 16, 24 and 32 bytes and CBC chaining over whole blocks.
  Decryption inverts encryption; the chaining mode needs no more of the block cipher than the
  laws of the locale \<open>block_cipher\<close>, which AES is shown to have.
\<close>

unbundle bit_operations_syntax

subsection \<open>The S-box\<close>

definition sbox_table :: "byte list" where
  "sbox_table = [
     0x63, 0x7c, 0x77, 0x7b, 0xf2, 0x6b, 0x6f, 0xc5, 0x30, 0x01, 0x67, 0x2b, 0xfe, 0xd7, 0xab, 0x76,
     0xca, 0x82, 0xc9, 0x7d, 0xfa, 0x59, 0x47, 0xf0, 0xad, 0xd4, 0xa2, 0xaf, 0x9c, 0xa4, 0x72, 0xc0,
     0xb7, 0xfd, 0x93, 0x26, 0x36, 0x3f, 0xf7, 0xcc, 0x34, 0xa5, 0xe5, 0xf1, 0x71, 0xd8, 0x31, 0x15,
     0x04, 0xc7, 0x23, 0xc3, 0x18, 0x96, 0x05, 0x9a, 0x07, 0x12, 0x80, 0xe2, 0xeb, 0x27, 0xb2, 0x75,
     0x09, 0x83, 0x2c, 0x1a, 0x1b, 0x6e, 0x5a, 0xa0, 0x52, 0x3b, 0xd6, 0xb3, 0x29, 0xe3, 0x2f, 0x84,
     0x53, 0xd1, 0x00, 0xed, 0x20, 0xfc, 0xb1, 0x5b, 0x6a, 0xcb, 0xbe, 0x39, 0x4a, 0x4c, 0x58, 0xcf,
     0xd0, 0xef, 0xaa, 0xfb, 0x43, 0x4d, 0x33, 0x85, 0x45, 0xf9, 0x02, 0x7f, 0x50, 0x3c, 0x9f, 0xa8,
     0x51, 0xa3, 0x40, 0x8f, 0x92, 0x9d, 0x38, 0xf5, 0xbc, 0xb6, 0xda, 0x21, 0x10, 0xff, 0xf3, 0xd2,
     0xcd, 0x0c, 0x13, 0xec, 0x5f, 0x97, 0x44, 0x17, 0xc4, 0xa7, 0x7e, 0x3d, 0x64, 0x5d, 0x19, 0x73,
     0x60, 0x81, 0x4f, 0xdc, 0x22, 0x2a, 0x90, 0x88, 0x46, 0xee, 0xb8, 0x14, 0xde, 0x5e, 0x0b, 0xdb,
     0xe0, 0x32, 0x3a, 0x0a, 0x49, 0x06, 0x24, 0x5c, 0xc2, 0xd3, 0xac, 0x62, 0x91, 0x95, 0xe4, 0x79,
     0xe7, 0xc8, 0x37, 0x6d, 0x8d, 0xd5, 0x4e, 0xa9, 0x6c, 0x56, 0xf4, 0xea, 0x65, 0x7a, 0xae, 0x08,
     0xba, 0x78, 0x25, 0x2e, 0x1c, 0xa6, 0xb4, 0xc6, 0xe8, 0xdd, 0x74, 0x1f, 0x4b, 0xbd, 0x8b, 0x8a,
     0x70, 0x3e, 0xb5, 0x66, 0x48, 0x03, 0xf6, 0x0e, 0x61, 0x35, 0x57, 0xb9, 0x86, 0xc1, 0x1d, 0x9e,
     0xe1, 0xf8, 0x98, 0x11, 0x69, 0xd9, 0x8e, 0x94, 0x9b, 0x1e, 0x87, 0xe9, 0xce, 0x55, 0x28, 0xdf,
     0x8c, 0xa1, 0x89, 0x0d, 0xbf, 0xe6, 0x42, 0x68, 0x41, 0x99, 0x2d, 0x0f, 0xb0, 0x54, 0xbb, 0x16]"

definition inv_sbox_table :: "byte list" where
  "inv_sbox_table = [
     0x52, 0x09, 0x6a, 0xd5, 0x30, 0x36, 0xa5, 0x38, 0xbf, 0x40, 0xa3, 0x9e, 0x81, 0xf3, 0xd7, 0xfb,
     0x7c, 0xe3, 0x39, 0x82, 0x9b, 0x2f, 0xff, 0x87, 0x34, 0x8e, 0x43, 0x44, 0xc4, 0xde, 0xe9, 0xcb,
     0x54, 0x7b, 0x94, 0x32, 0xa6, 0xc2, 0x23, 0x3d, 0xee, 0x4c, 0x95, 0x0b, 0x42, 0xfa, 0xc3, 0x4e,
     0x08, 0x2e, 0xa1, 0x66, 0x28, 0xd9, 0x24, 0xb2, 0x76, 0x5b, 0xa2, 0x49, 0x6d, 0x8b, 0xd1, 0x25,
     0x72, 0xf8, 0xf6, 0x64, 0x86, 0x68, 0x98, 0x16, 0xd4, 0xa4, 0x5c, 0xcc, 0x5d, 0x65, 0xb6, 0x92,
     0x6c, 0x70, 0x48, 0x50, 0xfd, 0xed, 0xb9, 0xda, 0x5e, 0x15, 0x46, 0x57, 0xa7, 0x8d, 0x9d, 0x84,
     0x90, 0xd8, 0xab, 0x00, 0x8c, 0xbc, 0xd3, 0x0a, 0xf7, 0xe4, 0x58, 0x05, 0xb8, 0xb3, 0x45, 0x06,
     0xd0, 0x2c, 0x1e, 0x8f, 0xca, 0x3f, 0x0f, 0x02, 0xc1, 0xaf, 0xbd, 0x03, 0x01, 0x13, 0x8a, 0x6b,
     0x3a, 0x91, 0x11, 0x41, 0x4f, 0x67, 0xdc, 0xea, 0x97, 0xf2, 0xcf, 0xce, 0xf0, 0xb4, 0xe6, 0x73,
     0x96, 0xac, 0x74, 0x22, 0xe7, 0xad, 0x35, 0x85, 0xe2, 0xf9, 0x37, 0xe8, 0x1c, 0x75, 0xdf, 0x6e,
     0x47, 0xf1, 0x1a, 0x71, 0x1d, 0x29, 0xc5, 0x89, 0x6f, 0xb7, 0x62, 0x0e, 0xaa, 0x18, 0xbe, 0x1b,
     0xfc, 0x56, 0x3e, 0x4b, 0xc6, 0xd2, 0x79, 0x20, 0x9a, 0xdb, 0xc0, 0xfe, 0x78, 0xcd, 0x5a, 0xf4,
     0x1f, 0xdd, 0xa8, 0x33, 0x88, 0x07, 0xc7, 0x31, 0xb1, 0x12, 0x10, 0x59, 0x27, 0x80, 0xec, 0x5f,
     0x60, 0x51, 0x7f, 0xa9, 0x19, 0xb5, 0x4a, 0x0d, 0x2d, 0xe5, 0x7a, 0x9f, 0x93, 0xc9, 0x9c, 0xef,
     0xa0, 0xe0, 0x3b, 0x4d, 0xae, 0x2a, 0xf5, 0xb0, 0xc8, 0xeb, 0xbb, 0x3c, 0x83, 0x53, 0x99, 0x61,
     0x17, 0x2b, 0x04, 0x7e, 0xba, 0x77, 0xd6, 0x26, 0xe1, 0x69, 0x14, 0x63, 0x55, 0x21, 0x0c, 0x7d]"

definition sbox :: "byte \<Rightarrow> byte" where
  "sbox b = sbox_table ! unat b"

definition inv_sbox :: "byte \<Rightarrow> byte" where
  "inv_sbox b = inv_sbox_table ! unat b"

subsection \<open>Rounds\<close>

text \<open>Multiplication by \<open>x\<close> in the field of 256 elements, and by the constants of the round.\<close>

definition xtime :: "byte \<Rightarrow> byte" where
  "xtime b = push_bit 1 b XOR (if bit b 7 then 0x1b else 0)"

text \<open>The state is the list of its 16 bytes, column by column.\<close>

definition xor_bytes :: "byte list \<Rightarrow> byte list \<Rightarrow> byte list" where
  "xor_bytes xs ys = map2 (XOR) xs ys"

definition shift_rows :: "byte list \<Rightarrow> byte list" where
  "shift_rows s = map (\<lambda>i. s ! ((i + 4 * (i mod 4)) mod 16)) [0..<16]"

definition inv_shift_rows :: "byte list \<Rightarrow> byte list" where
  "inv_shift_rows s = map (\<lambda>i. s ! ((i + 16 - 4 * (i mod 4)) mod 16)) [0..<16]"

fun mix_columns :: "byte list \<Rightarrow> byte list" where
  "mix_columns (a # b # c # d # s) =
     (xtime a XOR (xtime b XOR b) XOR c XOR d) #
     (a XOR xtime b XOR (xtime c XOR c) XOR d) #
     (a XOR b XOR xtime c XOR (xtime d XOR d)) #
     ((xtime a XOR a) XOR b XOR c XOR xtime d) # mix_columns s"
| "mix_columns s = s"

definition mul9 :: "byte \<Rightarrow> byte" where "mul9 b = xtime (xtime (xtime b)) XOR b"
definition mul11 :: "byte \<Rightarrow> byte" where "mul11 b = xtime (xtime (xtime b)) XOR xtime b XOR b"
definition mul13 :: "byte \<Rightarrow> byte" where "mul13 b = xtime (xtime (xtime b)) XOR xtime (xtime b) XOR b"
definition mul14 :: "byte \<Rightarrow> byte" where "mul14 b = xtime (xtime (xtime b)) XOR xtime (xtime b) XOR xtime b"

fun inv_mix_columns :: "byte list \<Rightarrow> byte list" where
  "inv_mix_columns (a # b # c # d # s) =
     (mul14 a XOR mul11 b XOR mul13 c XOR mul9 d) #
     (mul9 a XOR mul14 b XOR mul11 c XOR mul13 d) #
     (mul13 a XOR mul9 b XOR mul14 c XOR mul11 d) #
     (mul11 a XOR mul13 b XOR mul9 c XOR mul14 d) # inv_mix_columns s"
| "inv_mix_columns s = s"

fun enc_rounds :: "byte list list \<Rightarrow> byte list \<Rightarrow> byte list" where
  "enc_rounds [] s = s"
| "enc_rounds [k] s = xor_bytes (shift_rows (map sbox s)) k"
| "enc_rounds (k # ks) s = enc_rounds ks (xor_bytes (mix_columns (shift_rows (map sbox s))) k)"

fun dec_rounds :: "byte list list \<Rightarrow> byte list \<Rightarrow> byte list" where
  "dec_rounds [] s = s"
| "dec_rounds [k] s = map inv_sbox (inv_shift_rows (xor_bytes s k))"
| "dec_rounds (k # ks) s = map inv_sbox (inv_shift_rows (inv_mix_columns (xor_bytes (dec_rounds ks s) k)))"

subsection \<open>Key expansion\<close>

text \<open>The expanded key as a list of 4-byte words; \<open>fuel\<close> is the number of words to add.\<close>

definition key_words :: "byte list \<Rightarrow> byte list list" where
  "key_words key = map (\<lambda>i. take 4 (drop (4 * i) key)) [0..<length key div 4]"

fun expand :: "nat \<Rightarrow> nat \<Rightarrow> byte \<Rightarrow> byte list list \<Rightarrow> byte list list" where
  "expand nk 0 rcon ws = ws"
| "expand nk (Suc fuel) rcon ws =
     (let i = length ws; t = last ws;
          t' = (if i mod nk = 0 then xor_bytes (map sbox (rotate1 t)) [rcon, 0, 0, 0]
                else if nk > 6 \<and> i mod nk = 4 then map sbox t else t);
          rcon' = (if i mod nk = 0 then xtime rcon else rcon)
      in expand nk fuel rcon' (ws @ [xor_bytes (ws ! (i - nk)) t']))"

definition num_rounds :: "byte list \<Rightarrow> nat" where
  "num_rounds key = length key div 4 + 6"

definition round_keys :: "byte list \<Rightarrow> byte list list" where
  "round_keys key =
     (let nk = length key div 4; nr = num_rounds key;
          ws = concat (expand nk (4 * (nr + 1) - nk) 1 (key_words key))
      in map (\<lambda>r. map (\<lambda>i. ws ! (16 * r + i)) [0..<16]) [0..<nr + 1])"

definition aes_encrypt :: "byte list \<Rightarrow> byte list \<Rightarrow> byte list" where
  "aes_encrypt key s = (let ks = round_keys key in enc_rounds (tl ks) (xor_bytes s (hd ks)))"

definition aes_decrypt :: "byte list \<Rightarrow> byte list \<Rightarrow> byte list" where
  "aes_decrypt key s = (let ks = round_keys key in xor_bytes (dec_rounds (tl ks) s) (hd ks))"

subsection \<open>Decryption inverts encryption\<close>

lemma sbox_inverse_table: "map (\<lambda>b. inv_sbox_table ! unat b) sbox_table = map word_of_nat [0..<256]"
  by code_simp

lemma length_sbox_table: "length sbox_table = 256"
  by (simp add: sbox_table_def)

lemma nth_map_upt_0: "i < n \<Longrightarrow> map f [0..<n] ! i = f i"
  by simp

lemma inv_sbox_sbox [simp]: "inv_sbox (sbox b) = b"
proof -
  have b: "unat b < 256" by (rule unat_byte_lt)
  have "map (\<lambda>b. inv_sbox_table ! unat b) sbox_table ! unat b = word_of_nat (unat b)"
    unfolding sbox_inverse_table by (rule nth_map_upt_0 [OF b])
  moreover have "map (\<lambda>b. inv_sbox_table ! unat b) sbox_table ! unat b = inv_sbox (sbox b)"
    using b by (simp only: inv_sbox_def sbox_def length_sbox_table nth_map)
  ultimately have "inv_sbox (sbox b) = word_of_nat (unat b)" by (rule trans [OF sym, rotated])
  also have "\<dots> = b" by simp
  finally show ?thesis .
qed

lemma xtime_xor: "xtime (a XOR b) = xtime a XOR xtime b"
  by (simp add: xtime_def bit_xor_iff push_bit_xor ac_simps)

lemma length_xor_bytes [simp]: "length (xor_bytes xs ys) = min (length xs) (length ys)"
  by (simp add: xor_bytes_def)

lemma nth_xor_bytes [simp]:
  "i < length xs \<Longrightarrow> i < length ys \<Longrightarrow> xor_bytes xs ys ! i = xs ! i XOR ys ! i"
  by (simp add: xor_bytes_def)

lemma xor_bytes_cancel [simp]: "length xs \<le> length ys \<Longrightarrow> xor_bytes (xor_bytes xs ys) ys = xs"
  by (rule nth_equalityI) (simp_all add: xor.assoc)

lemma length_shift_rows [simp]: "length (shift_rows s) = 16" "length (inv_shift_rows s) = 16"
  by (simp_all add: shift_rows_def inv_shift_rows_def)

lemma shift_index:
  "\<forall>i \<in> set [0..<16]. ((i + 16 - 4 * (i mod 4)) mod 16 + 4 * (((i + 16 - 4 * (i mod 4)) mod 16) mod 4)) mod 16 = (i :: nat)"
  by code_simp

lemma inv_shift_shift [simp]:
  assumes "length s = 16"
  shows "inv_shift_rows (shift_rows s) = s"
proof (rule nth_equalityI)
  fix i
  assume "i < length (inv_shift_rows (shift_rows s))"
  then have i: "i < 16" by simp
  let ?j = "(i + 16 - 4 * (i mod 4)) mod 16"
  have "(?j + 4 * (?j mod 4)) mod 16 = i"
    using shift_index i by (auto simp del: upt_rec_numeral)
  then show "inv_shift_rows (shift_rows s) ! i = s ! i"
    using i by (simp add: shift_rows_def inv_shift_rows_def)
qed (use assms in simp)

lemma length_mix_columns [simp]: "length (mix_columns s) = length s"
  by (induction s rule: mix_columns.induct) simp_all

lemma xor_twice: "(a :: byte) XOR (a XOR b) = b"
  by (simp flip: xor.assoc)

lemma inv_mix_mix [simp]: "inv_mix_columns (mix_columns s) = s"
proof (induction s rule: mix_columns.induct)
  case (1 a b c d s)
  then show ?case
    by (simp add: mul9_def mul11_def mul13_def mul14_def xtime_xor ac_simps xor_twice)
qed simp_all

lemma dec_enc_rounds:
  assumes "length s = 16" "\<forall>k \<in> set ks. length k = 16"
  shows "dec_rounds ks (enc_rounds ks s) = s"
  using assms
proof (induction ks s rule: enc_rounds.induct)
  case (2 k s)
  then show ?case by (simp add: comp_def)
next
  case (3 k k' ks s)
  let ?t = "xor_bytes (mix_columns (shift_rows (map sbox s))) k"
  have "dec_rounds (k' # ks) (enc_rounds (k' # ks) ?t) = ?t" by (rule "3.IH") (use "3.prems" in simp_all)
  then show ?case using "3.prems" by (simp add: comp_def)
qed simp

lemma length_enc_rounds:
  "length s = 16 \<Longrightarrow> \<forall>k \<in> set ks. length k = 16 \<Longrightarrow> length (enc_rounds ks s) = 16"
  by (induction ks s rule: enc_rounds.induct) simp_all

lemma round_keys_length: "k \<in> set (round_keys key) \<Longrightarrow> length k = 16" "round_keys key \<noteq> []"
  by (auto simp: round_keys_def Let_def)

lemma aes_keys:
  "length (hd (round_keys key)) = 16" "\<forall>k \<in> set (tl (round_keys key)). length k = 16"
  using round_keys_length by (auto dest: list.set_sel)

lemma length_aes_encrypt: "length s = 16 \<Longrightarrow> length (aes_encrypt key s) = 16"
  by (simp add: aes_encrypt_def Let_def length_enc_rounds aes_keys)

lemma length_dec_rounds: "length s = 16 \<Longrightarrow> length (dec_rounds ks s) = 16"
  by (cases "(ks, s)" rule: dec_rounds.cases) simp_all

lemma length_aes_decrypt: "length s = 16 \<Longrightarrow> length (aes_decrypt key s) = 16"
  by (simp add: aes_decrypt_def Let_def length_dec_rounds aes_keys)

lemma aes_decrypt_encrypt: "length s = 16 \<Longrightarrow> aes_decrypt key (aes_encrypt key s) = s"
  by (simp add: aes_encrypt_def aes_decrypt_def Let_def dec_enc_rounds aes_keys)

text \<open>The key schedule fills every round key (no read beyond the expanded key).\<close>

lemma expand_lengths:
  assumes "0 < nk" "nk \<le> length ws" "\<forall>w \<in> set ws. length w = 4"
  shows "length (expand nk fuel rcon ws) = length ws + fuel \<and> (\<forall>w \<in> set (expand nk fuel rcon ws). length w = 4)"
  using assms(2,3)
proof (induction fuel arbitrary: rcon ws)
  case (Suc fuel)
  let ?t = "last ws"
  have ne: "ws \<noteq> []" using Suc.prems(1) assms(1) by auto
  have "length ?t = 4" using Suc.prems(2) ne by simp
  moreover have "length (ws ! (length ws - nk)) = 4" using Suc.prems ne assms(1) by (simp add: nth_mem)
  ultimately obtain r w where step: "expand nk (Suc fuel) rcon ws = expand nk fuel r (ws @ [w])" and w: "length w = 4"
    by (cases "ws ! (length ws - nk)") (auto simp: Let_def intro!: that)
  show ?case using Suc.IH [of "ws @ [w]" r] Suc.prems w unfolding step by simp
qed simp

lemma concat_length: "\<forall>w \<in> set ws. length w = n \<Longrightarrow> length (concat ws) = n * length ws"
  by (induction ws) simp_all

lemma round_keys_complete:
  assumes "length key \<in> {16, 24, 32}"
  shows "length (concat (expand (length key div 4) (4 * (num_rounds key + 1) - length key div 4) 1 (key_words key)))
    = 16 * length (round_keys key)"
proof -
  let ?nk = "length key div 4"
  have nk: "0 < ?nk" "?nk \<le> 4 * (num_rounds key + 1)" using assms by (auto simp: num_rounds_def)
  have "4 * ?nk = length key" using assms by auto
  then have kw: "length (key_words key) = ?nk" "\<forall>w \<in> set (key_words key). length w = 4"
    by (auto simp: key_words_def)
  define ws where "ws = expand ?nk (4 * (num_rounds key + 1) - ?nk) 1 (key_words key)"
  have ex: "length ws = length (key_words key) + (4 * (num_rounds key + 1) - ?nk) \<and> (\<forall>w \<in> set ws. length w = 4)"
    unfolding ws_def by (rule expand_lengths [OF nk(1) _ kw(2)]) (simp only: kw(1) order_refl)
  have "length ws = ?nk + (4 * (num_rounds key + 1) - ?nk)" by (rule trans [OF conjunct1 [OF ex]]) (simp only: kw(1))
  also have "\<dots> = 4 * (num_rounds key + 1)" by (rule le_add_diff_inverse [OF nk(2)])
  finally have len: "length ws = 4 * (num_rounds key + 1)" .
  have "length (concat ws) = 4 * length ws" by (rule concat_length [OF conjunct2 [OF ex]])
  also have "\<dots> = 16 * (num_rounds key + 1)" unfolding len by simp
  also have "num_rounds key + 1 = length (round_keys key)" by (simp add: round_keys_def Let_def)
  finally show ?thesis unfolding ws_def .
qed

subsection \<open>CBC mode\<close>

text \<open>
  \<^verbatim>\<open>cipher.NewCBCEncrypter(block, iv).CryptBlocks\<close>: the caller has to pass whole blocks;
  anything else panics (\<open>None\<close>).
\<close>

fun cbc_encrypt :: "(byte list \<Rightarrow> byte list) \<Rightarrow> byte list \<Rightarrow> byte list \<Rightarrow> byte list" where
  "cbc_encrypt E iv [] = []"
| "cbc_encrypt E iv (x # xs) =
     (let c = E (xor_bytes (take 16 (x # xs)) iv) in c @ cbc_encrypt E c (drop 15 xs))"

fun cbc_decrypt :: "(byte list \<Rightarrow> byte list) \<Rightarrow> byte list \<Rightarrow> byte list \<Rightarrow> byte list" where
  "cbc_decrypt D iv [] = []"
| "cbc_decrypt D iv (x # xs) =
     (let c = take 16 (x # xs) in xor_bytes (D c) iv @ cbc_decrypt D c (drop 15 xs))"

definition CryptBlocks :: "(byte list \<Rightarrow> byte list) \<Rightarrow> byte list \<Rightarrow> byte list option" where
  "CryptBlocks f data = (if length data mod 16 = 0 then Some (f data) else None)"

locale block_cipher =
  fixes enc dec :: "'k \<Rightarrow> byte list \<Rightarrow> byte list"
  assumes dec_enc: "length b = 16 \<Longrightarrow> dec k (enc k b) = b"
    and length_enc: "length b = 16 \<Longrightarrow> length (enc k b) = 16"
    and length_dec: "length b = 16 \<Longrightarrow> length (dec k b) = 16"
begin

lemma cbc_cons:
  assumes "length b = 16"
  shows "cbc_encrypt E iv (b @ xs) = E (xor_bytes b iv) @ cbc_encrypt E (E (xor_bytes b iv)) xs"
    "cbc_decrypt D iv (b @ xs) = xor_bytes (D b) iv @ cbc_decrypt D b xs"
proof -
  obtain y ys where b: "b = y # ys" using assms by (cases b) auto
  show "cbc_encrypt E iv (b @ xs) = E (xor_bytes b iv) @ cbc_encrypt E (E (xor_bytes b iv)) xs"
    "cbc_decrypt D iv (b @ xs) = xor_bytes (D b) iv @ cbc_decrypt D b xs"
    using assms by (simp_all add: b Let_def)
qed

lemma cbc_roundtrip:
  assumes "length xs = 16 * n" "length iv = 16"
  shows "cbc_decrypt (dec k) iv (cbc_encrypt (enc k) iv xs) = xs \<and> length (cbc_encrypt (enc k) iv xs) = length xs"
  using assms
proof (induction n arbitrary: xs iv)
  case (Suc n)
  define b ys where "b = take 16 xs" and "ys = drop 16 xs"
  have xs: "xs = b @ ys" and b: "length b = 16" and ys: "length ys = 16 * n"
    using Suc.prems by (simp_all add: b_def ys_def)
  let ?c = "enc k (xor_bytes b iv)"
  have c: "length ?c = 16" using b Suc.prems(2) by (simp add: length_enc)
  have IH: "cbc_decrypt (dec k) ?c (cbc_encrypt (enc k) ?c ys) = ys" "length (cbc_encrypt (enc k) ?c ys) = length ys"
    using Suc.IH [OF ys c] by auto
  have "xor_bytes (dec k ?c) iv = b" using b Suc.prems(2) by (simp add: dec_enc)
  then show ?case using b c IH by (simp add: xs cbc_cons)
qed simp

lemma length_cbc_decrypt:
  assumes "length xs = 16 * n" "length iv = 16"
  shows "length (cbc_decrypt (dec k) iv xs) = length xs"
  using assms
proof (induction n arbitrary: xs iv)
  case (Suc n)
  define b ys where "b = take 16 xs" and "ys = drop 16 xs"
  have xs: "xs = b @ ys" and b: "length b = 16" and ys: "length ys = 16 * n"
    using Suc.prems by (simp_all add: b_def ys_def)
  show ?case using b Suc.prems(2) Suc.IH [OF ys b] by (simp add: xs cbc_cons length_dec)
qed simp

end

interpretation aes: block_cipher aes_encrypt aes_decrypt
  by unfold_locales (simp_all add: aes_decrypt_encrypt length_aes_encrypt length_aes_decrypt)

subsection \<open>Properties\<close>

text \<open>CBC decryption under the same key inverts CBC encryption of any whole number of
  blocks, and keeps the length.\<close>

theorem aes_cbc_roundtrip:
  assumes "length xs = 16 * n" "length iv = 16"
  shows "cbc_decrypt (aes_decrypt key) iv (cbc_encrypt (aes_encrypt key) iv xs) = xs
    \<and> length (cbc_encrypt (aes_encrypt key) iv xs) = length xs"
  by (rule aes.cbc_roundtrip [OF assms])

theorem aes_cbc_roundtrip_witness:
  "cbc_decrypt (aes_decrypt []) (replicate 16 0) (cbc_encrypt (aes_encrypt []) (replicate 16 0) (replicate 32 7)) = replicate 32 7
   \<and> length (cbc_encrypt (aes_encrypt []) (replicate 16 0) (replicate 32 7)) = length (replicate 32 (7 :: byte))"
  by (rule aes_cbc_roundtrip [of _ 2]) simp_all

end
