(* ===== verification/Aes_Utils.thy ===== *)
theory Aes_Utils
  imports Aes_Block
begin

text \<open>
  aesutils/aesutils.go and the frame layout of utils/utils.go: encrypted LoRaRAW frames
  (address, CBC ciphertext of opts, nonce, length and payload, truncated CMAC), their
  authentication and decryption, and the accessors of a decrypted frame.

  \<open>cmac_sum\<close> is the CMAC of github.com/enceve/crypto/cmac, which is not under src/: a
  parameter \<open>mac\<close> of key and message.  The code relies on its result having at least four
  bytes (a CMAC over AES has sixteen); this is the hypothesis \<open>mac_ok\<close>.
\<close>

type_synonym cmac_fn = "byte list \<Rightarrow> byte list \<Rightarrow> byte list"

definition mac_ok :: "cmac_fn \<Rightarrow> bool" where
  "mac_ok mac \<longleftrightarrow> (\<forall>key msg. 4 \<le> length (mac key msg))"

subsection \<open>Constants\<close>

abbreviation (input) LoraRawCmacLen :: nat where "LoraRawCmacLen \<equiv> 4"
abbreviation (input) LoraRawHeaderLen :: nat where "LoraRawHeaderLen \<equiv> 4"
abbreviation (input) LORARAW_OPTS_POSITION :: nat where "LORARAW_OPTS_POSITION \<equiv> 4"
abbreviation (input) LORARAW_NONCE_POSITION :: nat where "LORARAW_NONCE_POSITION \<equiv> 5"
abbreviation (input) LORARAW_LENGTH_POSITION :: nat where "LORARAW_LENGTH_POSITION \<equiv> 6"
abbreviation (input) LORARAW_PAYLOAD_START :: nat where "LORARAW_PAYLOAD_START \<equiv> 7"
abbreviation (input) LORARAW_HEADER_LEN :: nat where "LORARAW_HEADER_LEN \<equiv> 4"

abbreviation (input) LORARAW_OPTS_UNCONFIRMED_UPLINK :: byte where "LORARAW_OPTS_UNCONFIRMED_UPLINK \<equiv> 0"
abbreviation (input) LORARAW_OPTS_CONFIRMED_UPLINK :: byte where "LORARAW_OPTS_CONFIRMED_UPLINK \<equiv> 1"
abbreviation (input) LORARAW_OPTS_ACK :: byte where "LORARAW_OPTS_ACK \<equiv> 2"
abbreviation (input) LORARAW_OPTS_REQUEST :: byte where "LORARAW_OPTS_REQUEST \<equiv> 3"
abbreviation (input) LORARAW_OPTS_RESPONSE :: byte where "LORARAW_OPTS_RESPONSE \<equiv> 4"

definition iv :: "byte list" where
  "iv = replicate 16 0"

text \<open>\<^verbatim>\<open>aes.NewCipher\<close> accepts exactly the three AES key sizes.\<close>

definition NewCipher :: "byte list \<Rightarrow> goerr option" where
  "NewCipher key =
     (if length key = 16 \<or> length key = 24 \<or> length key = 32 then None
      else Some (ErrMsg (''crypto/aes: invalid key size '' @ itoa (int (length key)))))"

subsection \<open>CMAC of a frame\<close>

text \<open>
  The two writes cover \<^verbatim>\<open>data[:16]\<close> and \<^verbatim>\<open>data[4:]\<close> (the bytes between 4 and 16 twice).  Data
  shorter than 16 bytes panics.
\<close>

definition prepareCMAC :: "cmac_fn \<Rightarrow> byte list \<Rightarrow> byte list \<Rightarrow> (goerr + byte list) option" where
  "prepareCMAC mac data key =
     (case NewCipher key of
        Some err \<Rightarrow> Some (Inl err)
      | None \<Rightarrow> do {
          a \<leftarrow> go_slice data 0 16;
          b \<leftarrow> go_slice data 4 (length data);
          m \<leftarrow> go_slice (mac key (a @ b)) 0 4;
          Some (Inr m) })"

definition CmacUnencrypted :: "cmac_fn \<Rightarrow> byte list \<Rightarrow> byte list \<Rightarrow> (goerr + byte list) option" where
  "CmacUnencrypted mac data key =
     (case NewCipher key of
        Some err \<Rightarrow> Some (Inl err)
      | None \<Rightarrow> map_option Inr (go_slice (mac key data) 0 4))"

subsection \<open>Encrypt and Decrypt\<close>

definition zero_pad :: "byte list \<Rightarrow> byte list" where
  "zero_pad data = (if length data mod 16 \<noteq> 0 then data @ replicate (16 - length data mod 16) 0 else data)"

definition Encrypt :: "cmac_fn \<Rightarrow> string \<Rightarrow> byte list \<Rightarrow> byte list \<Rightarrow> byte \<Rightarrow> byte \<Rightarrow> (goerr + byte list) option" where
  "Encrypt mac address data key opts nonce =
     (let data = [opts] @ [nonce] @ [word_of_nat (length data)] @ data in
      case NewCipher key of
        Some err \<Rightarrow> Some (Inl err)
      | None \<Rightarrow> do {
          encrypted \<leftarrow> CryptBlocks (cbc_encrypt (aes_encrypt key) iv) (zero_pad data);
          (case hex_decode address of
             (addressBytes, Some err) \<Rightarrow> Some (Inl err)
           | (addressBytes, None) \<Rightarrow>
               (let encryptedData = addressBytes @ encrypted in do {
                  r \<leftarrow> prepareCMAC mac encryptedData key;
                  (case r of
                     Inl err \<Rightarrow> Some (Inl err)
                   | Inr m \<Rightarrow> Some (Inr (encryptedData @ m))) })) })"

text \<open>
  Go's \<^verbatim>\<open>append(data[:4], decrypted...)\<close> reuses the backing array of the frame, so on success
  the caller's slice holds the plaintext afterwards; the bytes it ends up with are those of
  the result (\<open>frame_after_decrypt\<close> in the dispatcher's model).
\<close>

definition Decrypt :: "cmac_fn \<Rightarrow> byte list \<Rightarrow> byte list \<Rightarrow> (goerr + byte list) option" where
  "Decrypt mac data key =
     (if length data < LoraRawCmacLen then None
      else do {
        cm \<leftarrow> go_slice data (length data - LoraRawCmacLen) (length data);
        body \<leftarrow> go_slice data 0 (length data - LoraRawCmacLen);
        r \<leftarrow> prepareCMAC mac body key;
        (case r of
           Inl err \<Rightarrow> Some (Inl (ErrWrap ''CMAC generation failed: '' err))
         | Inr cmacTest \<Rightarrow>
             if cm \<noteq> cmacTest then Some (Inl (ErrMsg ''incorrect CMAC or Key''))
             else (case NewCipher key of
                 Some err \<Rightarrow> Some (Inl err)
               | None \<Rightarrow> do {
                   c \<leftarrow> go_slice data LoraRawHeaderLen (length data - LoraRawCmacLen);
                   decrypted \<leftarrow> CryptBlocks (cbc_decrypt (aes_decrypt key) iv) c;
                   h \<leftarrow> go_slice data 0 LoraRawHeaderLen;
                   Some (Inr (h @ decrypted @ cm)) })) })"

definition DecryptLegacy :: "byte list \<Rightarrow> byte list \<Rightarrow> (goerr + byte list) option" where
  "DecryptLegacy data key =
     (if length data < 16 then Some (Inl (ErrMsg ''invalid data length for DecryptLegacy''))
      else (case NewCipher key of
          Some err \<Rightarrow> Some (Inl err)
        | None \<Rightarrow>
            (let decLength = length data - length data mod 16 in do {
               a \<leftarrow> go_slice data 0 decLength;
               decrypted \<leftarrow> CryptBlocks (cbc_decrypt (aes_decrypt key) iv) a;
               rest \<leftarrow> go_slice data decLength (length data);
               Some (Inr (decrypted @ rest)) })))"

subsection \<open>utils.go: the decrypted frame\<close>

definition GetLoRaRAWInnerPayloadLength :: "byte list \<Rightarrow> nat option" where
  "GetLoRaRAWInnerPayloadLength data = map_option unat (go_index data LORARAW_LENGTH_POSITION)"

definition CheckLoRaRAWPayloadLength :: "byte list \<Rightarrow> bool option" where
  "CheckLoRaRAWPayloadLength data = do {
     innerDataLength \<leftarrow> GetLoRaRAWInnerPayloadLength data;
     Some (int innerDataLength \<le> int (length data) - 9) }"

definition StripLoRaRAWPayload :: "byte list \<Rightarrow> byte list option" where
  "StripLoRaRAWPayload data = do {
     n \<leftarrow> GetLoRaRAWInnerPayloadLength data;
     go_slice data LORARAW_PAYLOAD_START (LORARAW_PAYLOAD_START + n) }"

subsection \<open>Lemmas\<close>

lemma length_iv [simp]: "length iv = 16"
  by (simp add: iv_def)

lemma NewCipher_None [simp]: "length key \<in> {16, 24, 32} \<Longrightarrow> NewCipher key = None"
  by (auto simp: NewCipher_def)

lemma NewCipher_None_iff: "NewCipher key = None \<longleftrightarrow> length key \<in> {16, 24, 32}"
  by (auto simp: NewCipher_def)

lemma zero_pad_mod: "length (zero_pad data) mod 16 = 0"
proof (cases "length data mod 16 = 0")
  case False
  have "(length data + (16 - length data mod 16)) mod 16 = 0" by presburger
  then show ?thesis using False by (simp add: zero_pad_def)
qed (simp add: zero_pad_def)

lemma zero_pad_prefix: "\<exists>z. zero_pad data = data @ replicate z 0 \<and> z < 16"
proof (cases "length data mod 16 = 0")
  case True
  then show ?thesis by (intro exI [of _ 0]) (simp add: zero_pad_def)
next
  case False
  then show ?thesis by (intro exI [of _ "16 - length data mod 16"]) (simp add: zero_pad_def)
qed

lemma zero_pad_length: "length data \<le> length (zero_pad data)" "data \<noteq> [] \<Longrightarrow> 16 \<le> length (zero_pad data)"
proof -
  show "length data \<le> length (zero_pad data)" using zero_pad_prefix [of data] by auto
  assume "data \<noteq> []"
  then have "0 < length (zero_pad data)" using zero_pad_prefix [of data] by auto
  then show "16 \<le> length (zero_pad data)" using zero_pad_mod [of data] by (simp add: mod_eq_0_iff_dvd dvd_imp_le)
qed

text \<open>The plaintext block of a frame: opts, nonce, length byte, payload, zero padding.\<close>

definition inner_block :: "byte list \<Rightarrow> byte \<Rightarrow> byte \<Rightarrow> byte list" where
  "inner_block payload opts nonce = zero_pad ([opts, nonce, word_of_nat (length payload)] @ payload)"

lemma inner_block_bounds:
  "length (inner_block payload opts nonce) mod 16 = 0" "16 \<le> length (inner_block payload opts nonce)"
  "3 + length payload \<le> length (inner_block payload opts nonce)"
  using zero_pad_mod zero_pad_length [of "[opts, nonce, word_of_nat (length payload)] @ payload"]
  by (simp_all add: inner_block_def)

lemma cbc_inner:
  fixes key :: "byte list"
  assumes "length xs mod 16 = 0"
  shows "cbc_decrypt (aes_decrypt key) iv (cbc_encrypt (aes_encrypt key) iv xs) = xs"
    "length (cbc_encrypt (aes_encrypt key) iv xs) = length xs"
proof -
  obtain n where n: "length xs = 16 * n" using assms by auto
  show "cbc_decrypt (aes_decrypt key) iv (cbc_encrypt (aes_encrypt key) iv xs) = xs"
    "length (cbc_encrypt (aes_encrypt key) iv xs) = length xs"
    using aes.cbc_roundtrip [OF n length_iv, of key] by simp_all
qed

text \<open>What \<open>Encrypt\<close> sends for a four-byte address.\<close>

definition sealed_frame :: "cmac_fn \<Rightarrow> byte list \<Rightarrow> byte list \<Rightarrow> byte list \<Rightarrow> byte list" where
  "sealed_frame mac key addr inner =
     (let e = addr @ cbc_encrypt (aes_encrypt key) iv inner in e @ take 4 (mac key (take 16 e @ drop 4 e)))"

lemma prepareCMAC_ok:
  assumes "mac_ok mac" "length key \<in> {16, 24, 32}" "16 \<le> length data"
  shows "prepareCMAC mac data key = Some (Inr (take 4 (mac key (take 16 data @ drop 4 data))))"
  using assms(1,3) NewCipher_None [OF assms(2)] by (simp add: prepareCMAC_def mac_ok_def)

lemma Encrypt_seals:
  assumes "mac_ok mac" "length key \<in> {16, 24, 32}" "hex_decode address = (addr, None)"
  shows "Encrypt mac address payload key opts nonce
    = Some (Inr (sealed_frame mac key addr (inner_block payload opts nonce)))"
proof -
  let ?in = "inner_block payload opts nonce"
  have c: "length (cbc_encrypt (aes_encrypt key) iv ?in) = length ?in"
    by (rule cbc_inner(2) [OF inner_block_bounds(1)])
  have "16 \<le> length (addr @ cbc_encrypt (aes_encrypt key) iv ?in)"
    using inner_block_bounds(2) [of payload opts nonce] c by simp
  from prepareCMAC_ok [OF assms(1,2) this] show ?thesis
    using NewCipher_None [OF assms(2)] assms(3) inner_block_bounds(1) [of payload opts nonce]
    by (simp add: Encrypt_def CryptBlocks_def sealed_frame_def inner_block_def Let_def)
qed

lemma Decrypt_sealed:
  assumes "mac_ok mac" "length key \<in> {16, 24, 32}" "length addr = 4" "length inner mod 16 = 0" "16 \<le> length inner"
  shows "\<exists>cm. length cm = 4 \<and> Decrypt mac (sealed_frame mac key addr inner) key = Some (Inr (addr @ inner @ cm))"
proof -
  define c where "c = cbc_encrypt (aes_encrypt key) iv inner"
  define cm where "cm = take 4 (mac key (take 16 (addr @ c) @ drop 4 (addr @ c)))"
  have c: "length c = length inner" "cbc_decrypt (aes_decrypt key) iv c = inner"
    using cbc_inner [OF assms(4), of key] by (simp_all add: c_def)
  have cm4: "length cm = 4" using assms(1) by (simp add: cm_def mac_ok_def)
  have fr: "sealed_frame mac key addr inner = addr @ c @ cm"
    by (simp add: sealed_frame_def c_def cm_def Let_def)
  have "16 \<le> length (addr @ c)" using c(1) assms(5) by simp
  from prepareCMAC_ok [OF assms(1,2) this] have pc: "prepareCMAC mac (addr @ c) key = Some (Inr cm)"
    by (simp add: cm_def)
  have "Decrypt mac (addr @ c @ cm) key = Some (Inr (addr @ inner @ cm))"
    using NewCipher_None [OF assms(2)] pc c cm4 assms(3,4) by (simp add: Decrypt_def CryptBlocks_def)
  then show ?thesis using cm4 fr by auto
qed

subsection \<open>The decrypted frame\<close>

text \<open>Header, opts, nonce, length byte and payload of a decrypted frame.\<close>

lemma inner_block_append:
  "\<exists>z. inner_block payload opts nonce = opts # nonce # word_of_nat (length payload) # payload @ replicate z 0"
  using zero_pad_prefix [of "[opts, nonce, word_of_nat (length payload)] @ payload"]
  by (auto simp: inner_block_def)

lemma unat_length_byte: "unat (word_of_nat n :: byte) = n mod 256"
  by (simp add: unat_of_nat)

lemma strip_inner:
  assumes "length addr = 4" "dec = addr @ inner_block payload opts nonce @ cm"
  shows "StripLoRaRAWPayload dec = Some (take (length payload mod 256) payload)"
    "dec ! 4 = opts" "dec ! 5 = nonce" "take 4 dec = addr" "11 + length payload \<le> length dec + 4 - length cm"
proof -
  obtain z where z: "inner_block payload opts nonce = opts # nonce # word_of_nat (length payload) # payload @ replicate z 0"
    using inner_block_append by blast
  obtain a b c d where addr: "addr = [a, b, c, d]" using assms(1) by (auto simp: length_Suc_conv eval_nat_numeral)
  have dec: "dec = a # b # c # d # opts # nonce # word_of_nat (length payload) # payload @ replicate z 0 @ cm"
    using assms(2) by (simp add: z addr)
  have le: "length payload mod 256 \<le> length payload" by simp
  show "StripLoRaRAWPayload dec = Some (take (length payload mod 256) payload)"
    using le by (simp add: StripLoRaRAWPayload_def GetLoRaRAWInnerPayloadLength_def dec unat_length_byte)
  show "dec ! 4 = opts" "dec ! 5 = nonce" "take 4 dec = addr" "11 + length payload \<le> length dec + 4 - length cm"
    by (simp_all add: dec addr)
qed

lemma CheckLength_iff:
  "CheckLoRaRAWPayloadLength data = Some True \<longleftrightarrow> 9 + unat (data ! 6) \<le> length data"
proof (cases "6 < length data")
  case True
  have "int (unat (data ! 6)) \<le> int (length data) - 9 \<longleftrightarrow> 9 + unat (data ! 6) \<le> length data" by linarith
  then show ?thesis using True by (simp only: CheckLoRaRAWPayloadLength_def GetLoRaRAWInnerPayloadLength_def
      go_index_Some option.map Option.bind.simps option.inject simp_thms)
next
  case False
  then show ?thesis by (simp add: CheckLoRaRAWPayloadLength_def GetLoRaRAWInnerPayloadLength_def)
qed

lemma Strip_checked:
  assumes "CheckLoRaRAWPayloadLength data = Some True"
  shows "StripLoRaRAWPayload data = Some (take (unat (data ! 6)) (drop 7 data))"
proof -
  have "9 + unat (data ! 6) \<le> length data" using assms CheckLength_iff by blast
  then show ?thesis by (simp add: StripLoRaRAWPayload_def GetLoRaRAWInnerPayloadLength_def)
qed

text \<open>A result of \<open>Decrypt\<close> is authenticated: the frame's last four bytes are its CMAC.\<close>

lemma Decrypt_authentic:
  assumes "Decrypt mac data key = Some (Inr d)"
  shows "length key \<in> {16, 24, 32} \<and> 20 \<le> length data
    \<and> drop (length data - 4) data = take 4 (mac key (take 16 (take (length data - 4) data) @ drop 4 (take (length data - 4) data)))
    \<and> length data mod 16 = 8
    \<and> d = take 4 data @ cbc_decrypt (aes_decrypt key) iv (drop 4 (take (length data - 4) data)) @ drop (length data - 4) data"
proof -
  have l4: "4 \<le> length data" using assms by (auto simp: Decrypt_def split: if_splits)
  have nc: "NewCipher key = None"
    using assms by (auto simp: Decrypt_def prepareCMAC_def split: if_splits option.splits bind_splits sum.splits)
  define body cm where "body = take (length data - 4) data" and "cm = drop (length data - 4) data"
  have sl: "go_slice data 0 (length data - 4) = Some body" "go_slice data (length data - 4) (length data) = Some cm"
    "go_slice data 0 4 = Some (take 4 data)" "go_slice data 4 (length data - 4) = (if 8 \<le> length data then Some (drop 4 body) else None)"
    using l4 by (auto simp: go_slice_def body_def cm_def drop_take)
  have n4: "(length data < 4) = False" using l4 by simp
  have lb: "length body = length data - 4" by (simp add: body_def)
  have D: "Decrypt mac data key = do {
      r \<leftarrow> prepareCMAC mac body key;
      case r of Inl err \<Rightarrow> Some (Inl (ErrWrap ''CMAC generation failed: '' err))
      | Inr cmacTest \<Rightarrow> if cm \<noteq> cmacTest then Some (Inl (ErrMsg ''incorrect CMAC or Key''))
          else do { c \<leftarrow> (if 8 \<le> length data then Some (drop 4 body) else None);
                    decrypted \<leftarrow> CryptBlocks (cbc_decrypt (aes_decrypt key) iv) c;
                    Some (Inr (take 4 data @ decrypted @ cm)) } }"
    using n4 by (simp only: Decrypt_def sl nc option.case Option.bind.simps if_False)
  have "prepareCMAC mac body key = (if 16 \<le> length body then
      do { m \<leftarrow> go_slice (mac key (take 16 body @ drop 4 body)) 0 4; Some (Inr m) } else None)"
    using nc by (auto simp: prepareCMAC_def go_slice_def)
  with assms D have pc: "16 \<le> length body" "cm = take 4 (mac key (take 16 body @ drop 4 body))"
    by (auto simp: go_slice_def split: if_splits bind_splits)
  have r: "\<exists>x. CryptBlocks (cbc_decrypt (aes_decrypt key) iv) (drop 4 body) = Some x \<and> d = take 4 data @ x @ cm"
    using assms D pc \<open>prepareCMAC mac body key = _\<close> by (auto simp: go_slice_def split: if_splits bind_splits)
  then have m: "length (drop 4 body) mod 16 = 0"
    and d: "d = take 4 data @ cbc_decrypt (aes_decrypt key) iv (drop 4 body) @ cm"
    by (auto simp: CryptBlocks_def split: if_splits)
  have "length data mod 16 = 8" using m pc(1) lb by simp presburger
  then show ?thesis using nc pc d lb unfolding body_def cm_def by (simp add: NewCipher_None_iff)
qed

subsection \<open>Properties\<close>

text \<open>C32: Encrypting a payload for a four-byte address and decrypting the frame with the same
  key succeeds for every AES key size; the decrypted frame carries the address, opts and nonce,
  passes the length check when the payload has at most 255 bytes, and stripping it gives back
  the payload (its first \<open>length mod 256\<close> bytes in general: the length field is one byte).\<close>

theorem encrypt_decrypt_roundtrip:
  assumes "mac_ok mac" "length key \<in> {16, 24, 32}" "hex_decode address = (addr, None)" "length addr = 4"
  shows "\<exists>frame dec. Encrypt mac address payload key opts nonce = Some (Inr frame)
    \<and> Decrypt mac frame key = Some (Inr dec)
    \<and> take 4 dec = addr \<and> dec ! 4 = opts \<and> dec ! 5 = nonce
    \<and> StripLoRaRAWPayload dec = Some (take (length payload mod 256) payload)
    \<and> CheckLoRaRAWPayloadLength dec = Some True"
proof -
  let ?in = "inner_block payload opts nonce"
  obtain cm where cm: "length cm = 4" "Decrypt mac (sealed_frame mac key addr ?in) key = Some (Inr (addr @ ?in @ cm))"
    using Decrypt_sealed [OF assms(1,2,4) inner_block_bounds(1,2)] by blast
  note s = strip_inner [OF assms(4) refl, of payload opts nonce cm]
  have "(addr @ ?in @ cm) ! 6 = word_of_nat (length payload)"
    using inner_block_append [of payload opts nonce] assms(4) by (auto simp: nth_append eval_nat_numeral)
  then have "9 + unat ((addr @ ?in @ cm) ! 6) \<le> length (addr @ ?in @ cm)"
    using s(5) cm(1) mod_less_eq_dividend [of "length payload" 256] by (simp add: unat_length_byte)
  then have "CheckLoRaRAWPayloadLength (addr @ ?in @ cm) = Some True" by (simp only: CheckLength_iff)
  then show ?thesis using s(1-4) cm(2) Encrypt_seals [OF assms(1-3)] by blast
qed

theorem encrypt_decrypt_roundtrip_witness:
  "\<exists>frame dec. Encrypt (\<lambda>k m. replicate 16 0xab) ''c0FFee01'' [1, 2, 3] (replicate 16 7) 3 42 = Some (Inr frame)
    \<and> Decrypt (\<lambda>k m. replicate 16 0xab) frame (replicate 16 7) = Some (Inr dec)
    \<and> take 4 dec = [0xc0, 0xff, 0xee, 0x01] \<and> dec ! 4 = 3 \<and> dec ! 5 = 42
    \<and> StripLoRaRAWPayload dec = Some (take (length [1, 2, 3 :: byte] mod 256) [1, 2, 3])
    \<and> CheckLoRaRAWPayloadLength dec = Some True"
  by (rule encrypt_decrypt_roundtrip) (simp_all add: mac_ok_def hex_val_def digit_val_def)

text \<open>C33: Decryption accepts only authenticated frames: the key has an AES size, the frame is a
  four-byte header, whole blocks and four bytes equal to the truncated CMAC of the rest under
  this key, and the result is the header, the CBC plaintext of exactly those blocks, and the
  CMAC.\<close>

theorem decrypt_only_authentic:
  assumes "Decrypt mac data key = Some (Inr d)"
  shows "length key \<in> {16, 24, 32} \<and> 20 \<le> length data
    \<and> drop (length data - 4) data = take 4 (mac key (take 16 (take (length data - 4) data) @ drop 4 (take (length data - 4) data)))
    \<and> length data mod 16 = 8
    \<and> d = take 4 data @ cbc_decrypt (aes_decrypt key) iv (drop 4 (take (length data - 4) data)) @ drop (length data - 4) data"
  by (rule Decrypt_authentic [OF assms])

theorem decrypt_only_authentic_witness:
  "\<exists>data key d. Decrypt (\<lambda>k m. replicate 16 0xab) data key = Some (Inr d)
    \<and> length key \<in> {16, 24, 32} \<and> drop (length data - 4) data = replicate 4 0xab"
proof -
  let ?mac = "\<lambda>k m. replicate 16 0xab" and ?key = "replicate 16 7"
  have ok: "mac_ok ?mac" "length ?key \<in> {16, 24, 32}" by (simp_all add: mac_ok_def)
  have "\<exists>cm. length cm = 4 \<and> Decrypt ?mac (sealed_frame ?mac ?key [1, 2, 3, 4] (replicate 16 0)) ?key
      = Some (Inr ([1, 2, 3, 4] @ replicate 16 0 @ cm))"
    by (rule Decrypt_sealed [OF ok]) simp_all
  then obtain data d where d: "Decrypt ?mac data ?key = Some (Inr d)" by blast
  show ?thesis using decrypt_only_authentic [OF d] d by (intro exI [of _ data] exI [of _ ?key] exI [of _ d]) simp
qed

text \<open>A decrypted frame that passes the length check can be stripped: the slice bounds hold
  and the payload has exactly the announced length.\<close>

theorem checked_frame_strips:
  assumes "CheckLoRaRAWPayloadLength data = Some True"
  shows "\<exists>p. StripLoRaRAWPayload data = Some p \<and> length p = unat (data ! 6)"
proof -
  have "9 + unat (data ! 6) \<le> length data" using assms CheckLength_iff by blast
  then show ?thesis using Strip_checked [OF assms] by simp
qed

theorem checked_frame_strips_witness:
  "\<exists>p. StripLoRaRAWPayload [1, 2, 3, 4, 0, 0, 2, 8, 9, 0, 0] = Some p \<and> length p = unat ([1, 2, 3, 4, 0, 0, 2, 8, 9, 0, 0 :: byte] ! 6)"
  by (rule checked_frame_strips)
     (simp add: CheckLoRaRAWPayloadLength_def GetLoRaRAWInnerPayloadLength_def)

text \<open>The length check is two bytes too weak for a decrypted frame, which ends in a
  four-byte CMAC and has no RSSI and SNR: a 24-byte frame that announces 15 payload bytes
  passes, and the stripped payload ends with the first two bytes of the CMAC.\<close>

theorem length_check_admits_cmac_bytes:
  assumes "length dec = 24" "dec ! 6 = 15"
  shows "CheckLoRaRAWPayloadLength dec = Some True
    \<and> (\<exists>p. StripLoRaRAWPayload dec = Some (p @ [dec ! 20, dec ! 21]) \<and> length p = 13)"
proof
  show c: "CheckLoRaRAWPayloadLength dec = Some True" using assms by (simp only: CheckLength_iff) simp
  have "StripLoRaRAWPayload dec = Some (take 15 (drop 7 dec))" using Strip_checked [OF c] assms(2) by simp
  moreover have "take 15 (drop 7 dec) = take 13 (drop 7 dec) @ [dec ! 20, dec ! 21]"
    using assms(1) by (intro nth_equalityI) (auto simp: nth_append less_Suc_eq numeral_eq_Suc)
  ultimately show "\<exists>p. StripLoRaRAWPayload dec = Some (p @ [dec ! 20, dec ! 21]) \<and> length p = 13"
    using assms(1) by (intro exI [of _ "take 13 (drop 7 dec)"]) simp
qed

theorem length_check_admits_cmac_bytes_witness:
  "CheckLoRaRAWPayloadLength ((replicate 24 0)[6 := 15]) = Some True
    \<and> (\<exists>p. StripLoRaRAWPayload ((replicate 24 0)[6 := 15])
          = Some (p @ [(replicate 24 0)[6 := 15] ! 20, (replicate 24 0)[6 := 15] ! 21]) \<and> length p = 13)"
  by (rule length_check_admits_cmac_bytes) simp_all

end
