(* ===== verification/Rubix_Pack.thy ===== *)
theory Rubix_Pack
  imports Rubix_Bits
begin

text \<open>
  The bit writer of encoder.go (\<^verbatim>\<open>bitsToVector\<close>, \<^verbatim>\<open>reshapeVector\<close>, \<^verbatim>\<open>addVectorToBuffer\<close>)
  and its contract: a serial buffer represents a bit string, and adding a vector appends
  exactly the vector's bits.  The contract is the locale \<open>bit_writer\<close>, interpreted on the
  model of \<^verbatim>\<open>addVectorToBuffer\<close>.
\<close>

unbundle bit_operations_syntax

subsection \<open>bitsToVector\<close>

text \<open>\<open>math.Ceil(float64(bitCount) / 8.0)\<close> is exact and equals the rounded-up quotient.\<close>

definition bitsToVector :: "64 word \<Rightarrow> nat \<Rightarrow> byte list \<Rightarrow> byte list" where
  "bitsToVector data64 bitCount dataVector =
     (let numberOfBytes = (bitCount + 7) div 8;
          leftShift = numberOfBytes * 8 - bitCount;
          data64 = push_bit leftShift data64
      in dataVector @ map (\<lambda>i. ucast (drop_bit (8 * i) data64 AND 255)) (rev [0..<numberOfBytes]))"

lemma word_and_255: "(x AND 255 :: 64 word) = take_bit 8 x"
proof -
  have "(255 :: 64 word) = mask 8" by (simp add: mask_eq_exp_minus_1)
  then show ?thesis by (simp only: take_bit_eq_mask)
qed

lemma bit_ucast_drop_byte: "i < 8 \<Longrightarrow> bit (ucast (drop_bit n (x :: 64 word)) :: byte) i = bit x (n + i)"
  by (auto simp: bit_simps)

lemma bits_of_map_rev:
  "bits_of (map f (rev [0..<n])) = map (\<lambda>k. bit (f (n - 1 - k div 8)) (7 - k mod 8)) [0..<8 * n]"
  by (rule nth_equalityI) (auto simp: nth_bits_of rev_nth less_mult_imp_div_less)

lemma nth_val_bits_pad:
  assumes "n \<le> 8 * m" "8 * m \<le> 64" "k < 8 * m"
  shows "(val_bits n d @ replicate (8 * m - n) False) ! k
    \<longleftrightarrow> bit (push_bit (8 * m - n) (d :: 64 word)) (8 * m - 1 - k)"
proof -
  have "bit (push_bit (8 * m - n) d) (8 * m - 1 - k) \<longleftrightarrow>
      8 * m - n \<le> 8 * m - 1 - k \<and> bit d (8 * m - 1 - k - (8 * m - n))"
    using assms by (auto simp: bit_simps)
  moreover have "8 * m - n \<le> 8 * m - 1 - k \<longleftrightarrow> k < n" using assms(1,3) by linarith
  moreover have "8 * m - 1 - k - (8 * m - n) = n - 1 - k" if "k < n" using assms(1) that by linarith
  ultimately show ?thesis using assms(3) by (auto simp: nth_append)
qed

lemma bits_of_bitsToVector:
  assumes "n \<le> 64"
  shows "bits_of (bitsToVector d n []) = val_bits n d @ replicate (8 * ((n + 7) div 8) - n) False"
proof -
  obtain m where m: "m = (n + 7) div 8" "n \<le> 8 * m" "8 * m < n + 8" "8 * m \<le> 64"
  proof
    show "n \<le> 8 * ((n + 7) div 8)" "8 * ((n + 7) div 8) < n + 8" by presburger+
    show "8 * ((n + 7) div 8) \<le> 64" using assms by presburger
  qed simp
  have v: "bitsToVector d n [] = map (\<lambda>i. ucast (drop_bit (8 * i) (push_bit (8 * m - n) d) AND 255)) (rev [0..<m])"
    by (simp add: bitsToVector_def Let_def m(1) mult.commute)
  show ?thesis unfolding m(1) [symmetric]
  proof (rule nth_equalityI)
    show "length (bits_of (bitsToVector d n [])) = length (val_bits n d @ replicate (8 * m - n) False)"
      using m(2) by (simp add: v)
    fix k
    assume "k < length (bits_of (bitsToVector d n []))"
    then have k: "k < 8 * m" by (simp add: v)
    define q r where "q = k div 8" and "r = k mod 8"
    have kqr: "k = 8 * q + r" "r < 8" "q < m" using k by (auto simp: q_def r_def)
    have j: "7 - r + 8 * (m - 1 - q) = 8 * m - 1 - k" using kqr by linarith
    have "bits_of (bitsToVector d n []) ! k
        = bit (ucast (drop_bit (8 * (m - 1 - q)) (push_bit (8 * m - n) d) AND 255) :: byte) (7 - r)"
      using k by (simp add: v bits_of_map_rev q_def r_def)
    also have "\<dots> = bit (push_bit (8 * m - n) d) (7 - r + 8 * (m - 1 - q))"
      using kqr(2) by (auto simp: word_and_255 bit_simps add.commute)
    finally show "bits_of (bitsToVector d n []) ! k = (val_bits n d @ replicate (8 * m - n) False) ! k"
      unfolding j nth_val_bits_pad [OF m(2,4) k] .
  qed
qed

lemma bitsToVector_append: "bitsToVector d n v = v @ bitsToVector d n []"
  by (simp add: bitsToVector_def Let_def)

subsection \<open>reshapeVector and addVectorToBuffer\<close>

fun reshape_loop :: "nat \<Rightarrow> 64 word \<Rightarrow> byte list \<Rightarrow> byte list" where
  "reshape_loop w TB [] = []"
| "reshape_loop w TB (b # bs) =
     (let TB1 = drop_bit w (push_bit 8 (TB OR ucast b))
      in ucast (drop_bit 8 TB1) # reshape_loop w (push_bit w TB1) bs)"

definition reshapeVector :: "serial_data \<Rightarrow> nat \<Rightarrow> byte list \<Rightarrow> byte list" where
  "reshapeVector sd bitCount dataVector =
     reshape_loop (WriteBitPos sd) 0
       (if WriteBitPos sd + bitCount > length dataVector * 8 then dataVector @ [0] else dataVector)"

definition addVectorToBuffer :: "serial_data \<Rightarrow> byte list \<Rightarrow> nat \<Rightarrow> serial_data option" where
  "addVectorToBuffer sd dataVector bitCount =
     (let dataVector = reshapeVector sd bitCount dataVector in do {
        d0 \<leftarrow> go_index dataVector 0;
        buf \<leftarrow> (if WriteBitPos sd = 0 then Some (Buffer sd @ [d0])
               else do {
                 l \<leftarrow> go_index (Buffer sd) (length (Buffer sd) - 1);
                 Some ((Buffer sd)[length (Buffer sd) - 1 := l OR d0]) });
        let offsetBitCount = bitCount mod 8;
        Some (sd\<lparr>Buffer := buf @ tl dataVector,
                 WriteBitPos := (WriteBitPos sd + offsetBitCount) mod 8\<rparr>) })"

lemma length_reshape_loop [simp]: "length (reshape_loop w TB v) = length v"
  by (induction v arbitrary: TB) (simp_all add: Let_def)

lemma bits_of_reshape_loop:
  assumes "w \<le> 8" and "\<And>i. i < 8 \<Longrightarrow> \<not> bit TB i"
  shows "bits_of (reshape_loop w TB v) =
           take (8 * length v) (drop (8 - w) (byte_bits (ucast (drop_bit 8 TB))) @ bits_of v)"
  using assms(2)
proof (induction v arbitrary: TB)
  case (Cons b bs)
  let ?p = "ucast (drop_bit 8 TB) :: byte"
  let ?TB1 = "drop_bit w (push_bit 8 (TB OR ucast b))"
  have TB: "bit (push_bit w ?TB1) i \<longleftrightarrow> w \<le> i \<and> 8 \<le> i \<and> i < 64 \<and> (bit TB (i - 8) \<or> bit b (i - 8))" for i
    using assms(1) by (auto simp: bit_simps dest: bit_imp_le_length)
  have lowz: "\<not> bit (push_bit w ?TB1) i" if "i < 8" for i using that TB by simp
  have nextb: "ucast (drop_bit 8 (push_bit w ?TB1)) = b"
  proof (rule bit_eqI)
    fix i
    assume "possible_bit TYPE(8 word) i"
    then have "i < 8" by simp
    then show "bit (ucast (drop_bit 8 (push_bit w ?TB1)) :: byte) i = bit b i"
      unfolding bit_ucast_drop_byte [OF \<open>i < 8\<close>] TB
      using Cons.prems assms(1) by auto
  qed
  have out: "byte_bits (ucast (drop_bit 8 ?TB1)) = take 8 (drop (8 - w) (byte_bits ?p) @ byte_bits b)"
  proof (rule nth_equalityI)
    fix i
    assume "i < length (byte_bits (ucast (drop_bit 8 ?TB1)))"
    then have i: "i < 8" by simp
    have "byte_bits (ucast (drop_bit 8 ?TB1)) ! i \<longleftrightarrow> bit TB (7 - i + w) \<or> bit b (7 - i + w)"
      using i assms(1) by (auto simp: bit_simps add.commute dest: bit_imp_le_length)
    also have "\<dots> \<longleftrightarrow> take 8 (drop (8 - w) (byte_bits ?p) @ byte_bits b) ! i"
    proof (cases "i < w")
      case True
      then have "7 - i + w = 8 + (w - 1 - i)" "7 - (8 - w + i) = w - 1 - i" using i assms(1) by linarith+
      moreover have "\<not> bit b (8 + (w - 1 - i))" by (auto dest: bit_imp_le_length)
      moreover have "w - Suc i < 8" using True assms(1) by linarith
      ultimately show ?thesis using True i assms(1) by (simp add: nth_append bit_simps)
    next
      case False
      then have "7 - i + w < 8" "7 - (i - w) = 7 - i + w" using i by linarith+
      then show ?thesis using False i assms(1) Cons.prems by (simp add: nth_append)
    qed
    finally show "byte_bits (ucast (drop_bit 8 ?TB1)) ! i
        = take 8 (drop (8 - w) (byte_bits ?p) @ byte_bits b) ! i" .
  qed (use assms(1) in simp)
  have IH: "bits_of (reshape_loop w (push_bit w ?TB1) bs) =
      take (8 * length bs) (drop (8 - w) (byte_bits (ucast (drop_bit 8 (push_bit w ?TB1)))) @ bits_of bs)"
    by (rule Cons.IH) (rule lowz)
  have "bits_of (reshape_loop w TB (b # bs))
      = byte_bits (ucast (drop_bit 8 ?TB1)) @ bits_of (reshape_loop w (push_bit w ?TB1) bs)"
    by (simp add: Let_def)
  also have "\<dots> = take 8 (drop (8 - w) (byte_bits ?p) @ byte_bits b) @
      take (8 * length bs) (drop (8 - w) (byte_bits b) @ bits_of bs)"
    by (simp only: out IH nextb)
  also have "\<dots> = take (8 * length (b # bs)) (drop (8 - w) (byte_bits ?p) @ bits_of (b # bs))"
    unfolding length_Cons mult_Suc_right take_add using assms(1) by simp
  finally show ?case .
qed simp

subsection \<open>The bit string a buffer represents\<close>

text \<open>
  \<open>ser_rep sd xs\<close>: the buffer holds the bits \<open>xs\<close> followed by zero padding up to the byte
  boundary; the write position 8 (a fresh buffer) and 0 both mean ``byte aligned''.
\<close>

definition ser_rep :: "serial_data \<Rightarrow> bool list \<Rightarrow> bool" where
  "ser_rep sd xs \<longleftrightarrow> Buffer sd \<noteq> [] \<and> WriteBitPos sd \<le> 8
     \<and> bits_of (Buffer sd) = xs @ replicate ((8 - WriteBitPos sd) mod 8) False"

text \<open>A vector that carries the bits \<open>ys\<close>, left-justified in whole bytes.\<close>

definition vec_rep :: "byte list \<Rightarrow> bool list \<Rightarrow> bool" where
  "vec_rep v ys \<longleftrightarrow> ys \<noteq> [] \<and> (\<exists>p<8. bits_of v = ys @ replicate p False)"

lemma pad_mod8:
  assumes "x mod 8 = w mod 8" and L: "8 * L = x + y + p" and p: "p < (8 :: nat)"
  shows "p = (8 - (w + y mod 8) mod 8) mod 8"
proof -
  define r where "r = (x + y) mod 8"
  have "(w + y mod 8) mod 8 = r" unfolding r_def using assms(1) by (metis mod_add_cong mod_mod_trivial)
  moreover have "p = (8 - r) mod 8"
  proof -
    obtain q where "x + y = 8 * q + r" "r < 8" unfolding r_def by (metis mod_less_divisor mult_div_mod_eq zero_less_numeral)
    then have "8 * L = 8 * q + (r + p)" "r < 8" using L by simp_all
    moreover from this p have "L = q \<or> L = q + 1" by linarith
    ultimately have "r + p = 0 \<or> r + p = 8" by auto
    then show ?thesis using p \<open>r < 8\<close> by (cases "r = 0") auto
  qed
  ultimately show ?thesis by simp
qed

lemma ser_rep_length: "ser_rep sd xs \<Longrightarrow> length xs mod 8 = WriteBitPos sd mod 8"
proof -
  assume a: "ser_rep sd xs"
  let ?w = "WriteBitPos sd"
  have "8 * length (Buffer sd) = length xs + (8 - ?w) mod 8"
    using a by (simp add: ser_rep_def flip: length_bits_of)
  moreover have "(8 - ?w) mod 8 = (if ?w = 0 then 0 else 8 - ?w)" by simp
  moreover have "?w \<le> 8" using a by (simp add: ser_rep_def)
  ultimately have "length xs + 8 = 8 * length (Buffer sd) + ?w \<or> length xs = 8 * length (Buffer sd) + ?w"
    by (auto split: if_splits)
  then show ?thesis by (metis mod_add_self2 mod_mult_self4)
qed

lemma vec_repE:
  assumes "vec_rep v ys"
  obtains p where "p < 8" "bits_of v = ys @ replicate p False" "8 * length v = length ys + p" "0 < length ys"
proof -
  from assms obtain p where p: "ys \<noteq> []" "p < 8" "bits_of v = ys @ replicate p False"
    by (auto simp: vec_rep_def)
  then have "8 * length v = length ys + p" by (simp flip: length_bits_of)
  with p that show thesis by simp
qed

lemma byte_bits_or:
  assumes "byte_bits l = xs @ replicate q False" "byte_bits r = replicate w False @ ys" "w + q = 8"
  shows "byte_bits (l OR r) = xs @ ys"
proof (rule nth_equalityI)
  have lx: "length xs = w" using assms(1,3) length_byte_bits [of l] by simp
  have ly: "length ys = q" using assms(2,3) length_byte_bits [of r] by simp
  show "length (byte_bits (l OR r)) = length (xs @ ys)" using lx ly assms(3) by simp
  fix i
  assume "i < length (byte_bits (l OR r))"
  then have i: "i < 8" by simp
  have "byte_bits (l OR r) ! i = (byte_bits l ! i \<or> byte_bits r ! i)"
    using i by (simp add: bit_or_iff)
  also have "\<dots> = (xs @ ys) ! i"
    unfolding assms(1,2) using i lx ly assms(3) by (auto simp: nth_append)
  finally show "byte_bits (l OR r) ! i = (xs @ ys) ! i" .
qed

lemma reshapeVector_bits:
  assumes w: "WriteBitPos sd \<le> 8" and v: "vec_rep v ys"
  shows "\<exists>p<8. bits_of (reshapeVector sd (length ys) v) = replicate (WriteBitPos sd) False @ ys @ replicate p False
           \<and> reshapeVector sd (length ys) v \<noteq> []"
proof -
  let ?w = "WriteBitPos sd"
  obtain p where p: "p < 8" "bits_of v = ys @ replicate p False" "8 * length v = length ys + p" "0 < length ys"
    using v by (rule vec_repE)
  define v' where "v' = (if ?w + length ys > length v * 8 then v @ [0] else v)"
  define p' where "p' = (if ?w > p then p + 8 else p)"
  have ext: "?w + length ys > length v * 8 \<longleftrightarrow> ?w > p" using p(3) by linarith
  have b0: "byte_bits 0 = replicate 8 False" by (simp add: byte_bits_def map_replicate_trivial)
  have v'bits: "bits_of v' = ys @ replicate p' False"
    using p(2) unfolding v'_def p'_def ext by (simp add: b0 flip: replicate_add)
  have p'w: "?w \<le> p'" "p' - ?w < 8" using w p(1) by (auto simp: p'_def)
  have len: "8 * length v' = length ys + p'" using v'bits by (simp flip: length_bits_of)
  have R: "reshapeVector sd (length ys) v = reshape_loop ?w 0 v'"
    by (simp add: reshapeVector_def v'_def)
  have "drop (8 - ?w) (byte_bits (ucast (drop_bit 8 (0 :: 64 word)))) = replicate ?w False"
    using w by (simp add: b0)
  then have "bits_of (reshape_loop ?w 0 v') = take (length ys + p') (replicate ?w False @ ys @ replicate p' False)"
    using bits_of_reshape_loop [OF w, of 0 v'] by (simp add: v'bits len)
  also have "\<dots> = replicate ?w False @ ys @ replicate (p' - ?w) False"
    using p'w by (simp add: take_replicate min_def)
  finally have "bits_of (reshape_loop ?w 0 v') = replicate ?w False @ ys @ replicate (p' - ?w) False" .
  moreover have "reshape_loop ?w 0 v' \<noteq> []"
    using len p(4) by (cases v') auto
  ultimately show ?thesis unfolding R using p'w(2) by blast
qed

lemma addVectorToBuffer_rep:
  assumes sd: "ser_rep sd xs" and v: "vec_rep v ys"
  obtains sd' where "addVectorToBuffer sd v (length ys) = Some sd'" "ser_rep sd' (xs @ ys)"
    "ReadBitPos sd' = ReadBitPos sd"
proof -
  let ?w = "WriteBitPos sd" and ?buf = "Buffer sd"
  have w8: "?w \<le> 8" and buf: "?buf \<noteq> []"
    and bb: "bits_of ?buf = xs @ replicate ((8 - ?w) mod 8) False"
    using sd by (auto simp: ser_rep_def)
  from reshapeVector_bits [OF w8 v] obtain p where p: "p < 8"
    and R: "bits_of (reshapeVector sd (length ys) v) = replicate ?w False @ ys @ replicate p False"
    and ne: "reshapeVector sd (length ys) v \<noteq> []" by blast
  from ne obtain d0 ds where ds: "reshapeVector sd (length ys) v = d0 # ds"
    by (cases "reshapeVector sd (length ys) v") auto
  define w' where "w' = (?w + length ys mod 8) mod 8"
  define buf' where "buf' = (if ?w = 0 then ?buf @ [d0] else ?buf[length ?buf - 1 := last ?buf OR d0])"
  let ?sd' = "sd\<lparr>Buffer := buf' @ ds, WriteBitPos := w'\<rparr>"
  have res: "addVectorToBuffer sd v (length ys) = Some ?sd'"
    using buf by (simp add: addVectorToBuffer_def ds buf'_def w'_def Let_def last_conv_nth)
  have bits: "bits_of (buf' @ ds) = xs @ ys @ replicate p False"
  proof (cases "?w = 0")
    case True
    then have "bits_of (buf' @ ds) = bits_of ?buf @ bits_of (d0 # ds)" by (simp add: buf'_def)
    also have "bits_of (d0 # ds) = ys @ replicate p False" using R ds True by simp
    finally show ?thesis using bb True by simp
  next
    case False
    obtain us l where ul: "?buf = us @ [l]" using buf by (cases ?buf rule: rev_cases) auto
    define q where "q = 8 - ?w"
    have q: "(8 - ?w) mod 8 = q mod 8" "?w + q = 8" "q < 8" using False w8 by (auto simp: q_def)
    have qm: "q mod 8 = q" using q(3) by simp
    have lx: "8 * length us \<le> length xs"
      using arg_cong [OF bb, of length] ul q(3) unfolding q(1) qm by simp
    obtain xs1 xs2 where xs: "xs = xs1 @ xs2" "length xs1 = 8 * length us"
      using lx by (metis append_take_drop_id length_take min.absorb2)
    have ll: "bits_of us = xs1 \<and> byte_bits l = xs2 @ replicate q False"
      using bb xs(2) unfolding ul xs(1) q(1) qm by simp
    obtain ys0 where ys0: "byte_bits d0 = replicate ?w False @ ys0"
      "ys0 @ bits_of ds = ys @ replicate p False"
    proof -
      have eq: "byte_bits d0 @ bits_of ds = replicate ?w False @ ys @ replicate p False"
        using R ds by simp
      have "take ?w (byte_bits d0) = replicate ?w False"
        using arg_cong [OF eq, of "take ?w"] w8 by simp
      then have "byte_bits d0 = replicate ?w False @ drop ?w (byte_bits d0)"
        by (metis append_take_drop_id)
      moreover have "drop ?w (byte_bits d0) @ bits_of ds = ys @ replicate p False"
        using arg_cong [OF eq, of "drop ?w"] w8 by simp
      ultimately show thesis by (rule that)
    qed
    have "byte_bits (l OR d0) = xs2 @ ys0"
      using ll ys0(1) q(2) by (intro byte_bits_or) auto
    then have "bits_of (buf' @ ds) = xs1 @ xs2 @ ys0 @ bits_of ds"
      using False ll by (simp add: buf'_def ul)
    then show ?thesis using ys0(2) xs(1) by simp
  qed
  have w'8: "w' < 8" by (simp add: w'_def)
  have "length xs mod 8 = ?w mod 8" by (rule ser_rep_length [OF sd])
  moreover have "8 * length (buf' @ ds) = length xs + length ys + p"
    using arg_cong [OF bits, of length] by simp
  ultimately have "p = (8 - w') mod 8"
    unfolding w'_def by (rule pad_mod8) (rule p)
  then have "ser_rep ?sd' (xs @ ys)"
    using bits w'8 buf by (simp add: ser_rep_def buf'_def)
  then show thesis using res by (intro that [of ?sd']) simp_all
qed

subsection \<open>The writer contract\<close>

text \<open>
  What a client of the bit writer relies on: adding a vector always succeeds on a buffer
  that represents a bit string, and appends the vector's bits to it.
\<close>

locale bit_writer =
  fixes put :: "'s \<Rightarrow> byte list \<Rightarrow> nat \<Rightarrow> 's option"
    and rep :: "'s \<Rightarrow> bool list \<Rightarrow> bool"
  assumes put_rep: "rep s xs \<Longrightarrow> vec_rep v ys \<Longrightarrow> \<exists>s'. put s v (length ys) = Some s' \<and> rep s' (xs @ ys)"
begin

lemma put_put_rep:
  assumes "rep s xs" "vec_rep v ys" "vec_rep u zs"
  shows "\<exists>s'. Option.bind (put s v (length ys)) (\<lambda>t. put t u (length zs)) = Some s' \<and> rep s' (xs @ ys @ zs)"
proof -
  obtain t where t: "put s v (length ys) = Some t" "rep t (xs @ ys)"
    using put_rep [OF assms(1,2)] by blast
  obtain s' where "put t u (length zs) = Some s'" "rep s' ((xs @ ys) @ zs)"
    using put_rep [OF t(2) assms(3)] by blast
  with t show ?thesis by simp
qed

end

interpretation serial: bit_writer addVectorToBuffer ser_rep
  by unfold_locales (blast elim: addVectorToBuffer_rep)

lemma vec_rep_bitsToVector:
  assumes "0 < n" "n \<le> 64"
  shows "vec_rep (bitsToVector d n []) (val_bits n d)"
proof -
  have "8 * ((n + 7) div 8) - n < 8" by linarith
  moreover have "val_bits n d \<noteq> []" using assms(1) by (simp add: val_bits_def)
  ultimately show ?thesis
    using bits_of_bitsToVector [OF assms(2), of d] by (auto simp: vec_rep_def)
qed

lemma vec_rep_Cons:
  assumes "vec_rep v ys"
  shows "vec_rep (b # v) (byte_bits b @ ys)"
  using assms by (auto simp: vec_rep_def)

end
