(* ===== verification/Rubix_Encoder.thy ===== *)
theory Rubix_Encoder
  imports Rubix_Pack Rubix_Decoder
begin

text \<open>
  encoder.go: conversion of a write value to the bits of its data type, and the encoding of
  a write request.  \<open>oor\<close> is the result of Go's implementation-dependent conversion of a
  float that does not fit the integer type (\<open>fl_to_int\<close>).
\<close>

unbundle bit_operations_syntax

subsection \<open>Values to bits\<close>

definition clamp :: "gofloat \<Rightarrow> rat \<Rightarrow> rat \<Rightarrow> gofloat" where
  "clamp value lo hi = (if fl_ltc value lo then Fin lo else if fl_gtc value hi then Fin hi else value)"

text \<open>
  The instances of the generic function at \<^verbatim>\<open>float64\<close> (\<open>single = False\<close>) and \<^verbatim>\<open>float32\<close>.
  Subtracting the bound is adding its negation (a zero result may lose its sign, which the
  final integer conversion does not see).
\<close>

definition fixedPointToBits :: "(gofloat \<Rightarrow> int) \<Rightarrow> bool \<Rightarrow> gofloat \<Rightarrow> meta_data \<Rightarrow> 64 word \<times> nat" where
  "fixedPointToBits oor single value metaData =
     (let low = of_int (lowValue metaData);
          high = of_int (highValue metaData);
          decimal = decimalPoint metaData;
          value = (if single then f32_of_f64 (clamp value low high) else clamp value low high);
          bitCount = getBitCount (lowValue metaData) (highValue metaData) decimal;
          diff = fl_addc (if single then mk_f32 else mk_f64) value (- low);
          data64 = word_of_int (fl_to_int oor 0 (2 ^ 64 - 1) (fl_round (fl_mulc mk_f64 diff (10 ^ decimal))))
      in (data64, bitCount))"

fun num_size :: "gonum \<Rightarrow> nat" where
  "num_size (F32 v) = 4" | "num_size (F64 v) = 8"
| "num_size (U8 w) = 1" | "num_size (I8 w) = 1"
| "num_size (U16 w) = 2" | "num_size (I16 w) = 2"
| "num_size (U32 w) = 4" | "num_size (I32 w) = 4"
| "num_size (U64 w) = 8" | "num_size (I64 w) = 8"

text \<open>The memory of the value, copied byte by byte into a zeroed uint64 (little endian).\<close>

fun num_bits :: "gonum \<Rightarrow> 64 word" where
  "num_bits (F32 v) = ucast (f32_bits v)" | "num_bits (F64 v) = f64_bits v"
| "num_bits (U8 w) = ucast w" | "num_bits (I8 w) = ucast w"
| "num_bits (U16 w) = ucast w" | "num_bits (I16 w) = ucast w"
| "num_bits (U32 w) = ucast w" | "num_bits (I32 w) = ucast w"
| "num_bits (U64 w) = w" | "num_bits (I64 w) = w"

definition dataTypeToBits :: "gonum \<Rightarrow> meta_data \<Rightarrow> (64 word \<times> nat) option" where
  "dataTypeToBits data metaData =
     (if byteCount metaData \<noteq> num_size data then None
      else Some (num_bits data, byteCount metaData * 8))"

text \<open>The two \<^verbatim>\<open>switch\<close>es of \<^verbatim>\<open>EncodeData\<close>: data bits and bit count, or the \<^verbatim>\<open>return false\<close>.\<close>

definition convertData :: "(gofloat \<Rightarrow> int) \<Rightarrow> gonum \<Rightarrow> meta_data_key \<Rightarrow> (64 word \<times> nat) option" where
  "convertData oor data header =
     (let metaData = getMetaData header in
      if dataType metaData = FIXEDPOINT then
        (case data of
           F64 v \<Rightarrow> Some (fixedPointToBits oor False v metaData)
         | F32 v \<Rightarrow> Some (fixedPointToBits oor True v metaData)
         | _ \<Rightarrow> None)
      else if dataType metaData = DATAPOINT then dataTypeToBits data metaData
      else None)"

definition EncodeData ::
  "(gofloat \<Rightarrow> int) \<Rightarrow> serial_data \<Rightarrow> gonum \<Rightarrow> meta_data_key \<Rightarrow> byte \<Rightarrow> (bool \<times> serial_data) option" where
  "EncodeData oor sd data header position = do {
     hp \<leftarrow> hasPositionalData sd;
     let headerVector = (if hp then [position] else []);
     let headerBitCount = (if hp then DATA_TYPE_BIT_COUNT + 8 else DATA_TYPE_BIT_COUNT);
     let headerVector = bitsToVector (word_of_int header) DATA_TYPE_BIT_COUNT headerVector;
     (case convertData oor data header of
        None \<Rightarrow> Some (False, sd)
      | Some (dataBits, bitCount) \<Rightarrow> do {
          sd \<leftarrow> addVectorToBuffer sd headerVector headerBitCount;
          sd \<leftarrow> addVectorToBuffer sd (bitsToVector dataBits bitCount []) bitCount;
          Some (True, sd) }) }"

subsection \<open>Write requests\<close>

text \<open>The conversion of \<^verbatim>\<open>*writeValue\<close> the if-chain applies for each data type.\<close>

definition write_num :: "(gofloat \<Rightarrow> int) \<Rightarrow> meta_data_key \<Rightarrow> gofloat \<Rightarrow> gonum" where
  "write_num oor k v =
     (if k = MDK_UINT_8 then U8 (word_of_int (fl_to_int oor 0 (2 ^ 8 - 1) v))
      else if k = MDK_UINT_16 then U16 (word_of_int (fl_to_int oor 0 (2 ^ 16 - 1) v))
      else if k = MDK_UINT_32 then U32 (word_of_int (fl_to_int oor 0 (2 ^ 32 - 1) v))
      else if k = MDK_UINT_64 then U64 (word_of_int (fl_to_int oor 0 (2 ^ 64 - 1) v))
      else if k = MDK_INT_8 then I8 (word_of_int (fl_to_int oor (- (2 ^ 7)) (2 ^ 7 - 1) v))
      else if k = MDK_INT_16 then I16 (word_of_int (fl_to_int oor (- (2 ^ 15)) (2 ^ 15 - 1) v))
      else if k = MDK_INT_32 then I32 (word_of_int (fl_to_int oor (- (2 ^ 31)) (2 ^ 31 - 1) v))
      else if k = MDK_INT_64 then I64 (word_of_int (fl_to_int oor (- (2 ^ 63)) (2 ^ 63 - 1) v))
      else if k = MDK_CHAR then U8 (word_of_int (fl_to_int oor 0 (2 ^ 8 - 1) v))
      else if k = MDK_FLOAT then F32 (f32_of_f64 v)
      else if k = MDK_DOUBLE then F64 v
      else F64 v)"

text \<open>One iteration of the loop; the Boolean result of \<^verbatim>\<open>EncodeData\<close> is dropped by the code.\<close>

definition encode_point :: "(gofloat \<Rightarrow> int) \<Rightarrow> point \<Rightarrow> serial_data \<Rightarrow> (goerr + serial_data) option" where
  "encode_point oor pt sd =
     (case pt_WriteValue pt of
        None \<Rightarrow> Some (Inl (ErrMsg ''encoding failed for nil point''))
      | Some writeValue \<Rightarrow>
          (case atoi (pt_DataType pt) of
             Inl e \<Rightarrow> Some (Inl e)
           | Inr pointDataType \<Rightarrow>
               (case getPosition (pt_IoNumber pt) of
                  Inl e \<Rightarrow> Some (Inl e)
                | Inr position \<Rightarrow>
                    map_option (\<lambda>(ok, sd). Inr sd)
                      (EncodeData oor sd (write_num oor pointDataType writeValue) pointDataType position))))"

fun encode_points :: "(gofloat \<Rightarrow> int) \<Rightarrow> point list \<Rightarrow> serial_data \<Rightarrow> (goerr + serial_data) option" where
  "encode_points oor [] sd = Some (Inr sd)"
| "encode_points oor (pt # pts) sd =
     (case encode_point oor pt sd of
        None \<Rightarrow> None
      | Some (Inl e) \<Rightarrow> Some (Inl e)
      | Some (Inr sd) \<Rightarrow> encode_points oor pts sd)"

definition EncodeRequestMessage :: "(gofloat \<Rightarrow> int) \<Rightarrow> point list \<Rightarrow> (goerr + byte list) option" where
  "EncodeRequestMessage oor points = do {
     serialData \<leftarrow> setPositionalData NewSerialData True;
     r \<leftarrow> encode_points oor points serialData;
     (case r of Inl e \<Rightarrow> Some (Inl e) | Inr sd \<Rightarrow> Some (Inr (Buffer sd))) }"

subsection \<open>The bits a field contributes\<close>

definition field_bits :: "byte \<Rightarrow> meta_data_key \<Rightarrow> 64 word \<Rightarrow> nat \<Rightarrow> bool list" where
  "field_bits position k d n = byte_bits position @ val_bits 6 (word_of_int k :: 64 word) @ val_bits n d"

lemma getMetaData_cases:
  "getMetaData k = mk_meta 0 0 0 0 0 \<or> (k, getMetaData k) \<in> set serialMap"
proof (cases "map_of serialMap k")
  case None
  then show ?thesis by (simp add: getMetaData_def)
next
  case (Some m)
  then show ?thesis using map_of_SomeD [OF Some] by (simp add: getMetaData_def)
qed

lemma getMetaData_byteCount:
  "dataType (getMetaData k) = DATAPOINT \<Longrightarrow> 0 < byteCount (getMetaData k) \<and> byteCount (getMetaData k) \<le> 8"
  using getMetaData_cases [of k] by (auto simp: serialMap_def)

lemma convertData_width:
  assumes "convertData oor data k = Some (d, n)"
  shows "0 < n \<and> n \<le> 64"
  using assms getBitCount_pos getBitCount_le_64 getMetaData_byteCount [of k]
  by (auto simp: convertData_def fixedPointToBits_def dataTypeToBits_def Let_def
      split: if_splits gonum.splits)

text \<open>A successful \<open>EncodeData\<close> appends position, key and data bits.\<close>

lemma EncodeData_appends:
  assumes sd: "ser_rep sd xs" and hp: "hasPositionalData sd = Some True"
    and cv: "convertData oor data k = Some (d, n)"
  shows "\<exists>sd'. EncodeData oor sd data k position = Some (True, sd') \<and> ser_rep sd' (xs @ field_bits position k d n)"
proof -
  have n: "0 < n" "n \<le> 64" using convertData_width [OF cv] by auto
  have h: "vec_rep (bitsToVector (word_of_int k) 6 [position]) (byte_bits position @ val_bits 6 (word_of_int k :: 64 word))"
    unfolding bitsToVector_append [of _ _ "[position]"] append_Cons append_Nil
    by (rule vec_rep_Cons [OF vec_rep_bitsToVector]) simp_all
  have "\<exists>s'. Option.bind (addVectorToBuffer sd (bitsToVector (word_of_int k) 6 [position])
                (length (byte_bits position @ val_bits 6 (word_of_int k :: 64 word))))
              (\<lambda>t. addVectorToBuffer t (bitsToVector d n []) (length (val_bits n d))) = Some s'
           \<and> ser_rep s' (xs @ (byte_bits position @ val_bits 6 (word_of_int k :: 64 word)) @ val_bits n d)"
    by (rule serial.put_put_rep [OF sd h vec_rep_bitsToVector [OF n]])
  then show ?thesis
    using hp cv by (auto simp: EncodeData_def field_bits_def bind_eq_Some_conv)
qed

lemma EncodeData_unsupported:
  "hasPositionalData sd = Some b \<Longrightarrow> convertData oor data k = None \<Longrightarrow>
     EncodeData oor sd data k position = Some (False, sd)"
  by (simp add: EncodeData_def)

lemma hasPositionalData_rep:
  assumes "ser_rep sd xs" "8 \<le> length xs"
  shows "hasPositionalData sd = Some (xs ! 7)"
proof -
  from assms(1) obtain b bs where b: "Buffer sd = b # bs" by (cases "Buffer sd") (auto simp: ser_rep_def)
  have "(byte_bits b @ bits_of bs) ! 7 = (xs @ replicate ((8 - WriteBitPos sd) mod 8) False) ! 7"
    using assms(1) b by (simp add: ser_rep_def)
  then have "xs ! 7 = bit b 0" using assms(2) by (simp add: nth_append)
  moreover have "b AND 1 = 1 \<longleftrightarrow> bit b 0" by (simp add: and_one_eq odd_iff_mod_2_eq_one bit_0)
  ultimately show ?thesis using b by simp
qed

end
