(* ===== verification/Rubix_Roundtrip.thy ===== *)
theory Rubix_Roundtrip
  imports Rubix_Encoder
begin

text \<open>
  Encoder and decoder together: what the decode loop does on the bit string the encoder
  writes, field by field and for whole messages; the junk point that seven padding bits
  produce; and the values that survive the trip (fixed-point codes, integers, positions).
\<close>

unbundle bit_operations_syntax

subsection \<open>Reading a field off a bit string\<close>

lemma peek_bits_append:
  assumes "bits_of buf = xs @ val_bits n d @ rest" "length xs = pos" "n \<le> 64"
  shows "peek_bits buf n pos = take_bit n (d :: 64 word)"
proof -
  have "8 * length buf = length xs + n + length rest"
    using arg_cong [OF assms(1), of length] by simp
  then show ?thesis using assms by (simp add: peek_bits_def bits_val_val_bits)
qed

lemma peek_bits_beyond: "8 * length buf < pos + n \<Longrightarrow> peek_bits buf n pos = 0"
  by (simp add: peek_bits_def)

text \<open>The reads of the decoder, as reads of \<open>peek_bits\<close>.\<close>

lemma read_bits:
  assumes "0 < n" "n \<le> 64" "getVector sd n (ReadBitPos sd) = ((v, s, r), sd')"
  shows "vectorToBits v n s r = peek_bits (Buffer sd) n (ReadBitPos sd)"
    "sd' = sd\<lparr>ReadBitPos := ReadBitPos sd + n\<rparr>"
  using vectorToBits_getVector [OF assms(3,1,2)] getVector_ReadBitPos [of sd n "ReadBitPos sd"] assms(3)
  by simp_all

lemma read_bits_case:
  assumes "0 < n" "n \<le> 64"
  shows "(case getVector sd n (ReadBitPos sd) of (x, sd') \<Rightarrow> case x of (v, s, r) \<Rightarrow> f (vectorToBits v n s r) sd')
    = f (peek_bits (Buffer sd) n (ReadBitPos sd)) (sd\<lparr>ReadBitPos := ReadBitPos sd + n\<rparr>)"
proof -
  obtain v s r sd' where gv: "getVector sd n (ReadBitPos sd) = ((v, s, r), sd')"
    by (metis prod.collapse)
  show ?thesis using read_bits [OF assms gv] by (simp add: gv)
qed

lemma parseMetaData_peek:
  assumes "hasPositionalData sd = Some True"
  shows "parseMetaData sd = Some ((uint (peek_bits (Buffer sd) 6 (ReadBitPos sd + 8)),
            parsePosition (ucast (peek_bits (Buffer sd) 8 (ReadBitPos sd)))),
          sd\<lparr>ReadBitPos := ReadBitPos sd + 14\<rparr>)"
proof -
  let ?sd1 = "sd\<lparr>ReadBitPos := ReadBitPos sd + 8\<rparr>"
  obtain v s r sd1 where g1: "getVector sd 8 (ReadBitPos sd) = ((v, s, r), sd1)" by (metis prod.collapse)
  obtain v' s' r' sd2 where g2: "getVector ?sd1 6 (ReadBitPos ?sd1) = ((v', s', r'), sd2)" by (metis prod.collapse)
  have r1: "vectorToBits v 8 s r = peek_bits (Buffer sd) 8 (ReadBitPos sd)" "sd1 = ?sd1"
    using read_bits [OF _ _ g1] by simp_all
  have r2: "vectorToBits v' 6 s' r' = peek_bits (Buffer sd) 6 (ReadBitPos sd + 8)"
      "sd2 = sd\<lparr>ReadBitPos := ReadBitPos sd + 14\<rparr>"
    using read_bits [OF _ _ g2] by simp_all
  show ?thesis
    using assms g2 by (simp add: parseMetaData_def g1 r1 r2)
qed

definition field_width :: "meta_data_key \<Rightarrow> nat" where
  "field_width k =
     (let m = getMetaData k in
      if dataType m = FIXEDPOINT then getBitCount (lowValue m) (highValue m) (decimalPoint m)
      else byteCount m * 8)"

definition decode_value :: "meta_data_key \<Rightarrow> target \<Rightarrow> 64 word \<Rightarrow> goerr + gonum" where
  "decode_value k tgt d =
     (if dataType (getMetaData k) = FIXEDPOINT then
        (if tgt = Pf32 then Inr (F32 (fixed_value (getMetaData k) d)) else Inl (ErrMsg ''unsupported data type''))
      else datapoint_value k tgt d)"

lemma decodeData_peek:
  assumes "k \<noteq> 0" "dataType (getMetaData k) \<in> {FIXEDPOINT, DATAPOINT}"
  shows "decodeData sd k tgt =
    (decode_value k tgt (peek_bits (Buffer sd) (field_width k) (ReadBitPos sd)),
     sd\<lparr>ReadBitPos := ReadBitPos sd + field_width k\<rparr>)"
proof -
  let ?m = "getMetaData k"
  let ?n = "field_width k"
  have n: "0 < ?n" "?n \<le> 64"
    using assms(2) getBitCount_pos getBitCount_le_64 getMetaData_byteCount [of k]
    by (auto simp: field_width_def Let_def)
  obtain v s r sd' where gv: "getVector sd ?n (ReadBitPos sd) = ((v, s, r), sd')" by (metis prod.collapse)
  note rd = read_bits [OF n gv]
  consider "dataType ?m = FIXEDPOINT" | "dataType ?m = DATAPOINT" "dataType ?m \<noteq> FIXEDPOINT"
    using assms(2) by auto
  then show ?thesis
  proof cases
    case 1
    then have w: "getBitCount (lowValue ?m) (highValue ?m) (decimalPoint ?m) = ?n"
      by (simp add: field_width_def Let_def)
    show ?thesis using assms(1) 1 gv rd
      by (simp add: decodeData_def decode_value_def w Let_def)
  next
    case 2
    then have w: "byteCount ?m * 8 = ?n" by (simp add: field_width_def Let_def)
    show ?thesis using assms(1) 2 gv rd
      by (simp add: decodeData_def decode_value_def w Let_def)
  qed
qed

text \<open>The keys the decoder knows: a variable to decode into and a table entry.\<close>

definition decodable :: "meta_data_key \<Rightarrow> bool" where
  "decodable k \<longleftrightarrow> key_target k \<noteq> None"

lemma decodable_table:
  assumes "decodable k"
  shows "0 < k \<and> k < 64 \<and> dataType (getMetaData k) \<in> {FIXEDPOINT, DATAPOINT}"
  using assms
  by (auto simp: decodable_def key_target_def getMetaData_def serialMap_def split: if_splits)

lemma field_width_bounds: "decodable k \<Longrightarrow> 0 < field_width k \<and> field_width k \<le> 64"
  using decodable_table [of k] getBitCount_pos getBitCount_le_64 getMetaData_byteCount [of k]
  by (auto simp: field_width_def Let_def)

text \<open>The result a field with key \<open>k\<close>, position byte \<open>p\<close> and data bits \<open>d\<close> decodes to.\<close>

definition field_point :: "position_data \<Rightarrow> meta_data_key \<Rightarrow> 64 word \<Rightarrow> string \<times> gofloat \<times> goerr option" where
  "field_point pos k d =
     (let name = generateFieldName k pos; r = decode_value k (the (key_target k)) d in
      if k = MDK_ERROR then (name, Fin 0, error_of_code (error_code r))
      else (name, num_value r, None))"

lemma decodePointRubix_peek:
  assumes "decodable k"
  shows "decodePointRubix sd k pos =
    (field_point pos k (peek_bits (Buffer sd) (field_width k) (ReadBitPos sd)),
     sd\<lparr>ReadBitPos := ReadBitPos sd + field_width k\<rparr>)"
proof -
  obtain tgt where t: "key_target k = Some tgt" using assms by (auto simp: decodable_def)
  have "k \<noteq> 0" "dataType (getMetaData k) \<in> {FIXEDPOINT, DATAPOINT}"
    using decodable_table [OF assms] by auto
  from decodeData_peek [OF this] show ?thesis
    by (simp add: decodePointRubix_def field_point_def t Let_def)
qed

subsection \<open>Decoding a sequence of positional fields\<close>

type_synonym field = "byte \<times> meta_data_key \<times> 64 word"

definition fields_bits :: "field list \<Rightarrow> bool list" where
  "fields_bits fs = concat (map (\<lambda>(p, k, d). field_bits p k d (field_width k)) fs)"

definition field_result :: "field \<Rightarrow> string \<times> gofloat \<times> goerr option" where
  "field_result f = (case f of (p, k, d) \<Rightarrow> field_point (parsePosition p) k (take_bit (field_width k) d))"

lemma fields_bits_simps [simp]:
  "fields_bits [] = []"
  "fields_bits ((p, k, d) # fs) = byte_bits p @ val_bits 6 (word_of_int k :: 64 word) @ val_bits (field_width k) d @ fields_bits fs"
  by (simp_all add: fields_bits_def field_bits_def)

lemma val_bits_byte: "val_bits 8 (ucast p :: 64 word) = byte_bits p"
  by (simp add: val_bits_def byte_bits_def bit_ucast_iff upt_rec)

lemma ucast_byte_64 [simp]: "ucast (ucast p :: 64 word) = (p :: byte)"
  by (rule bit_word_eqI) (simp add: bit_ucast_iff)

text \<open>A field read at the current position of a positional stream.\<close>

lemma rubix_points_field:
  assumes bits: "bits_of (Buffer sd) = xs @ fields_bits ((p, k, d) # fs) @ rest"
    and pos: "ReadBitPos sd = length xs" and hp: "hasPositionalData sd = Some True" and k: "decodable k"
  shows "\<exists>q'. rubix_points True q sd =
    field_result (p, k, d) # rubix_points True q' (sd\<lparr>ReadBitPos := ReadBitPos sd + 14 + field_width k\<rparr>)"
proof -
  let ?n = "field_width k"
  have n: "0 < ?n" "?n \<le> 64" using field_width_bounds [OF k] by auto
  have k64: "0 < k" "k < 64" using decodable_table [OF k] by auto
  have len: "8 * length (Buffer sd) = length xs + 14 + ?n + length (fields_bits fs) + length rest"
    using arg_cong [OF bits, of length] by simp
  have cd: "canDecode sd" using len n pos by (simp add: canDecode_def)
  have pk1: "peek_bits (Buffer sd) 8 (ReadBitPos sd) = ucast p"
  proof -
    have "bits_of (Buffer sd) = xs @ val_bits 8 (ucast p :: 64 word)
        @ (val_bits 6 (word_of_int k :: 64 word) @ val_bits ?n d @ fields_bits fs @ rest)"
      using bits by (simp add: val_bits_byte)
    from peek_bits_append [OF this pos [symmetric]] show ?thesis
      by (simp add: take_bit_eq_mask) (rule bit_eqI, auto simp: bit_simps dest: bit_imp_le_length)
  qed
  have pk2: "peek_bits (Buffer sd) 6 (ReadBitPos sd + 8) = word_of_int k"
  proof -
    have "bits_of (Buffer sd) = (xs @ byte_bits p) @ val_bits 6 (word_of_int k :: 64 word)
        @ (val_bits ?n d @ fields_bits fs @ rest)"
      using bits by simp
    moreover have "length (xs @ byte_bits p) = ReadBitPos sd + 8" using pos by simp
    ultimately have "peek_bits (Buffer sd) 6 (ReadBitPos sd + 8) = take_bit 6 (word_of_int k)"
      by (rule peek_bits_append) simp
    also have "\<dots> = word_of_int (take_bit 6 k)" by (simp add: take_bit_word_eq_self take_bit_of_int flip: of_int_take_bit)
    also have "take_bit 6 k = k" using k64 by (simp add: take_bit_int_eq_self)
    finally show ?thesis .
  qed
  have pm: "parseMetaData sd = Some ((k, parsePosition p), sd\<lparr>ReadBitPos := ReadBitPos sd + 14\<rparr>)"
    using k64 by (simp add: parseMetaData_peek [OF hp] pk1 pk2 uint_word_of_int_eq take_bit_int_eq_self)
  have pk3: "peek_bits (Buffer sd) ?n (ReadBitPos sd + 14) = take_bit ?n d"
  proof -
    have "bits_of (Buffer sd) = (xs @ byte_bits p @ val_bits 6 (word_of_int k :: 64 word)) @ val_bits ?n d @ (fields_bits fs @ rest)"
      using bits by simp
    from peek_bits_append [OF this, of "ReadBitPos sd + 14"] show ?thesis using pos n by simp
  qed
  have "decodePointRubix (sd\<lparr>ReadBitPos := ReadBitPos sd + 14\<rparr>) k (parsePosition p)
      = (field_result (p, k, d), sd\<lparr>ReadBitPos := ReadBitPos sd + 14 + ?n\<rparr>)"
    using decodePointRubix_peek [OF k, of "sd\<lparr>ReadBitPos := ReadBitPos sd + 14\<rparr>"]
    by (simp add: pk3 field_result_def)
  then show ?thesis
    unfolding rubix_points.simps [of True q sd] using cd pm by auto
qed

text \<open>
  Fewer than seven left-over bits end the loop; seven are decoded as one more field, whose
  reads all fall beyond the buffer and give position 0 and key 0.
\<close>

definition padding_points :: "nat \<Rightarrow> (string \<times> gofloat \<times> goerr option) list" where
  "padding_points r = (if r = 7 then [(''unknown-1'', Fin 0, None)] else [])"

lemma unknown_field_name: "generateFieldName 0 (parsePosition 0) = ''unknown-1''"
  by (simp add: parsePosition_def generateFieldName_def mdk_String_def itoa_def itoa_nat.simps
      digit_char_def char_of_def bit_0)

lemma rubix_points_padding:
  assumes "bits_of (Buffer sd) = xs @ replicate r False" "ReadBitPos sd = length xs" "r < 8"
    and hp: "hasPositionalData sd = Some True"
  shows "rubix_points True q sd = padding_points r"
proof -
  have len: "8 * length (Buffer sd) = length xs + r" using arg_cong [OF assms(1), of length] by simp
  show ?thesis
  proof (cases "r = 7")
    case False
    then have "\<not> canDecode sd" using len assms by (simp add: canDecode_def)
    then show ?thesis using False by (simp add: rubix_points.simps [of True q sd] padding_points_def)
  next
    case True
    have cd: "canDecode sd" using len assms True by (simp add: canDecode_def)
    have pm: "parseMetaData sd = Some ((0, parsePosition 0), sd\<lparr>ReadBitPos := ReadBitPos sd + 14\<rparr>)"
      using len assms True by (simp add: parseMetaData_peek [OF hp] peek_bits_beyond)
    have dp: "decodePointRubix sd' 0 (parsePosition 0) = ((''unknown-1'', Fin 0, None), sd')" for sd'
      by (simp add: decodePointRubix_def key_target_def unknown_field_name)
    have nd: "\<not> canDecode (sd\<lparr>ReadBitPos := ReadBitPos sd + 14\<rparr>)"
      using len assms True by (simp add: canDecode_def)
    show ?thesis using cd nd True
      by (simp add: rubix_points.simps [of True q sd] pm dp rubix_points.simps [of True _ "sd\<lparr>ReadBitPos := ReadBitPos sd + 14\<rparr>"] padding_points_def)
  qed
qed

lemma rubix_points_fields:
  assumes "bits_of (Buffer sd) = xs @ fields_bits fs @ replicate r False"
    "ReadBitPos sd = length xs" "r < 8" "hasPositionalData sd = Some True"
    "\<And>p k d. (p, k, d) \<in> set fs \<Longrightarrow> decodable k"
  shows "rubix_points True q sd = map field_result fs @ padding_points r"
  using assms
proof (induction fs arbitrary: xs q sd)
  case Nil
  then show ?case using rubix_points_padding by simp
next
  case (Cons f fs)
  obtain p k d where f: "f = (p, k, d)" by (cases f) auto
  have k: "decodable k" using Cons.prems(5) f by auto
  let ?sd = "sd\<lparr>ReadBitPos := ReadBitPos sd + 14 + field_width k\<rparr>"
  let ?xs = "xs @ field_bits p k d (field_width k)"
  obtain q' where st: "rubix_points True q sd = field_result (p, k, d) # rubix_points True q' ?sd"
    using rubix_points_field [OF Cons.prems(1) [unfolded f] Cons.prems(2,4) k] by blast
  have "bits_of (Buffer ?sd) = ?xs @ fields_bits fs @ replicate r False"
    using Cons.prems(1) f by (simp add: field_bits_def)
  moreover have "ReadBitPos ?sd = length ?xs" using Cons.prems(2) by (simp add: field_bits_def)
  moreover have "hasPositionalData ?sd = Some True" using Cons.prems(4) by (simp add: hasPositionalData_def)
  ultimately have "rubix_points True q' ?sd = map field_result fs @ padding_points r"
    using Cons.IH [of ?sd ?xs q'] Cons.prems(3,5) by auto
  then show ?case using st f by simp
qed

subsection \<open>Positions\<close>

text \<open>
  Every position byte above 31 (all types but \<^verbatim>\<open>GENERAL\<close>) has a point name of its own.
\<close>

lemma position_type_range: "pos_Type (parsePosition p) < 8"
  using unat_byte_lt [of p]
  by (simp add: parsePosition_def drop_bit_eq_div unat_div less_mult_imp_div_less del: unat_byte_lt)

lemma byte_and_31: "p AND 31 = (take_bit 5 p :: byte)"
  by (simp add: take_bit_eq_mask mask_numeral)

lemma position_id_range: "pos_ID (parsePosition p) < 32"
  by (simp add: parsePosition_def byte_and_31 take_bit_eq_mod unat_mod)

lemma of_nat_unat_byte: "of_nat (unat b) = (b :: byte)"
  by simp

lemma position_of_type_id:
  "p = push_bit 5 (of_nat (pos_Type (parsePosition p))) + word_of_int (int (pos_ID (parsePosition p)))"
proof -
  have "p = push_bit 5 (drop_bit 5 p) + take_bit 5 p"
    by (rule bits_ident [symmetric])
  then show ?thesis by (simp only: parsePosition_def byte_and_31 position_data.simps
      of_int_of_nat_eq of_nat_unat_byte)
qed

text \<open>The names \<^verbatim>\<open>generateFieldName\<close> gives a typed position, and the type prefix of each.\<close>

definition position_prefix :: "nat \<Rightarrow> string" where
  "position_prefix t = (if t = PositionDataType_UO then ''UO'' else if t = PositionDataType_DO then ''DO''
     else if t = PositionDataType_UI then ''UI'' else if t = PositionDataType_DI then ''DI''
     else if t = PositionDataType_DVP then ''DVP'' else ''UVP'')"

lemma generateFieldName_typed:
  assumes "0 < pos_Type pos" "pos_Type pos < 8"
  shows "generateFieldName k pos = position_prefix (pos_Type pos) @ CHR ''-'' #
           itoa_nat (pos_ID pos + 1 + (if pos_Type pos = PositionDataType_UVP2 then 32 else 0))"
proof -
  have "pos_Type pos \<in> {1, 2, 3, 4, 5, 6, 7}" using assms by auto
  then show ?thesis
    by (auto simp: generateFieldName_def position_prefix_def itoa_def Let_def nat_add_distrib)
qed

lemma getPosition_generateFieldName:
  assumes "0 < pos_Type (parsePosition p)"
  shows "getPosition (generateFieldName k (parsePosition p)) = Inr p"
proof -
  let ?t = "pos_Type (parsePosition p)" and ?i = "pos_ID (parsePosition p)"
  let ?n = "?i + 1 + (if ?t = PositionDataType_UVP2 then 32 else 0)"
  note t8 = position_type_range [of p] and i32 = position_id_range [of p]
  have nodash: "CHR ''-'' \<notin> set (position_prefix ?t)" by (simp add: position_prefix_def)
  have sp: "split_on (CHR ''-'') (generateFieldName k (parsePosition p)) = [position_prefix ?t, itoa_nat ?n]"
    unfolding generateFieldName_typed [OF assms t8]
    by (simp only: split_on_sep [OF nodash] split_on_no_sep [OF dash_notin_itoa_nat])
  have num: "atoi (itoa_nat ?n) = Inr (int ?n)" using i32 by (intro atoi_itoa_nat) simp
  have p: "push_bit 5 (of_nat ?t) + word_of_int (int ?i) = p" by (rule position_of_type_id [symmetric])
  have "?t \<in> {1, 2, 3, 4, 5, 6, 7}" using assms t8 by auto
  then show ?thesis
    unfolding getPosition_def sp list.case num sum.case Let_def
    using p i32 by (elim insertE emptyE) (simp_all add: position_prefix_def add.commute)
qed

subsection \<open>Write requests\<close>

text \<open>The error a point stops the encoding with, and the bits it contributes otherwise.\<close>

definition point_error :: "point \<Rightarrow> goerr option" where
  "point_error pt =
     (if pt_WriteValue pt = None then Some (ErrMsg ''encoding failed for nil point'')
      else case atoi (pt_DataType pt) of Inl e \<Rightarrow> Some e
        | Inr k \<Rightarrow> (case getPosition (pt_IoNumber pt) of Inl e \<Rightarrow> Some e | Inr p \<Rightarrow> None))"

definition point_field :: "(gofloat \<Rightarrow> int) \<Rightarrow> point \<Rightarrow> (byte \<times> meta_data_key \<times> 64 word \<times> nat) option" where
  "point_field oor pt =
     (case (pt_WriteValue pt, atoi (pt_DataType pt), getPosition (pt_IoNumber pt)) of
        (Some v, Inr k, Inr p) \<Rightarrow> map_option (\<lambda>(d, n). (p, k, d, n)) (convertData oor (write_num oor k v) k)
      | _ \<Rightarrow> None)"

definition point_bits :: "(gofloat \<Rightarrow> int) \<Rightarrow> point \<Rightarrow> bool list" where
  "point_bits oor pt = (case point_field oor pt of None \<Rightarrow> [] | Some (p, k, d, n) \<Rightarrow> field_bits p k d n)"

lemma encode_point_error:
  "point_error pt = Some e \<Longrightarrow> encode_point oor pt sd = Some (Inl e)"
  by (auto simp: point_error_def encode_point_def split: option.splits sum.splits if_splits)

lemma encode_point_appends:
  assumes "point_error pt = None" "ser_rep sd xs" "hasPositionalData sd = Some True"
  shows "\<exists>sd'. encode_point oor pt sd = Some (Inr sd') \<and> ser_rep sd' (xs @ point_bits oor pt)"
proof -
  obtain v k p where pt: "pt_WriteValue pt = Some v" "atoi (pt_DataType pt) = Inr k" "getPosition (pt_IoNumber pt) = Inr p"
    using assms(1) by (auto simp: point_error_def split: option.splits sum.splits if_splits)
  show ?thesis
  proof (cases "convertData oor (write_num oor k v) k")
    case None
    then show ?thesis
      using pt assms(2,3) by (simp add: encode_point_def EncodeData_unsupported point_bits_def point_field_def)
  next
    case (Some dn)
    obtain d n where dn: "dn = (d, n)" by (cases dn)
    from EncodeData_appends [OF assms(2,3) Some [unfolded dn], of p] show ?thesis
      using pt Some dn by (auto simp: encode_point_def point_bits_def point_field_def)
  qed
qed

lemma encode_points_result:
  assumes "ser_rep sd xs" "8 \<le> length xs" "xs ! 7"
  shows "(case List.map_filter point_error pts of
            e # _ \<Rightarrow> encode_points oor pts sd = Some (Inl e)
          | [] \<Rightarrow> \<exists>sd'. encode_points oor pts sd = Some (Inr sd')
               \<and> ser_rep sd' (xs @ concat (map (point_bits oor) pts)))"
  using assms
proof (induction pts arbitrary: sd xs)
  case Nil
  then show ?case by (simp add: map_filter_simps)
next
  case (Cons pt pts)
  show ?case
  proof (cases "point_error pt")
    case (Some e)
    then show ?thesis by (simp add: map_filter_simps encode_point_error)
  next
    case None
    have "hasPositionalData sd = Some True" using hasPositionalData_rep Cons.prems by simp
    from encode_point_appends [OF None Cons.prems(1) this] obtain sd' where
      sd': "encode_point oor pt sd = Some (Inr sd')" "ser_rep sd' (xs @ point_bits oor pt)" by blast
    have "(xs @ point_bits oor pt) ! 7" using Cons.prems by (simp add: nth_append)
    from Cons.IH [OF sd'(2) _ this] show ?thesis
      using None sd' Cons.prems(2) by (simp add: map_filter_simps split: list.splits)
  qed
qed

lemma ser_rep_init:
  "setPositionalData NewSerialData True = Some sd \<Longrightarrow> ser_rep sd (byte_bits 1)"
  by (auto simp: setPositionalData_NewSerialData ser_rep_def)

lemma byte_bits_1_7: "byte_bits 1 ! 7" by (simp add: byte_bits_def bit_0)

lemma EncodeRequestMessage_result:
  "case List.map_filter point_error pts of
     e # _ \<Rightarrow> EncodeRequestMessage oor pts = Some (Inl e)
   | [] \<Rightarrow> \<exists>buf r. EncodeRequestMessage oor pts = Some (Inr buf) \<and> r < 8
        \<and> bits_of buf = byte_bits 1 @ concat (map (point_bits oor) pts) @ replicate r False"
proof -
  obtain sd where sd: "setPositionalData NewSerialData True = Some sd"
    by (simp add: setPositionalData_NewSerialData)
  from encode_points_result [OF ser_rep_init [OF sd] _ byte_bits_1_7, of oor pts] show ?thesis
    by (auto simp: EncodeRequestMessage_def sd ser_rep_def split: list.splits)
qed

subsection \<open>Messages, encoded and decoded\<close>

lemma payload_points_stream:
  assumes "bits_of buf = byte_bits b @ fields_bits fs @ replicate r False" "b AND 1 = 1" "r < 8"
    and "\<And>p k d. (p, k, d) \<in> set fs \<Longrightarrow> decodable k"
  shows "payload_points buf = map field_result fs @ padding_points r"
proof -
  obtain b' bs where buf: "buf = b' # bs" using assms(1) by (cases buf) (auto simp: byte_bits_def)
  have "byte_bits b' = byte_bits b" using assms(1) by (simp add: buf)
  then have "b' = b" by (metis bits_val_byte_bits ucast_byte_64)
  let ?sd = "NewSerialDataWithBuffer buf"
  have "rubix_points True q ?sd = map field_result fs @ padding_points r" for q
    by (rule rubix_points_fields [of _ "byte_bits b"])
       (use assms buf \<open>b' = b\<close> in \<open>auto simp: NewSerialDataWithBuffer_def\<close>)
  then show ?thesis using assms(2) buf \<open>b' = b\<close> by (simp add: payload_points_def)
qed

text \<open>A point whose write request the decoder understands, and the value it reads back.\<close>

definition writable_point :: "point \<Rightarrow> bool" where
  "writable_point pt =
     (case (pt_WriteValue pt, atoi (pt_DataType pt), getPosition (pt_IoNumber pt)) of
        (Some v, Inr k, Inr p) \<Rightarrow>
          decodable k \<and> k \<noteq> MDK_ERROR \<and> pt_IoNumber pt = generateFieldName k (parsePosition p)
      | _ \<Rightarrow> False)"

definition key_value :: "(gofloat \<Rightarrow> int) \<Rightarrow> meta_data_key \<Rightarrow> gofloat \<Rightarrow> gofloat" where
  "key_value oor k v =
     (case convertData oor (write_num oor k v) k of
        None \<Rightarrow> Fin 0
      | Some (d, n) \<Rightarrow> num_value (decode_value k (the (key_target k)) (take_bit n d)))"

definition sent_value :: "(gofloat \<Rightarrow> int) \<Rightarrow> point \<Rightarrow> gofloat" where
  "sent_value oor pt =
     (case (pt_WriteValue pt, atoi (pt_DataType pt)) of
        (Some v, Inr k) \<Rightarrow> key_value oor k v | _ \<Rightarrow> Fin 0)"

lemma decodable_cases:
  assumes "decodable k"
  obtains "k \<in> {1, 2, 3, 4, 5, 6, 7, 8, 10, 11, 12, 13, 16, 61, 62, 38}" "dataType (getMetaData k) = FIXEDPOINT"
      "key_target k = Some Pf32"
  | "k \<in> {30, 31, 32, 33, 34, 35, 36, 37, 39, 40, 43}" "dataType (getMetaData k) = DATAPOINT"
  using assms by (auto simp: decodable_def key_target_def getMetaData_def serialMap_def split: if_splits)

lemma convert_writable:
  assumes "decodable k" "k \<noteq> MDK_ERROR"
  shows "\<exists>d. convertData oor (write_num oor k v) k = Some (d, field_width k)"
  using assms(1)
proof (cases rule: decodable_cases)
  case 1
  then have "write_num oor k v = F64 v" by (auto simp: write_num_def)
  then show ?thesis using 1 by (simp add: convertData_def fixedPointToBits_def field_width_def Let_def)
next
  case 2
  then have "k \<in> {30, 31, 32, 33, 34, 35, 36, 37, 39, 40}" using assms(2) by auto
  then show ?thesis
    by (elim insertE emptyE) (simp_all add: convertData_def dataTypeToBits_def field_width_def
        write_num_def getMetaData_def serialMap_def Let_def)
qed

lemma writable_point_field:
  assumes "writable_point pt"
  shows "\<exists>p k d. decodable k \<and> point_error pt = None
    \<and> point_bits oor pt = field_bits p k d (field_width k)
    \<and> field_result (p, k, d) = (pt_IoNumber pt, sent_value oor pt, None)"
proof -
  obtain v k p where pt: "pt_WriteValue pt = Some v" "atoi (pt_DataType pt) = Inr k" "getPosition (pt_IoNumber pt) = Inr p"
    "decodable k" "k \<noteq> MDK_ERROR" "pt_IoNumber pt = generateFieldName k (parsePosition p)"
    using assms by (auto simp: writable_point_def split: option.splits sum.splits)
  obtain d where d: "convertData oor (write_num oor k v) k = Some (d, field_width k)"
    using convert_writable [OF pt(4,5)] by blast
  have "point_error pt = None" using pt by (simp add: point_error_def)
  moreover have "point_bits oor pt = field_bits p k d (field_width k)"
    using pt(1-3) d by (simp add: point_bits_def point_field_def)
  moreover have "field_result (p, k, d) = (pt_IoNumber pt, sent_value oor pt, None)"
    using pt(1,2,5,6) d by (simp add: field_result_def field_point_def sent_value_def key_value_def Let_def)
  ultimately show ?thesis using pt(4) by blast
qed

lemma writable_points_fields:
  assumes "\<forall>pt \<in> set pts. writable_point pt"
  shows "\<exists>fs. List.map_filter point_error pts = [] \<and> concat (map (point_bits oor) pts) = fields_bits fs
    \<and> map field_result fs = map (\<lambda>pt. (pt_IoNumber pt, sent_value oor pt, None)) pts
    \<and> (\<forall>p k d. (p, k, d) \<in> set fs \<longrightarrow> decodable k)"
  using assms
proof (induction pts)
  case Nil
  have "fields_bits [] = []" by simp
  then show ?case by (intro exI [of _ "[]"]) (simp add: map_filter_simps)
next
  case (Cons pt pts)
  then obtain fs where fs: "List.map_filter point_error pts = []" "concat (map (point_bits oor) pts) = fields_bits fs"
    "map field_result fs = map (\<lambda>pt. (pt_IoNumber pt, sent_value oor pt, None)) pts"
    "\<forall>p k d. (p, k, d) \<in> set fs \<longrightarrow> decodable k" by auto
  obtain p k d where f: "decodable k" "point_error pt = None"
    "point_bits oor pt = field_bits p k d (field_width k)"
    "field_result (p, k, d) = (pt_IoNumber pt, sent_value oor pt, None)"
    using writable_point_field [of pt oor] Cons.prems by auto
  show ?case using fs f by (intro exI [of _ "(p, k, d) # fs"]) (auto simp: map_filter_simps field_bits_def)
qed

lemma request_stream:
  assumes "\<forall>pt \<in> set pts. writable_point pt"
  shows "\<exists>buf r. EncodeRequestMessage oor pts = Some (Inr buf) \<and> r < 8 \<and> buf \<noteq> []
    \<and> bits_of buf = byte_bits 1 @ concat (map (point_bits oor) pts) @ replicate r False
    \<and> payload_points buf = map (\<lambda>pt. (pt_IoNumber pt, sent_value oor pt, None)) pts @ padding_points r"
proof -
  obtain fs where fs: "List.map_filter point_error pts = []" "concat (map (point_bits oor) pts) = fields_bits fs"
    "map field_result fs = map (\<lambda>pt. (pt_IoNumber pt, sent_value oor pt, None)) pts"
    "\<forall>p k d. (p, k, d) \<in> set fs \<longrightarrow> decodable k"
    using writable_points_fields [OF assms] by blast
  obtain buf r where buf: "EncodeRequestMessage oor pts = Some (Inr buf)" "r < 8"
    "bits_of buf = byte_bits 1 @ fields_bits fs @ replicate r False"
    using EncodeRequestMessage_result [of oor pts] fs(1,2) by auto
  have "payload_points buf = map field_result fs @ padding_points r"
    by (rule payload_points_stream [OF buf(3) _ buf(2)]) (use fs(4) in auto)
  moreover have "buf \<noteq> []" using buf(3) by (auto simp: byte_bits_def)
  ultimately show ?thesis using buf fs(2,3) by metis
qed

lemma request_decodes:
  assumes "\<forall>pt \<in> set pts. writable_point pt"
  shows "\<exists>buf r. EncodeRequestMessage oor pts = Some (Inr buf) \<and> r < 8 \<and> buf \<noteq> []
    \<and> payload_points buf = map (\<lambda>pt. (pt_IoNumber pt, sent_value oor pt, None)) pts @ padding_points r"
  using request_stream [OF assms] by blast

end
