(* ===== verification/Rubix_Values.thy ===== *)
theory Rubix_Values
  imports Rubix_Roundtrip
begin

text \<open>
  What a value becomes on its way through the encoder and the decoder: the accuracy of the
  fixed-point types in Go's float64 and float32 arithmetic, the stability of their codes,
  and the integer types.
\<close>

subsection \<open>Error propagation\<close>

text \<open>\<open>near v x e\<close>: the float \<open>v\<close> is finite and within \<open>e\<close> of the real quantity \<open>x\<close>.\<close>

definition near :: "gofloat \<Rightarrow> rat \<Rightarrow> rat \<Rightarrow> bool" where
  "near v x e \<longleftrightarrow> (\<exists>y. fl_value v = Some y \<and> \<bar>y - x\<bar> \<le> e)"

abbreviation eps :: rat where "eps \<equiv> 1 / 2 ^ 33"

lemma near_mono: "near v x e \<Longrightarrow> e \<le> e' \<Longrightarrow> near v x e'"
  by (auto simp: near_def)

lemma near_trans: "near v y a \<Longrightarrow> \<bar>y - x\<bar> \<le> e \<Longrightarrow> near v x (e + a)"
  unfolding near_def by (elim exE conjE, rule exI, rule conjI, assumption, linarith)

lemma near_mk_float:
  assumes err: "\<bar>x\<bar> < 2 powi m" "emin \<le> m - int p" and m: "m \<le> 21" "0 < p" "22 \<le> emax"
  shows "near (mk_float p emin emax x) x (2 powi (m - int p - 1))"
proof -
  have e: "\<bar>rnd p emin x - x\<bar> \<le> 2 powi (m - int p - 1)" by (rule rnd_err [OF err])
  have "2 powi (m - int p - 1) \<le> (2 powi 20 :: rat)" using m by (intro powi_le) simp
  moreover have "2 powi m \<le> (2 powi 21 :: rat)" using m by (intro powi_le) simp
  ultimately have "\<bar>rnd p emin x\<bar> < 2 powi 22" using e err(1) by simp
  also have "\<dots> \<le> (2 powi emax :: rat)" using m by (intro powi_le)
  finally show ?thesis using e by (simp add: near_def fl_value_mk)
qed

lemma powi_minus_nat: "(2 powi - int n :: rat) = 1 / 2 ^ n"
  by (simp only: power_int_minus power_int_of_nat inverse_eq_divide)

lemma powi_eps: "(2 powi - 33 :: rat) = eps" "(2 powi - 18 :: rat) = 1 / 2 ^ 18"
  using powi_minus_nat [of 33] powi_minus_nat [of 18] by (simp_all only: of_nat_numeral)

lemma near_mk_f64:
  assumes "\<bar>y - x\<bar> \<le> e" "\<bar>x\<bar> + e < 2 ^ 21"
  shows "near (mk_f64 y) x (e + eps)"
proof -
  have "near (mk_f64 y) y eps"
    unfolding mk_f64_def using near_mk_float [of y 21 "-1074" 53 1024] assms powi_eps by simp
  then show ?thesis using assms(1) by (rule near_trans)
qed

lemma near_mk_f32:
  assumes "\<bar>y - x\<bar> \<le> e" "\<bar>x\<bar> + e < 128"
  shows "near (mk_f32 y) x (e + 1 / 2 ^ 18)"
proof -
  have "near (mk_f32 y) y (1 / 2 ^ 18)"
    unfolding mk_f32_def using near_mk_float [of y 7 "-149" 24 128] assms powi_eps by simp
  then show ?thesis using assms(1) by (rule near_trans)
qed

lemma near_addc:
  assumes "near v x e" "\<bar>x + c\<bar> + e < 2 ^ 21"
  shows "near (fl_addc mk_f64 v c) (x + c) (e + eps)"
proof -
  obtain y where y: "fl_value v = Some y" "\<bar>y - x\<bar> \<le> e" using assms(1) by (auto simp: near_def)
  have "fl_addc mk_f64 v c = mk_f64 (y + c)" using y(1) by (cases v) auto
  moreover have "\<bar>(y + c) - (x + c)\<bar> \<le> e" using y(2) by simp
  ultimately show ?thesis using near_mk_f64 assms(2) by metis
qed

lemma near_scale:
  assumes "near v x e" "0 < c" "\<bar>x * c\<bar> + e * c < 2 ^ 21"
  shows "near (fl_mulc mk_f64 v c) (x * c) (e * c + eps)"
proof -
  obtain y where y: "fl_value v = Some y" "\<bar>y - x\<bar> \<le> e" using assms(1) by (auto simp: near_def)
  have d: "\<bar>y * c - x * c\<bar> \<le> e * c"
    using y(2) assms(2) by (simp add: abs_mult mult_right_mono flip: left_diff_distrib)
  show ?thesis
  proof (cases v)
    case (Fin z)
    then show ?thesis using near_mk_f64 [OF d assms(3)] y(1) by simp
  next
    case NegZero
    then have "y = 0" using y(1) by simp
    then show ?thesis using NegZero d by (simp add: near_def)
  qed (use y(1) in simp_all)
qed

lemma near_divc:
  assumes "near v x e" "0 < c" "\<bar>x / c\<bar> + e / c < 2 ^ 21"
  shows "near (fl_divc mk_f64 v c) (x / c) (e / c + eps)"
proof -
  have "fl_divc mk_f64 v c = fl_mulc mk_f64 v (1 / c)" by (cases v) simp_all
  then show ?thesis using near_scale [OF assms(1), of "1 / c"] assms(2,3) by simp
qed

lemma near_f32:
  assumes "near v x e" "\<bar>x\<bar> + e < 128"
  shows "near (f32_of_f64 v) x (e + 1 / 2 ^ 18)"
proof -
  obtain y where y: "fl_value v = Some y" "\<bar>y - x\<bar> \<le> e" using assms(1) by (auto simp: near_def)
  show ?thesis
  proof (cases v)
    case (Fin z)
    then show ?thesis using near_mk_f32 [OF y(2) assms(2)] y(1) by simp
  next
    case NegZero
    then show ?thesis using y by (simp add: near_def)
  qed (use y(1) in simp_all)
qed

text \<open>Clamping to an interval around the quantity never adds to the error.\<close>

lemma near_clamp:
  assumes "near v x e" "lo \<le> x" "x \<le> hi"
  shows "near (clamp v lo hi) x e"
proof -
  obtain y where y: "fl_value v = Some y" "\<bar>y - x\<bar> \<le> e" using assms(1) by (auto simp: near_def)
  have "fl_ltc v lo \<longleftrightarrow> y < lo" "fl_gtc v hi \<longleftrightarrow> hi < y" using y(1) by (cases v; simp)+
  then show ?thesis using y assms(2,3) by (auto simp: clamp_def near_def)
qed

subsection \<open>Fixed-point codes\<close>

text \<open>The table's fixed-point entries, with the resolution \<open>10 ^ decimalPoint\<close>.\<close>

definition resolution :: "meta_data \<Rightarrow> rat" where
  "resolution m = 10 ^ decimalPoint m"

definition code_value :: "meta_data \<Rightarrow> int \<Rightarrow> rat" where
  "code_value m c = of_int c / resolution m + of_int (lowValue m)"

definition top_code :: "meta_data \<Rightarrow> int" where
  "top_code m = (highValue m - lowValue m) * 10 ^ decimalPoint m"

definition fp_entry :: "meta_data \<Rightarrow> bool" where
  "fp_entry m \<longleftrightarrow> lowValue m < highValue m \<and> top_code m \<le> 2 ^ 20 \<and> - 64 \<le> lowValue m \<and> lowValue m \<le> 64
     \<and> highValue m \<le> 2 ^ 20 \<and> decimalPoint m \<le> 3 \<and> (decimalPoint m = 0 \<or> highValue m \<le> 120)"

lemma fp_entry_table: "dataType (getMetaData k) = FIXEDPOINT \<Longrightarrow> fp_entry (getMetaData k)"
  using getMetaData_cases [of k] by (auto simp: serialMap_def fp_entry_def top_code_def)

lemma resolution_cases:
  "fp_entry m \<Longrightarrow> resolution m = 1 \<and> decimalPoint m = 0 \<or> resolution m \<in> {10, 100, 1000} \<and> highValue m \<le> 120"
proof -
  assume "fp_entry m"
  then have "decimalPoint m \<in> {0, 1, 2, 3}" "decimalPoint m = 0 \<or> highValue m \<le> 120"
    by (auto simp: fp_entry_def)
  then show ?thesis by (auto simp: resolution_def)
qed

lemma resolution_bounds: "fp_entry m \<Longrightarrow> 1 \<le> resolution m \<and> resolution m \<le> 1000"
  using resolution_cases by fastforce

lemma top_code_rat: "of_int (top_code m) = (of_int (highValue m) - of_int (lowValue m)) * resolution m"
  by (simp add: top_code_def resolution_def)

lemma code_value_range:
  assumes "fp_entry m" "0 \<le> c" "c \<le> top_code m"
  shows "of_int (lowValue m) \<le> code_value m c" "code_value m c \<le> of_int (highValue m)"
proof -
  have r: "0 < resolution m" using resolution_bounds [OF assms(1)] by simp
  show "of_int (lowValue m) \<le> code_value m c" using assms(2) r by (simp add: code_value_def)
  have "(of_int c :: rat) \<le> of_int (top_code m)" using assms(3) by (simp only: of_int_le_iff)
  then have "of_int c / resolution m \<le> (of_int (highValue m) - of_int (lowValue m))"
    using r by (simp add: top_code_rat divide_le_eq)
  then show "code_value m c \<le> of_int (highValue m)" by (simp add: code_value_def)
qed

lemma round_away_err: "\<bar>of_int (round_away x) - x\<bar> \<le> 1 / 2"
proof (cases "0 \<le> x")
  case True
  then have "round_away x = \<lfloor>x + 1 / 2\<rfloor>" by (simp add: round_away_def)
  then show ?thesis unfolding abs_le_iff by linarith
next
  case False
  then have "round_away x = - \<lfloor>- x + 1 / 2\<rfloor>" by (simp add: round_away_def)
  then show ?thesis unfolding abs_le_iff by linarith
qed

lemma trunc_of_int [simp]: "trunc (of_int n) = n"
  by (cases "0 \<le> n") (simp_all add: trunc_def flip: of_int_minus)

lemma near_round:
  assumes "near v x e"
  obtains c where "fl_value (fl_round v) = Some (of_int c)" "\<bar>of_int c - x\<bar> \<le> 1 / 2 + e"
proof -
  obtain y where y: "fl_value v = Some y" "\<bar>y - x\<bar> \<le> e" using assms by (auto simp: near_def)
  show thesis
  proof (cases v)
    case (Fin z)
    then have "\<bar>of_int (round_away y) - x\<bar> \<le> 1 / 2 + e" using round_away_err [of y] y(2) by linarith
    then show ?thesis using Fin y(1) by (intro that [of "round_away y"]) simp_all
  next
    case NegZero
    then show ?thesis using y by (intro that [of 0]) simp_all
  qed (use y(1) in simp_all)
qed

text \<open>
  The code of a float \<open>v\<close> near \<open>x\<close> in the range is an integer within half a unit (and a
  little rounding) of the exact scaled value.
\<close>

lemma fixedPointToBits_near:
  assumes m: "fp_entry m" and v: "near v x e" and e: "e \<le> 1 / 2 ^ 16"
    and x: "of_int (lowValue m) \<le> x" "x \<le> of_int (highValue m)"
  obtains c where "fixedPointToBits oor False v m
        = (word_of_int c, getBitCount (lowValue m) (highValue m) (decimalPoint m))"
    "0 \<le> c" "c \<le> top_code m"
    "\<bar>of_int c - (x - of_int (lowValue m)) * resolution m\<bar> \<le> 1 / 2 + (e * resolution m + 1 / 2 ^ 22)"
proof -
  let ?low = "of_int (lowValue m) :: rat" and ?high = "of_int (highValue m) :: rat" and ?R = "resolution m"
  have R: "1 \<le> ?R" "?R \<le> 1000" using resolution_bounds [OF m] by auto
  have top: "(?high - ?low) * ?R \<le> 2 ^ 20"
  proof -
    have "(of_int (top_code m) :: rat) \<le> of_int (2 ^ 20)"
      using m by (simp only: of_int_le_iff fp_entry_def)
    then show ?thesis by (simp add: top_code_rat)
  qed
  have "(?high - ?low) * 1 \<le> (?high - ?low) * ?R" using R x by (intro mult_left_mono) auto
  with top have span: "?high - ?low \<le> 2 ^ 20" by simp
  have xR: "0 \<le> (x - ?low) * ?R" "(x - ?low) * ?R \<le> (?high - ?low) * ?R"
    using x R by (simp, intro mult_right_mono) auto
  have eR: "e * ?R \<le> 1 / 2 ^ 16 * 1000"
    using e R v by (intro mult_mono) (auto simp: near_def)
  have epsR: "eps * ?R \<le> 1000 / 2 ^ 33" using R by simp
  let ?a = "fl_addc mk_f64 (clamp v ?low ?high) (- ?low)"
  have a: "near ?a (x - ?low) (e + eps)"
    using near_addc [OF near_clamp [OF v x], of "- ?low"] span x e by simp
  let ?b = "fl_mulc mk_f64 ?a ?R"
  have b: "near ?b ((x - ?low) * ?R) (e * ?R + 1 / 2 ^ 22)"
  proof (rule near_mono)
    show "near ?b ((x - ?low) * ?R) ((e + eps) * ?R + eps)"
    proof (rule near_scale [OF a])
      have "(x - ?low) * ?R \<le> 2 ^ 20" using xR(2) top by (rule order_trans)
      moreover have "(e + eps) * ?R = e * ?R + eps * ?R" by (rule distrib_right)
      ultimately show "\<bar>(x - ?low) * ?R\<bar> + (e + eps) * ?R < 2 ^ 21"
        using xR(1) eR epsR by simp
    qed (use R in simp)
    show "(e + eps) * ?R + eps \<le> e * ?R + 1 / 2 ^ 22" using epsR by (simp add: distrib_right)
  qed
  obtain c where c: "fl_value (fl_round ?b) = Some (of_int c)"
    "\<bar>of_int c - (x - ?low) * ?R\<bar> \<le> 1 / 2 + (e * ?R + 1 / 2 ^ 22)"
    by (rule near_round [OF b])
  have "(-1 :: rat) < of_int c" using c(2) xR(1) eR by (simp add: abs_le_iff)
  then have "of_int (- 1) < (of_int c :: rat)" by simp
  then have c0: "0 \<le> c" unfolding of_int_less_iff by simp
  have "(of_int c :: rat) < of_int (top_code m) + 1" using c(2) xR(2) eR by (simp add: top_code_rat abs_le_iff)
  then have ct: "c \<le> top_code m" by linarith
  have "top_code m \<le> 2 ^ 20" using m by (simp add: fp_entry_def)
  then have "c \<le> 2 ^ 64 - 1" using ct by simp
  then have "fl_to_int oor 0 (2 ^ 64 - 1) (fl_round ?b) = c" using c(1) c0 by (simp add: fl_to_int_def)
  then have "fixedPointToBits oor False v m
      = (word_of_int c, getBitCount (lowValue m) (highValue m) (decimalPoint m))"
    by (simp add: fixedPointToBits_def resolution_def Let_def)
  then show thesis using c0 ct c(2) by (rule that)
qed

lemma mk_f64_of_int: "\<bar>n\<bar> < 2 ^ 53 \<Longrightarrow> mk_f64 (of_int n) = Fin (of_int n)"
proof -
  assume n: "\<bar>n\<bar> < 2 ^ 53"
  have "\<bar>of_int n :: rat\<bar> < 2 ^ 53" using n by (metis of_int_abs of_int_less_iff of_int_numeral of_int_power)
  also have "(2 ^ 53 :: rat) = 2 powi int 53" by (simp only: power_int_of_nat)
  also have "\<dots> \<le> 2 powi 1024" by (intro powi_le) simp
  finally show ?thesis by (auto simp: mk_f64_def mk_float_def rnd_of_int [OF n] Let_def)
qed

lemma mk_f32_of_int: "\<bar>n\<bar> < 2 ^ 24 \<Longrightarrow> mk_f32 (of_int n) = Fin (of_int n)"
proof -
  assume n: "\<bar>n\<bar> < 2 ^ 24"
  have "\<bar>of_int n :: rat\<bar> < 2 ^ 24" using n by (metis of_int_abs of_int_less_iff of_int_numeral of_int_power)
  also have "(2 ^ 24 :: rat) = 2 powi int 24" by (simp only: power_int_of_nat)
  also have "\<dots> \<le> 2 powi 128" by (intro powi_le) simp
  finally show ?thesis by (auto simp: mk_f32_def mk_float_def rnd_of_int [OF n] Let_def)
qed

lemma near_exact: "near (Fin x) x e \<longleftrightarrow> 0 \<le> e"
  by (simp add: near_def)

lemma uint_code: "0 \<le> c \<Longrightarrow> c \<le> 2 ^ 20 \<Longrightarrow> uint (word_of_int c :: 64 word) = c"
  by (simp add: uint_word_of_int)

text \<open>Decoding a code is exact without decimals, and within \<open>2 ^ -17\<close> otherwise.\<close>

lemma fixed_value_whole:
  assumes m: "fp_entry m" and c: "0 \<le> c" "c \<le> top_code m" and d: "decimalPoint m = 0"
  shows "fixed_value m (word_of_int c) = Fin (code_value m c)"
proof -
  have t: "top_code m \<le> 2 ^ 20" "- 64 \<le> lowValue m" "lowValue m \<le> 64" using m by (auto simp: fp_entry_def)
  have s: "\<bar>c\<bar> < 2 ^ 53" "\<bar>c + lowValue m\<bar> < 2 ^ 53" "\<bar>c + lowValue m\<bar> < 2 ^ 24" using c t by auto
  have u: "uint (word_of_int c :: 64 word) = c" using c t by (intro uint_code) auto
  have q: "f64_of_int c = Fin (of_int c)" by (simp add: f64_of_int_def mk_f64_of_int [OF s(1)])
  have "fixed_value m (word_of_int c) = f32_of_f64 (mk_f64 (of_int (c + lowValue m)))"
    by (simp add: fixed_value_def u q d mk_f64_of_int [OF s(1)])
  then show ?thesis
    using mk_f64_of_int [OF s(2)] mk_f32_of_int [OF s(3)] d by (simp add: code_value_def resolution_def)
qed

lemma fixed_value_near:
  assumes m: "fp_entry m" and c: "0 \<le> c" "c \<le> top_code m"
  shows "near (fixed_value m (word_of_int c)) (code_value m c) (1 / 2 ^ 17)"
proof (cases "decimalPoint m = 0")
  case True
  then show ?thesis using fixed_value_whole [OF m c] by (simp add: near_exact)
next
  case False
  have t: "top_code m \<le> 2 ^ 20" "- 64 \<le> lowValue m" "lowValue m \<le> 64" "highValue m \<le> 120"
    using m False by (auto simp: fp_entry_def)
  have R: "0 < resolution m" using resolution_bounds [OF m] by simp
  note cv = code_value_range [OF m c]
  have bnd: "(of_int (- 64) :: rat) \<le> of_int (lowValue m)" "(of_int (lowValue m) :: rat) \<le> of_int 64"
    "(of_int (highValue m) :: rat) \<le> of_int 120"
    using t by (simp_all only: of_int_le_iff)
  have ab: "\<bar>code_value m c\<bar> \<le> 120" using cv bnd by simp
  have ql: "\<bar>of_int c / resolution m\<bar> \<le> 184" using cv bnd by (simp add: code_value_def)
  have u: "uint (word_of_int c :: 64 word) = c" using c t by (intro uint_code) auto
  have "\<bar>c\<bar> < 2 ^ 53" using c t by auto
  then have n0: "near (f64_of_int c) (of_int c) 0" by (simp add: f64_of_int_def mk_f64_of_int near_exact)
  have n1: "near (fl_divc mk_f64 (f64_of_int c) (resolution m)) (of_int c / resolution m) (0 / resolution m + eps)"
    by (rule near_divc [OF n0 R]) (use ql in simp)
  have n2: "near (fl_addc mk_f64 (fl_divc mk_f64 (f64_of_int c) (resolution m)) (of_int (lowValue m)))
      (of_int c / resolution m + of_int (lowValue m)) ((0 / resolution m + eps) + eps)"
    by (rule near_addc [OF n1]) (use ab in \<open>simp add: code_value_def\<close>)
  have "near (fixed_value m (word_of_int c)) (code_value m c) (((0 / resolution m + eps) + eps) + 1 / 2 ^ 18)"
    unfolding fixed_value_def u resolution_def [symmetric]
    using near_f32 [OF n2] ab by (simp add: code_value_def)
  then show ?thesis by (rule near_mono) simp
qed

subsection \<open>What a write value becomes\<close>

text \<open>The code of every entry fits its field, but for the top code of COUNTER and OHM.\<close>

lemma top_code_fits:
  assumes "k \<in> {1, 2, 3, 4, 6, 7, 8, 11, 12, 13, 16, 61, 62, 38}"
  shows "top_code (getMetaData k) < 2 ^ field_width k"
  using assms
  by (elim insertE emptyE) (simp_all add: field_width_def getMetaData_def serialMap_def Let_def getBitCount_def
     bit_count_loop.simps top_code_def)

lemma wide_keys: "k \<in> {5, 10} \<Longrightarrow> field_width k = 20 \<and> top_code (getMetaData k) = 2 ^ 20"
  by (elim insertE emptyE) (simp_all add: field_width_def getMetaData_def serialMap_def Let_def getBitCount_def
     bit_count_loop.simps top_code_def)

lemma fixed_key:
  assumes "dataType (getMetaData k) = FIXEDPOINT"
  shows "decodable k \<and> k \<noteq> MDK_ERROR \<and> key_target k = Some Pf32 \<and> fp_entry (getMetaData k)
    \<and> k \<in> {1, 2, 3, 4, 5, 6, 7, 8, 10, 11, 12, 13, 16, 61, 62, 38}"
proof -
  have "k \<in> {1, 2, 3, 4, 5, 6, 7, 8, 10, 11, 12, 13, 16, 61, 62, 38}"
    using getMetaData_cases [of k] assms by (auto simp: serialMap_def)
  then show ?thesis using fp_entry_table [OF assms] by (auto simp: decodable_def key_target_def)
qed

definition code_fits :: "meta_data_key \<Rightarrow> int \<Rightarrow> bool" where
  "code_fits k c \<longleftrightarrow> 0 \<le> c \<and> c \<le> top_code (getMetaData k) \<and> c < 2 ^ field_width k"

lemma code_fits_top:
  assumes "dataType (getMetaData k) = FIXEDPOINT" "0 \<le> c" "c \<le> top_code (getMetaData k)"
    "k \<in> {MDK_COUNTER, MDK_OHM} \<longrightarrow> c < top_code (getMetaData k)"
  shows "code_fits k c"
proof (cases "k \<in> {MDK_COUNTER, MDK_OHM}")
  case True
  then show ?thesis using assms wide_keys [of k] by (auto simp: code_fits_def)
next
  case False
  then have "top_code (getMetaData k) < 2 ^ field_width k"
    using fixed_key [OF assms(1)] by (intro top_code_fits) auto
  then show ?thesis using assms by (simp add: code_fits_def)
qed

lemma take_bit_word_of_int_64: "take_bit n (word_of_int c :: 64 word) = word_of_int (take_bit n c)"
  by (rule bit_word_eqI) (auto simp: bit_simps)

lemma key_value_code:
  assumes k: "dataType (getMetaData k) = FIXEDPOINT" and fit: "code_fits k c"
    and fb: "fixedPointToBits oor False v (getMetaData k) = (word_of_int c, n)"
  shows "key_value oor k v = fixed_value (getMetaData k) (word_of_int c)"
proof -
  note kk = fixed_key [OF k]
  then have w: "write_num oor k v = F64 v" by (auto simp: write_num_def)
  have n: "n = field_width k" using fb k by (simp add: fixedPointToBits_def field_width_def Let_def)
  have "(word_of_int c :: 64 word) = take_bit n (word_of_int c)"
  proof -
    have "take_bit n c = c" using fit n by (simp add: code_fits_def take_bit_int_eq_self_iff)
    then show ?thesis by (metis take_bit_word_of_int_64)
  qed
  then show ?thesis
    using kk k fb w by (simp add: key_value_def convertData_def decode_value_def)
qed

lemma fixed_point_accuracy:
  assumes k: "dataType (getMetaData k) = FIXEDPOINT" and v: "fl_value v = Some x"
    and x: "of_int (lowValue (getMetaData k)) \<le> x" "x \<le> of_int (highValue (getMetaData k))"
    and top: "k \<in> {MDK_COUNTER, MDK_OHM} \<Longrightarrow> x \<le> of_int (highValue (getMetaData k)) - 1"
  shows "\<exists>y. fl_value (key_value oor k v) = Some y
    \<and> \<bar>y - x\<bar> \<le> 1 / 2 / 10 ^ decimalPoint (getMetaData k) + 1 / 100000"
proof -
  let ?m = "getMetaData k"
  have m: "fp_entry ?m" using fixed_key [OF k] by simp
  have R: "1 \<le> resolution ?m" using resolution_bounds [OF m] by simp
  have v0: "near v x 0" using v by (simp add: near_def)
  obtain c where fb: "fixedPointToBits oor False v ?m
        = (word_of_int c, getBitCount (lowValue ?m) (highValue ?m) (decimalPoint ?m))"
    and c: "0 \<le> c" "c \<le> top_code ?m"
    and cx: "\<bar>of_int c - (x - of_int (lowValue ?m)) * resolution ?m\<bar> \<le> 1 / 2 + (0 * resolution ?m + 1 / 2 ^ 22)"
    by (rule fixedPointToBits_near [OF m v0 _ x]) simp
  have "c < top_code ?m" if kw: "k \<in> {MDK_COUNTER, MDK_OHM}"
  proof -
    have "decimalPoint ?m = 0 \<and> lowValue ?m = 0" using kw by (auto simp: getMetaData_def serialMap_def)
    then have tc: "top_code ?m = highValue ?m" and "\<bar>of_int c - x\<bar> \<le> 1 / 2 + 1 / 2 ^ 22"
      using cx by (simp_all add: top_code_def resolution_def)
    have "of_int c - x \<le> 1 / 2 + 1 / 2 ^ 22" by (rule abs_le_D1) fact
    also have "\<dots> < (1 :: rat)" by simp
    finally have "of_int c < (of_int (top_code ?m) :: rat)" unfolding tc using top [OF kw] by linarith
    then show ?thesis by (simp only: of_int_less_iff)
  qed
  then have "code_fits k c" using k c by (intro code_fits_top) auto
  then have kv: "key_value oor k v = fixed_value ?m (word_of_int c)" by (rule key_value_code [OF k _ fb])
  obtain y where y: "fl_value (key_value oor k v) = Some y" "\<bar>y - code_value ?m c\<bar> \<le> 1 / 2 ^ 17"
    using fixed_value_near [OF m c] unfolding kv near_def by blast
  have "code_value ?m c - x = (of_int c - (x - of_int (lowValue ?m)) * resolution ?m) / resolution ?m"
    using R by (simp add: code_value_def diff_divide_distrib)
  then have "\<bar>code_value ?m c - x\<bar> = \<bar>of_int c - (x - of_int (lowValue ?m)) * resolution ?m\<bar> / resolution ?m"
    using R by simp
  also have "\<dots> \<le> (1 / 2 + 1 / 2 ^ 22) / resolution ?m" using cx R by (intro divide_right_mono) auto
  also have "\<dots> \<le> 1 / 2 / resolution ?m + 1 / 2 ^ 22"
  proof -
    have "1 / 2 ^ 22 / resolution ?m \<le> 1 / 2 ^ 22 / 1" using R by (intro divide_left_mono) auto
    then show ?thesis by (simp add: add_divide_distrib)
  qed
  finally have cx': "\<bar>code_value ?m c - x\<bar> \<le> 1 / 2 / resolution ?m + 1 / 2 ^ 22" .
  have "\<bar>y - x\<bar> \<le> \<bar>y - code_value ?m c\<bar> + \<bar>code_value ?m c - x\<bar>" by linarith
  also have "\<dots> \<le> 1 / 2 ^ 17 + (1 / 2 / resolution ?m + 1 / 2 ^ 22)" by (rule add_mono [OF y(2) cx'])
  also have "\<dots> \<le> 1 / 2 / resolution ?m + 1 / 100000" by simp
  finally have "\<bar>y - x\<bar> \<le> 1 / 2 / resolution ?m + 1 / 100000" .
  then show ?thesis using y(1) by (simp add: resolution_def)
qed

lemma fixed_point_stable:
  assumes k: "dataType (getMetaData k) = FIXEDPOINT" and c: "code_fits k c"
  shows "key_value oor k (fixed_value (getMetaData k) (word_of_int c))
    = fixed_value (getMetaData k) (word_of_int c)"
proof -
  let ?m = "getMetaData k"
  have m: "fp_entry ?m" using fixed_key [OF k] by simp
  have R: "1 \<le> resolution ?m" "resolution ?m \<le> 1000" using resolution_bounds [OF m] by simp_all
  have c': "0 \<le> c" "c \<le> top_code ?m" using c by (auto simp: code_fits_def)
  obtain c2 where fb: "fixedPointToBits oor False (fixed_value ?m (word_of_int c)) ?m
        = (word_of_int c2, getBitCount (lowValue ?m) (highValue ?m) (decimalPoint ?m))"
    and cx: "\<bar>of_int c2 - (code_value ?m c - of_int (lowValue ?m)) * resolution ?m\<bar>
        \<le> 1 / 2 + (1 / 2 ^ 17 * resolution ?m + 1 / 2 ^ 22)"
    by (rule fixedPointToBits_near [OF m fixed_value_near [OF m c'] _ code_value_range [OF m c']]) simp
  have "(code_value ?m c - of_int (lowValue ?m)) * resolution ?m = of_int c"
    using R by (simp add: code_value_def)
  then have "\<bar>of_int c2 - (of_int c :: rat)\<bar> < 1" using cx R by simp
  then have "\<bar>c2 - c\<bar> < 1" by (metis of_int_1 of_int_abs of_int_diff of_int_less_iff)
  then have "c2 = c" by simp
  then show ?thesis using key_value_code [OF k c] fb by blast
qed

text \<open>The integer types: range of each key.\<close>

definition int_range :: "meta_data_key \<Rightarrow> (int \<times> int) option" where
  "int_range k =
     (if k = MDK_UINT_8 \<or> k = MDK_CHAR then Some (0, 2 ^ 8 - 1) else if k = MDK_INT_8 then Some (- (2 ^ 7), 2 ^ 7 - 1)
      else if k = MDK_UINT_16 then Some (0, 2 ^ 16 - 1) else if k = MDK_INT_16 then Some (- (2 ^ 15), 2 ^ 15 - 1)
      else if k = MDK_UINT_32 then Some (0, 2 ^ 32 - 1) else if k = MDK_INT_32 then Some (- (2 ^ 31), 2 ^ 31 - 1)
      else if k = MDK_UINT_64 then Some (0, 2 ^ 64 - 1) else if k = MDK_INT_64 then Some (- (2 ^ 63), 2 ^ 63 - 1)
      else None)"

lemma ucast_take_bit_ucast [simp]:
  "ucast (take_bit 8 (ucast w8 :: 64 word)) = (w8 :: 8 word)"
  "ucast (take_bit 16 (ucast w16 :: 64 word)) = (w16 :: 16 word)"
  "ucast (take_bit 32 (ucast w32 :: 64 word)) = (w32 :: 32 word)"
  "take_bit 64 w64 = (w64 :: 64 word)"
  by (rule bit_word_eqI, simp add: bit_simps)+

lemma uint_of_range:
  "0 \<le> c \<Longrightarrow> c < 2 ^ LENGTH('a) \<Longrightarrow> uint (word_of_int c :: 'a::len word) = c"
  by (simp add: uint_word_of_int)

lemma sint_of_range:
  "- (2 ^ (LENGTH('a) - 1)) \<le> c \<Longrightarrow> c < 2 ^ (LENGTH('a) - 1) \<Longrightarrow> sint (word_of_int c :: 'a::len word) = c"
  by (simp add: signed_of_int signed_take_bit_int_eq_self)

lemma integer_key_value:
  assumes r: "int_range k = Some (lo, hi)" and v: "fl_value v = Some x" "lo \<le> trunc x" "trunc x \<le> hi"
  shows "key_value oor k v = f64_of_int (trunc x)"
proof -
  have t: "fl_to_int oor lo hi v = trunc x" using v by (simp add: fl_to_int_def)
  have "k \<in> {30, 31, 32, 33, 34, 35, 36, 37, 39}" using r by (auto simp: int_range_def split: if_splits)
  then show ?thesis using r v(2,3) t
    by (elim insertE emptyE)
       (simp_all add: key_value_def write_num_def convertData_def dataTypeToBits_def getMetaData_def
         serialMap_def decode_value_def datapoint_value_def key_target_def int_range_def
         uint_of_range sint_of_range)
qed

end
