(* ===== verification/Rubix_Format.thy ===== *)
theory Rubix_Format
  imports Rubix_Roundtrip
begin

text \<open>
  The wire format of a Rubix payload as a reference decoding that knows nothing of the bit buffer: it works
  on the string of the payload's bits, cuts off position, key and data of one field after the other
  and reads the data as numbers, with the width and the scale of every key written out in a table.
  The decoder of decoder.go, with its byte vectors, shifts and masks and its data types looked up in
  serialmap.go, is shown to produce exactly these fields.
\<close>

unbundle bit_operations_syntax

subsection \<open>The format\<close>

text \<open>The number a bit string denotes, most significant bit first; reading \<open>n\<close> bits off the front, where
  bits that are missing make the whole number zero.\<close>

definition bits_num :: "bool list \<Rightarrow> nat" where
  "bits_num bs = foldl (\<lambda>n b. 2 * n + of_bool b) 0 bs"

definition read_num :: "nat \<Rightarrow> bool list \<Rightarrow> nat \<times> bool list" where
  "read_num n bs = (if n \<le> length bs then bits_num (take n bs) else 0, drop n bs)"

text \<open>The fixed-point keys: number of bits, lowest value, decimals.\<close>

definition fixed_format :: "nat \<Rightarrow> (nat \<times> int \<times> nat) option" where
  "fixed_format = map_of [(1, 15, - 45, 2), (2, 14, 0, 2), (3, 16, 0, 0), (4, 1, 0, 0), (5, 20, 0, 0), (6, 1, 0, 0),
     (7, 10, 0, 2), (8, 11, 4, 2), (10, 20, 0, 0), (11, 9, 0, 0), (12, 6, 0, 1), (13, 11, 0, 0), (16, 10, 0, 3),
     (38, 1, 0, 0), (61, 8, 0, 0), (62, 8, 0, 0)]"

text \<open>The other keys are integers of 8 to 64 bits, a float32 and an error code.  A key that is not known has no data.\<close>

definition wire_bits :: "nat \<Rightarrow> nat" where
  "wire_bits k =
     (case fixed_format k of
        Some (n, low, decimals) \<Rightarrow> n
      | None \<Rightarrow> if k \<in> {30, 31, 39, 43} then 8 else if k \<in> {32, 33} then 16
          else if k \<in> {34, 35, 40} then 32 else if k \<in> {36, 37} then 64 else 0)"

definition wire_value :: "nat \<Rightarrow> nat \<Rightarrow> gofloat" where
  "wire_value k n =
     (case fixed_format k of
        Some (_, low, decimals) \<Rightarrow>
          f32_of_f64 (fl_addc mk_f64 (fl_divc mk_f64 (f64_of_int (int n)) (10 ^ decimals)) (of_int low))
      | None \<Rightarrow>
          if k \<in> {30, 32, 34, 36, 39} then f64_of_int (int n)
          else if k \<in> {31, 33, 35, 37}
          then f64_of_int (if n < 2 ^ (wire_bits k - 1) then int n else int n - 2 ^ wire_bits k)
          else if k = 40 then f32_of_bits (of_nat n)
          else Fin 0)"

definition wire_error :: "nat \<Rightarrow> nat \<Rightarrow> goerr option" where
  "wire_error k n = (if k = 43 then error_of_code (of_nat n) else None)"

text \<open>A payload's fields, from its bits without the first byte: a position byte for each when the first byte
  says so (otherwise the fields are numbered), a key of six bits, and the data.  Fewer than seven bits are padding.\<close>

function wire_points :: "bool \<Rightarrow> position_data \<Rightarrow> bool list \<Rightarrow> (string \<times> gofloat \<times> goerr option) list" where
  "wire_points hasPos pos bs =
     (if length bs < 7 then []
      else let (pos, bs) = (if hasPos
                 then case read_num 8 bs of (p, bs) \<Rightarrow> (\<lparr>pos_ID = p mod 32, pos_Type = p div 32\<rparr>, bs)
                 else (pos, bs));
               (k, bs) = read_num 6 bs;
               (n, bs) = read_num (wire_bits k) bs
           in (generateFieldName (int k) pos, wire_value k n, wire_error k n)
              # wire_points hasPos (pos\<lparr>pos_ID := pos_ID pos + 1\<rparr>) bs)"
  by pat_completeness auto
termination
  by (relation "measure (\<lambda>(hasPos, pos, bs). length bs)") (auto simp: read_num_def split: if_splits)

declare wire_points.simps [simp del]

subsection \<open>Numbers and words\<close>

lemma bits_num_simps [simp]: "bits_num [] = 0" "bits_num (bs @ [b]) = 2 * bits_num bs + of_bool b"
  by (simp_all add: bits_num_def)

lemma bits_num_less: "bits_num bs < 2 ^ length bs"
  by (induction bs rule: rev_induct) auto

lemma bits_val_num: "bits_val bs = of_nat (bits_num bs)"
proof (induction bs rule: rev_induct)
  case (snoc b bs)
  have "bits_val (bs @ [b]) = of_bool b + 2 * bits_val bs" by (simp add: bits_val_def)
  then show ?case using snoc by simp
qed simp

lemma read_num_less: "fst (read_num n bs) < 2 ^ n"
  using bits_num_less [of "take n bs"] by (auto simp: read_num_def)

text \<open>A read of the code's buffer is a read off the rest of its bit string.\<close>

lemma peek_bits_num: "peek_bits buf n pos = of_nat (fst (read_num n (drop pos (bits_of buf))))"
proof (cases "n = 0")
  case False
  then have "pos + n \<le> 8 * length buf \<longleftrightarrow> n \<le> length (drop pos (bits_of buf))" by auto
  then show ?thesis by (simp add: peek_bits_def read_num_def bits_val_num)
qed (simp add: peek_bits_def read_num_def)

lemma unat_peek: "n \<le> 64 \<Longrightarrow> unat (peek_bits buf n pos) = fst (read_num n (drop pos (bits_of buf)))"
proof -
  assume "n \<le> 64"
  then have "(2 :: nat) ^ n \<le> 2 ^ 64" by (rule power_increasing) simp
  then have "fst (read_num n (drop pos (bits_of buf))) < 2 ^ 64"
    using read_num_less [of n "drop pos (bits_of buf)"] by linarith
  then show ?thesis by (simp add: peek_bits_num unsigned_of_nat take_bit_nat_eq_self)
qed

lemma uint_peek: "n \<le> 64 \<Longrightarrow> uint (peek_bits buf n pos) = int (fst (read_num n (drop pos (bits_of buf))))"
  using unat_peek [of n buf pos] by (metis of_nat_unat)

lemma ucast_num: "LENGTH('a) \<le> 64 \<Longrightarrow> ucast (of_nat n :: 64 word) = (of_nat n :: 'a::len word)"
  by (rule bit_word_eqI) (auto simp: bit_simps)

lemma uint_num: "n < 2 ^ LENGTH('a) \<Longrightarrow> uint (of_nat n :: 'a::len word) = int n"
  by (simp add: unsigned_of_nat take_bit_nat_eq_self)

lemma sint_num:
  assumes "n < 2 ^ LENGTH('a)"
  shows "sint (of_nat n :: 'a::len word) = (if n < 2 ^ (LENGTH('a) - 1) then int n else int n - 2 ^ LENGTH('a))"
proof -
  have "sint (of_nat n :: 'a word) = signed_take_bit (LENGTH('a) - 1) (int n)"
    using uint_num [OF assms] by (simp add: sint_uint)
  moreover have "LENGTH('a) = Suc (LENGTH('a) - 1)" by simp
  then obtain m where m: "LENGTH('a) = Suc m" by blast
  moreover have "bit n m \<longleftrightarrow> \<not> n < 2 ^ m"
  proof (cases "n < 2 ^ m")
    case False
    then have "n div 2 ^ m = 1" using assms m by (intro div_nat_eqI) simp_all
    then show ?thesis using False by (simp add: bit_iff_odd)
  qed (simp add: bit_iff_odd)
  moreover have "take_bit (Suc m) (int n) = int n"
    using assms m by (intro take_bit_int_eq_self) (simp_all only: of_nat_0_le_iff of_nat_less_numeral_power_cancel_iff)
  ultimately show ?thesis
    by (simp add: signed_take_bit_eq_take_bit_minus bit_of_nat_iff_bit)
qed

subsection \<open>The code's decoder reads this format\<close>

lemma field_width_format: "decodable k \<Longrightarrow> field_width k = wire_bits (nat k)"
proof (erule decodable_cases)
  assume "k \<in> {1, 2, 3, 4, 5, 6, 7, 8, 10, 11, 12, 13, 16, 61, 62, 38}"
  then show ?thesis
    by (elim insertE emptyE) (simp_all add: field_width_def getMetaData_def serialMap_def Let_def getBitCount_def
       bit_count_loop.simps wire_bits_def fixed_format_def)
next
  assume "k \<in> {30, 31, 32, 33, 34, 35, 36, 37, 39, 40, 43}"
  then show ?thesis
    by (elim insertE emptyE) (simp_all add: field_width_def getMetaData_def serialMap_def wire_bits_def fixed_format_def)
qed

lemma unknown_key_format:
  assumes "\<not> decodable (int k)"
  shows "wire_bits k = 0 \<and> wire_value k n = Fin 0 \<and> wire_error k n = None"
proof -
  have "decodable (int j)" if "j \<in> {1, 2, 3, 4, 5, 6, 7, 8, 10, 11, 12, 13, 16, 61, 62, 38, 30, 31, 32, 33, 34, 35, 36, 37, 39, 40, 43}" for j
    using that by (elim insertE emptyE) (simp_all add: decodable_def key_target_def)
  then have "k \<notin> {1, 2, 3, 4, 5, 6, 7, 8, 10, 11, 12, 13, 16, 61, 62, 38, 30, 31, 32, 33, 34, 35, 36, 37, 39, 40, 43}"
    using assms by blast
  then show ?thesis by (simp add: wire_bits_def wire_value_def wire_error_def fixed_format_def)
qed

lemma field_point_format:
  assumes "decodable k" "n < 2 ^ field_width k"
  shows "field_point pos k (of_nat n) = (generateFieldName k pos, wire_value (nat k) n, wire_error (nat k) n)"
  using assms(1)
proof (cases rule: decodable_cases)
  case 1
  have "(2 :: nat) ^ field_width k \<le> 2 ^ 64"
    using field_width_bounds [OF assms(1)] by (intro power_increasing) simp_all
  then have "uint (of_nat n :: 64 word) = int n" using assms(2) by (intro uint_num) simp
  then show ?thesis using 1 
    by (elim insertE emptyE) (simp_all add: field_point_def decode_value_def fixed_value_def getMetaData_def serialMap_def
       wire_value_def wire_error_def fixed_format_def Let_def)
next
  case 2
  then show ?thesis using assms(2)
    by (elim insertE emptyE) (simp_all add: field_point_def decode_value_def datapoint_value_def getMetaData_def serialMap_def
       wire_value_def wire_error_def fixed_format_def key_target_def field_width_def wire_bits_def error_code_def
       ucast_num uint_num sint_num Let_def)
qed

lemma decodePointRubix_format:
  fixes k :: nat
  defines "n \<equiv> \<lambda>sd. fst (read_num (wire_bits k) (drop (ReadBitPos sd) (bits_of (Buffer sd))))"
  shows "decodePointRubix sd (int k) pos =
    ((generateFieldName (int k) pos, wire_value k (n sd), wire_error k (n sd)), sd\<lparr>ReadBitPos := ReadBitPos sd + wire_bits k\<rparr>)"
proof (cases "decodable (int k)")
  case True
  have "n sd < 2 ^ field_width (int k)"
    unfolding n_def field_width_format [OF True] using read_num_less by simp
  from field_point_format [OF True this] show ?thesis
    by (simp add: decodePointRubix_peek [OF True] field_width_format [OF True] peek_bits_num n_def)
next
  case False
  then have "key_target (int k) = None" by (simp add: decodable_def)
  then show ?thesis by (simp add: decodePointRubix_def unknown_key_format [OF False])
qed

text \<open>The metadata of a field: the position byte, if the flag is set, and the key.\<close>

lemma parsePosition_num: "n < 256 \<Longrightarrow> parsePosition (of_nat n) = \<lparr>pos_ID = n mod 32, pos_Type = n div 32\<rparr>"
proof -
  assume "n < 256"
  then have "unat (of_nat n :: byte) = n" by (simp add: unsigned_of_nat take_bit_nat_eq_self)
  moreover have "(of_nat n AND 31 :: byte) = take_bit 5 (of_nat n)" by (rule byte_and_31)
  ultimately show ?thesis
    by (simp add: parsePosition_def unat_mod unat_div take_bit_eq_mod drop_bit_eq_div)
qed

lemma parseMetaData_format:
  assumes "hasPositionalData sd = Some hp"
  defines "bs \<equiv> drop (ReadBitPos sd) (bits_of (Buffer sd))"
  defines "w \<equiv> if hp then 8 else 0"
  shows "parseMetaData sd = Some ((int (fst (read_num 6 (drop w bs))),
      if hp then \<lparr>pos_ID = fst (read_num 8 bs) mod 32, pos_Type = fst (read_num 8 bs) div 32\<rparr> else \<lparr>pos_ID = 0, pos_Type = 0\<rparr>),
    sd\<lparr>ReadBitPos := ReadBitPos sd + w + 6\<rparr>)"
proof (cases hp)
  case True
  have "fst (read_num 8 bs) < 256" using read_num_less [of 8 bs] by simp
  moreover have "uint (peek_bits (Buffer sd) 6 (ReadBitPos sd + 8)) = int (fst (read_num 6 (drop 8 bs)))"
    by (simp add: uint_peek bs_def add.commute)
  moreover have "ucast (peek_bits (Buffer sd) 8 (ReadBitPos sd)) = (of_nat (fst (read_num 8 bs)) :: byte)"
    by (simp add: peek_bits_num bs_def ucast_num)
  ultimately show ?thesis
    using parseMetaData_peek [of sd] assms(1) True by (simp add: w_def parsePosition_num add.commute)
next
  case False
  have "uint (peek_bits (Buffer sd) 6 (ReadBitPos sd)) = int (fst (read_num 6 bs))"
    by (simp add: uint_peek bs_def)
  moreover obtain v s r sd' where g: "getVector sd 6 (ReadBitPos sd) = ((v, s, r), sd')" by (metis prod.collapse)
  ultimately show ?thesis using read_bits [OF _ _ g] assms(1) False by (simp add: parseMetaData_def w_def g)
qed

lemma rubix_points_format:
  assumes "hasPositionalData sd = Some hp"
  shows "rubix_points hp pos sd = wire_points hp pos (drop (ReadBitPos sd) (bits_of (Buffer sd)))"
  using assms
proof (induction hp pos sd rule: rubix_points.induct)
  case (1 hp pos sd)
  let ?bs = "drop (ReadBitPos sd) (bits_of (Buffer sd))"
  have stop: "canDecode sd \<longleftrightarrow> 7 \<le> length ?bs" by (auto simp: canDecode_def)
  show ?case
  proof (cases "canDecode sd")
    case False
    then show ?thesis using stop by (simp add: rubix_points.simps [of hp pos sd] wire_points.simps [of hp pos])
  next
    case True
    define w where "w = (if hp then 8 else 0 :: nat)"
    define k where "k = fst (read_num 6 (drop w ?bs))"
    define q where "q = (if hp then \<lparr>pos_ID = fst (read_num 8 ?bs) mod 32, pos_Type = fst (read_num 8 ?bs) div 32\<rparr> else \<lparr>pos_ID = 0, pos_Type = 0\<rparr>)"
    define q' where "q' = (if hp then q else pos)"
    let ?sd1 = "sd\<lparr>ReadBitPos := ReadBitPos sd + w + 6\<rparr>"
    let ?sd2 = "?sd1\<lparr>ReadBitPos := ReadBitPos ?sd1 + wire_bits k\<rparr>"
    let ?n = "fst (read_num (wire_bits k) (drop (w + 6) ?bs))"
    have pm: "parseMetaData sd = Some ((int k, q), ?sd1)"
      using parseMetaData_format [OF "1.prems"] by (simp add: k_def q_def w_def)
    have d: "drop (ReadBitPos ?sd1) (bits_of (Buffer sd)) = drop (w + 6) ?bs" by (simp add: ac_simps)
    have dp: "decodePointRubix ?sd1 (int k) q' = ((generateFieldName (int k) q', wire_value k ?n, wire_error k ?n), ?sd2)"
      using decodePointRubix_format [of ?sd1 k q'] d by simp
    have hp2: "hasPositionalData ?sd2 = Some hp" using "1.prems" by (simp add: hasPositionalData_def)
    have "rubix_points hp pos sd = (generateFieldName (int k) q', wire_value k ?n, wire_error k ?n)
        # rubix_points hp (q'\<lparr>pos_ID := pos_ID q' + 1\<rparr>) ?sd2"
      unfolding rubix_points.simps [of hp pos sd] using True pm dp by (simp add: q'_def)
    moreover have "rubix_points hp (q'\<lparr>pos_ID := pos_ID q' + 1\<rparr>) ?sd2
        = wire_points hp (q'\<lparr>pos_ID := pos_ID q' + 1\<rparr>) (drop (w + 6 + wire_bits k) ?bs)"
      using "1.IH" [OF True pm refl refl q'_def dp [symmetric] refl hp2] by (simp add: ac_simps)
    moreover have "wire_points hp pos ?bs = (generateFieldName (int k) q', wire_value k ?n, wire_error k ?n)
        # wire_points hp (q'\<lparr>pos_ID := pos_ID q' + 1\<rparr>) (drop (w + 6 + wire_bits k) ?bs)"
      using True stop unfolding wire_points.simps [of hp pos ?bs]
      by (cases hp) (simp_all add: read_num_def k_def q_def q'_def w_def Let_def ac_simps)
    ultimately show ?thesis by simp
  qed
qed

text \<open>The fields of a payload: the flag is the last bit of the first byte.\<close>

definition payload_fields :: "byte list \<Rightarrow> (string \<times> gofloat \<times> goerr option) list" where
  "payload_fields payload = (case payload of [] \<Rightarrow> []
     | b # bs \<Rightarrow> wire_points (odd (unat b)) \<lparr>pos_ID = 0, pos_Type = 0\<rparr> (bits_of bs))"

lemma payload_points_format: "payload_points payload = payload_fields payload"
proof (cases payload)
  case (Cons b bs)
  have "b AND 1 = 1 \<longleftrightarrow> bit b 0" by (simp add: and_one_eq odd_iff_mod_2_eq_one bit_0)
  also have "\<dots> \<longleftrightarrow> bit (unat b) 0" by (simp add: bit_unsigned_iff)
  finally have "b AND 1 = 1 \<longleftrightarrow> odd (unat b)" by (simp add: bit_0)
  then show ?thesis using rubix_points_format [of "NewSerialDataWithBuffer payload" "b AND 1 = 1"] Cons
    by (simp add: payload_points_def payload_fields_def NewSerialDataWithBuffer_def)
qed (simp add: payload_points_def payload_fields_def)

end
