(* ===== verification/Rubix_Wire.thy ===== *)
theory Rubix_Wire
  imports Rubix_Values Rubix_Format Legacy_Decoders
begin

text \<open>
  The contract of the Rubix wire format: what the bit buffer promises its two clients, what
  the decode loop reports, and what comes out of the decoder when the encoder's message for
  one or several points is fed to it.
\<close>

unbundle bit_operations_syntax

subsection \<open>Example points\<close>

definition example_point :: "string \<Rightarrow> string \<Rightarrow> gofloat \<Rightarrow> point" where
  "example_point io dt v = zero_point\<lparr>pt_UUID := ''p'', pt_IoNumber := io, pt_DataType := dt, pt_DeviceUUID := ''dev'',
     pt_AddressUUID := Some ''C0FFEE01'', pt_WriteValue := Some v\<rparr>"

lemma small_numerals:
  "itoa_nat 1 = ''1''" "itoa_nat 5 = ''5''" "itoa_nat 13 = ''13''" "itoa_nat 31 = ''31''" "itoa_nat 38 = ''38''"
  "itoa_nat 4 = ''4''" "itoa_nat 8 = ''8''"
  by (simp_all add: itoa_nat.simps digit_char_def char_of_def bit_0)

lemma example_numbers:
  "atoi ''1'' = Inr 1" "atoi ''5'' = Inr 5" "atoi ''13'' = Inr 13" "atoi ''31'' = Inr 31" "atoi ''38'' = Inr 38"
  "atoi ''8'' = Inr 8"
  using atoi_itoa_nat [of 1] atoi_itoa_nat [of 5] atoi_itoa_nat [of 13] atoi_itoa_nat [of 31]
    atoi_itoa_nat [of 38] atoi_itoa_nat [of 8]
  by (simp_all add: small_numerals [simplified])

lemma example_names:
  "generateFieldName k (parsePosition 96) = ''UI-1''" "generateFieldName k (parsePosition 163) = ''UVP-4''"
  using small_numerals by (simp_all add: parsePosition_def generateFieldName_def itoa_def)

lemma example_positions:
  "getPosition ''UI-1'' = Inr 96" "getPosition ''UVP-4'' = Inr 163"
  using getPosition_generateFieldName [of 96 0] getPosition_generateFieldName [of 163 0]
  by (simp_all add: example_names) (simp_all add: parsePosition_def)

lemma example_writable:
  assumes "k \<in> {1, 5, 13, 31, 38}" "atoi dt = Inr k" "(io, p) \<in> {(''UI-1'', 96), (''UVP-4'', 163)}"
  shows "writable_point (example_point io dt v)"
  using assms by (auto simp: writable_point_def example_point_def decodable_def key_target_def
      example_positions example_names)

subsection \<open>The bit buffer\<close>

text \<open>C30: Writing a value of 1 to 64 bits into a buffer that holds a bit string appends exactly
  those bits, and reading the same number of bits back at that position, whatever its
  alignment, returns the value cut to its width.\<close>

theorem bit_buffer_put_get:
  assumes "ser_rep sd xs" "0 < n" "n \<le> 64"
  shows "\<exists>sd'. addVectorToBuffer sd (bitsToVector d n []) n = Some sd' \<and> ser_rep sd' (xs @ val_bits n d)
    \<and> (case getVector sd' n (length xs) of ((v, shiftPos, bytesRequired), _) \<Rightarrow>
          vectorToBits v n shiftPos bytesRequired = take_bit n d)"
proof -
  obtain sd' where sd': "addVectorToBuffer sd (bitsToVector d n []) n = Some sd'" "ser_rep sd' (xs @ val_bits n d)"
    using serial.put_rep [OF assms(1) vec_rep_bitsToVector [OF assms(2,3), of d]] by auto
  obtain v s r sd2 where gv: "getVector sd' n (length xs) = ((v, s, r), sd2)" by (metis prod.collapse)
  have "bits_of (Buffer sd') = xs @ val_bits n d @ replicate ((8 - WriteBitPos sd') mod 8) False"
    using sd'(2) by (simp add: ser_rep_def)
  from peek_bits_append [OF this refl assms(3)] vectorToBits_getVector [OF gv assms(2,3)] show ?thesis
    using sd' gv by auto
qed

theorem bit_buffer_put_get_witness:
  "\<exists>sd sd'. setPositionalData NewSerialData True = Some sd
     \<and> addVectorToBuffer sd (bitsToVector 5 3 []) 3 = Some sd'
     \<and> (case getVector sd' 3 8 of ((v, s, r), _) \<Rightarrow> vectorToBits v 3 s r = take_bit 3 5)"
proof -
  obtain sd where sd: "setPositionalData NewSerialData True = Some sd"
    by (simp add: setPositionalData_NewSerialData)
  from bit_buffer_put_get [OF ser_rep_init [OF sd], of 3 5] show ?thesis using sd by auto
qed

text \<open>The width of a fixed-point field is the least positive number of bits whose range
  covers the number of steps \<^verbatim>\<open>(high - low) * 10^decimal\<close> (computed in 64 bits), so the loop
  ends; it does not cover the steps plus one, which is the number of codes.\<close>

theorem bit_count_least:
  "let steps = unat ((word_of_int (high - low) :: 64 word) * 10 ^ decimal); n = getBitCount low high decimal
   in 0 < n \<and> n \<le> 64 \<and> steps \<le> 2 ^ n \<and> (n = 1 \<or> 2 ^ (n - 1) < steps)"
  using bit_count_loop_bounds [of 1 "unat ((word_of_int (high - low) :: 64 word) * 10 ^ decimal)"]
    getBitCount_le_64 [of low high decimal] getBitCount_pos [of low high decimal]
  by (simp add: getBitCount_def Let_def) linarith

subsection \<open>The decode loop\<close>

text \<open>C31: Decoding a payload with the byte vectors, shifts and tables of the code is decoding its string of bits
  by the format: without the first byte, whose last bit says whether the fields have position bytes, the
  bits are position, six bits of key and the key's number of data bits, over and over, until fewer
  than seven are left, and the value of a field is its bits read as a number and scaled as the format
  says (error codes and unknown keys included).  Each field is reported by one callback, in the order of
  the stream, and no error is returned; an empty payload is a run-time panic (the flag byte is read
  without a length check).\<close>

theorem decode_rubix_reports:
  "DecodeRubix payload dev devDesc msgId fns s =
     (case payload of
        [] \<Rightarrow> None
      | b # bs \<Rightarrow> map_option (Pair None)
          (foldM (report fns dev devDesc msgId)
             (wire_points (odd (unat b)) \<lparr>pos_ID = 0, pos_Type = 0\<rparr> (bits_of bs)) s))"
  using DecodeRubix_fold [of payload dev devDesc msgId fns s] DecodeRubix_empty [of dev devDesc msgId fns s]
  by (cases payload) (auto simp: payload_points_format payload_fields_def)

subsection \<open>Positions\<close>

text \<open>Every position byte of a typed point (all but the general type) has a field name that
  the encoder maps back to that byte, whatever the metadata key.\<close>

theorem position_names_roundtrip:
  assumes "32 \<le> p"
  shows "getPosition (generateFieldName k (parsePosition p)) = Inr p"
proof (rule getPosition_generateFieldName)
  have "32 \<le> unat p" using assms by (simp add: word_le_nat_alt)
  then show "0 < pos_Type (parsePosition p)"
    by (simp add: parsePosition_def drop_bit_eq_div unat_div div_greater_zero_iff)
qed

theorem position_names_roundtrip_witness:
  "getPosition (generateFieldName MDK_TEMP (parsePosition 163)) = Inr 163"
  by (rule position_names_roundtrip) simp

subsection \<open>Write requests\<close>

text \<open>Encoding a write request never panics: it returns the error of the first point that has
  no write value, a data type that is not a number or an I/O number that is no position, and
  otherwise a buffer whose bits are the flag byte, the fields of the points in order (none for
  a point whose value does not fit its data type) and less than a byte of zero padding.\<close>

theorem encode_request_result:
  "case List.map_filter point_error pts of
     e # _ \<Rightarrow> EncodeRequestMessage oor pts = Some (Inl e)
   | [] \<Rightarrow> \<exists>buf r. EncodeRequestMessage oor pts = Some (Inr buf) \<and> r < 8
        \<and> bits_of buf = byte_bits 1 @ concat (map (point_bits oor) pts) @ replicate r False"
  by (rule EncodeRequestMessage_result)

lemma foldM_recorder:
  "foldM (report \<lparr>fnPoint = Some (updatePointFn recorder), fnPointErr = Some (updatePointErrFn recorder),
      fnWritten = None, fnWrittenErr = None\<rparr> dev dd msgId) (map (\<lambda>(n, v). (n, v, None)) xs) s
   = Some (s @ map (\<lambda>(n, v). PointOk n v dd) xs)"
  by (induction xs arbitrary: s) (auto simp: report_def recorder_def)

lemma uplink_recorder:
  assumes "buf \<noteq> []" "payload_points buf = map (\<lambda>(n, v). (n, v, None)) xs"
  shows "DecodeRubixUplink buf dd dev recorder [] = Some (None, map (\<lambda>(n, v). PointOk n v dd) xs)"
  unfolding DecodeRubixUplink_def DecodeRubix_fold [OF assms(1)] assms(2) foldM_recorder by simp

lemma padding_points_values:
  "padding_points r = map (\<lambda>(n, v). (n, v, None)) (if r = 7 then [(''unknown-1'', Fin 0)] else [])"
  by (simp add: padding_points_def)

text \<open>C7: The message for points with decodable data types and canonical I/O numbers, decoded as
  an uplink, reports exactly those points in order, each with the value its data type carries;
  seven bits of padding add one junk point.\<close>

theorem request_roundtrip:
  assumes "\<forall>pt \<in> set pts. writable_point pt"
  shows "\<exists>buf (r :: nat). EncodeRequestMessage oor pts = Some (Inr buf) \<and> r < 8
    \<and> DecodeRubixUplink buf dd dev recorder [] =
        Some (None, map (\<lambda>pt. PointOk (pt_IoNumber pt) (sent_value oor pt) dd) pts
                    @ (if r = 7 then [PointOk ''unknown-1'' (Fin 0) dd] else []))"
proof -
  obtain buf r where b: "EncodeRequestMessage oor pts = Some (Inr buf)" "r < 8" "buf \<noteq> []"
    "payload_points buf = map (\<lambda>pt. (pt_IoNumber pt, sent_value oor pt, None)) pts @ padding_points r"
    using request_decodes [OF assms] by blast
  have "payload_points buf = map (\<lambda>(n, v). (n, v, None))
      (map (\<lambda>pt. (pt_IoNumber pt, sent_value oor pt)) pts @ (if r = 7 then [(''unknown-1'', Fin 0)] else []))"
    using b(4) by (simp add: padding_points_values)
  from uplink_recorder [OF b(3) this] b(1,2) show ?thesis by auto
qed

theorem request_roundtrip_witness:
  "\<exists>buf (r :: nat). EncodeRequestMessage (\<lambda>_. 0) [example_point ''UVP-4'' ''38'' (Fin 1)] = Some (Inr buf) \<and> r < 8
    \<and> DecodeRubixUplink buf None example_device recorder [] =
        Some (None, map (\<lambda>pt. PointOk (pt_IoNumber pt) (sent_value (\<lambda>_. 0) pt) None) [example_point ''UVP-4'' ''38'' (Fin 1)]
                    @ (if r = 7 then [PointOk ''unknown-1'' (Fin 0) None] else []))"
proof (rule request_roundtrip)
  show "\<forall>pt \<in> set [example_point ''UVP-4'' ''38'' (Fin 1)]. writable_point pt"
    using example_writable [of 38 "''38''" "''UVP-4''" 163] by (simp add: example_numbers)
qed

lemma writable_one:
  assumes "writable_point pt"
  obtains buf r where "EncodeRequestMessage oor [pt] = Some (Inr buf)" "r < 8" "buf \<noteq> []"
    "payload_points buf = (pt_IoNumber pt, sent_value oor pt, None) # padding_points r"
  using request_decodes [of "[pt]" oor] assms by auto

text \<open>C26: A value written to a fixed-point type comes back, after the trip through the encoder and
  the decoder, within half a step of the type's resolution plus float32 rounding, for every
  value in the type's range (up to one below the top for the two 20-bit counters).\<close>

theorem fixed_point_write_accuracy:
  assumes "writable_point pt" "atoi (pt_DataType pt) = Inr k" "pt_WriteValue pt = Some v"
    and "dataType (getMetaData k) = FIXEDPOINT" "fl_value v = Some x"
    and "of_int (lowValue (getMetaData k)) \<le> x" "x \<le> of_int (highValue (getMetaData k))"
    and "k \<in> {MDK_COUNTER, MDK_OHM} \<Longrightarrow> x \<le> of_int (highValue (getMetaData k)) - 1"
  shows "\<exists>buf rest w y. EncodeRequestMessage oor [pt] = Some (Inr buf)
    \<and> payload_points buf = (pt_IoNumber pt, w, None) # rest \<and> fl_value w = Some y
    \<and> \<bar>y - x\<bar> \<le> 1 / 2 / 10 ^ decimalPoint (getMetaData k) + 1 / 100000"
proof -
  obtain buf r where "EncodeRequestMessage oor [pt] = Some (Inr buf)"
    "payload_points buf = (pt_IoNumber pt, sent_value oor pt, None) # padding_points r"
    using writable_one [OF assms(1)] by metis
  moreover have "sent_value oor pt = key_value oor k v" using assms(2,3) by (simp add: sent_value_def)
  ultimately show ?thesis using fixed_point_accuracy [OF assms(4-8), of oor] by auto
qed

theorem fixed_point_write_accuracy_witness:
  "\<exists>buf rest w y. EncodeRequestMessage (\<lambda>_. 0) [example_point ''UI-1'' ''1'' (Fin 21)] = Some (Inr buf)
    \<and> payload_points buf = (''UI-1'', w, None) # rest \<and> fl_value w = Some y \<and> \<bar>y - 21\<bar> \<le> 1 / 2 / 10 ^ 2 + 1 / 100000"
proof -
  have "getMetaData 1 = mk_meta FIXEDPOINT (- 45) 120 2 0" by (simp add: getMetaData_def serialMap_def)
  moreover have "writable_point (example_point ''UI-1'' ''1'' (Fin 21))"
    using example_writable [of 1 "''1''" "''UI-1''" 96] by (simp add: example_numbers)
  ultimately show ?thesis
    using fixed_point_write_accuracy [where pt = "example_point ''UI-1'' ''1'' (Fin 21)" and k = 1
        and v = "Fin 21" and x = 21 and oor = "\<lambda>_. 0"]
    by (simp add: example_point_def example_numbers mk_meta_def)
qed

text \<open>C27: Writing back a value that was read from a fixed-point field sends the code it was read
  from: the decoded value is a fixed point of encoding and decoding, for every code of the type
  that fits the field.\<close>

theorem fixed_point_write_back:
  assumes "writable_point pt" "atoi (pt_DataType pt) = Inr k" "dataType (getMetaData k) = FIXEDPOINT"
    and "0 \<le> c" "c \<le> top_code (getMetaData k)" "k \<in> {MDK_COUNTER, MDK_OHM} \<longrightarrow> c < top_code (getMetaData k)"
    and "pt_WriteValue pt = Some (fixed_value (getMetaData k) (word_of_int c))"
  shows "\<exists>buf rest. EncodeRequestMessage oor [pt] = Some (Inr buf)
    \<and> payload_points buf = (pt_IoNumber pt, fixed_value (getMetaData k) (word_of_int c), None) # rest"
proof -
  obtain buf r where "EncodeRequestMessage oor [pt] = Some (Inr buf)"
    "payload_points buf = (pt_IoNumber pt, sent_value oor pt, None) # padding_points r"
    using writable_one [OF assms(1)] by metis
  moreover have "sent_value oor pt = fixed_value (getMetaData k) (word_of_int c)"
    using assms(2,7) fixed_point_stable [OF assms(3) code_fits_top [OF assms(3-6)], of oor]
    by (simp add: sent_value_def)
  ultimately show ?thesis by auto
qed

theorem fixed_point_write_back_witness:
  "\<exists>buf rest. EncodeRequestMessage (\<lambda>_. 0)
       [example_point ''UI-1'' ''1'' (fixed_value (getMetaData 1) (word_of_int 6637))] = Some (Inr buf)
    \<and> payload_points buf = (''UI-1'', fixed_value (getMetaData 1) (word_of_int 6637), None) # rest"
proof -
  let ?pt = "example_point ''UI-1'' ''1'' (fixed_value (getMetaData 1) (word_of_int 6637))"
  have m: "getMetaData 1 = mk_meta FIXEDPOINT (- 45) 120 2 0" by (simp add: getMetaData_def serialMap_def)
  have w: "writable_point ?pt" using example_writable [of 1 "''1''" "''UI-1''" 96] by (simp add: example_numbers)
  have t: "top_code (getMetaData 1) = 16500" by (simp add: top_code_def m mk_meta_def)
  have "atoi (pt_DataType ?pt) = Inr 1" "pt_IoNumber ?pt = ''UI-1''"
    "pt_WriteValue ?pt = Some (fixed_value (getMetaData 1) (word_of_int 6637))"
    by (simp_all add: example_point_def example_numbers)
  with fixed_point_write_back [OF w, of 1 6637 "\<lambda>_. 0"] show ?thesis by (simp add: t) (simp add: m mk_meta_def)
qed

text \<open>C28: A value written to an integer type arrives exactly, truncated towards zero, when the
  truncated value is in the type's range.\<close>

theorem integer_write_exact:
  assumes "writable_point pt" "atoi (pt_DataType pt) = Inr k" "pt_WriteValue pt = Some v"
    and "int_range k = Some (lo, hi)" "fl_value v = Some x" "lo \<le> trunc x" "trunc x \<le> hi"
  shows "\<exists>buf rest. EncodeRequestMessage oor [pt] = Some (Inr buf)
    \<and> payload_points buf = (pt_IoNumber pt, f64_of_int (trunc x), None) # rest"
proof -
  obtain buf r where "EncodeRequestMessage oor [pt] = Some (Inr buf)"
    "payload_points buf = (pt_IoNumber pt, sent_value oor pt, None) # padding_points r"
    using writable_one [OF assms(1)] by metis
  moreover have "sent_value oor pt = f64_of_int (trunc x)"
    using assms(2,3) integer_key_value [OF assms(4-7), of oor] by (simp add: sent_value_def)
  ultimately show ?thesis by auto
qed

theorem integer_write_exact_witness:
  "\<exists>buf rest. EncodeRequestMessage (\<lambda>_. 0) [example_point ''UI-1'' ''31'' (Fin (17 / 2))] = Some (Inr buf)
    \<and> payload_points buf = (''UI-1'', f64_of_int 8, None) # rest"
proof -
  let ?pt = "example_point ''UI-1'' ''31'' (Fin (17 / 2))"
  have w: "writable_point ?pt" using example_writable [of 31 "''31''" "''UI-1''" 96] by (simp add: example_numbers)
  have t: "trunc (17 / 2) = 8" by (simp add: trunc_def) linarith
  show ?thesis
    using integer_write_exact [OF w, of 31 "Fin (17 / 2)" "- 128" 127 "17 / 2" "\<lambda>_. 0"]
    by (simp add: t) (simp add: example_point_def example_numbers int_range_def)
qed

text \<open>The two wide counters have \<^verbatim>\<open>2^20\<close> steps but 20 bits: the top of the range they accept,
  1048576, is sent as code 0 and read back as the value 0.\<close>

theorem counter_top_wraps:
  assumes "writable_point pt" "atoi (pt_DataType pt) = Inr k" "k \<in> {MDK_COUNTER, MDK_OHM}"
    and "pt_WriteValue pt = Some (Fin 1048576)"
  shows "\<exists>buf rest. EncodeRequestMessage oor [pt] = Some (Inr buf)
    \<and> payload_points buf = (pt_IoNumber pt, Fin 0, None) # rest"
proof -
  let ?m = "getMetaData k"
  have m: "?m = mk_meta FIXEDPOINT 0 1048576 0 0" using assms(3) by (auto simp: getMetaData_def serialMap_def)
  have fp: "fp_entry ?m" and kk: "key_target k = Some Pf32"
    using fixed_key [of k] by (simp_all add: m mk_meta_def)
  have near: "near (Fin 1048576) 1048576 0" by (simp add: near_def)
  obtain c where fb: "fixedPointToBits oor False (Fin 1048576) ?m
        = (word_of_int c, getBitCount (lowValue ?m) (highValue ?m) (decimalPoint ?m))"
    and c: "0 \<le> c" "c \<le> top_code ?m"
    and cx: "\<bar>of_int c - (1048576 - of_int (lowValue ?m)) * resolution ?m\<bar> \<le> 1 / 2 + (0 * resolution ?m + 1 / 2 ^ 22)"
    by (rule fixedPointToBits_near [OF fp near]) (simp_all add: m mk_meta_def)
  have "\<bar>of_int c - (1048576 :: rat)\<bar> < 1" using cx by (simp add: m mk_meta_def resolution_def)
  then have "\<bar>c - 1048576\<bar> < 1" by (metis of_int_1 of_int_abs of_int_diff of_int_less_iff of_int_numeral)
  then have "c = 1048576" by simp
  then have "take_bit 20 (word_of_int c :: 64 word) = word_of_int 0"
    by (simp add: take_bit_word_of_int_64)
  moreover have "getBitCount (lowValue ?m) (highValue ?m) (decimalPoint ?m) = 20"
    using wide_keys [of k] assms(3) by (simp add: field_width_def m mk_meta_def)
  moreover have "write_num oor k (Fin 1048576) = F64 (Fin 1048576)" using assms(3) by (auto simp: write_num_def)
  moreover have "fixed_value ?m (word_of_int 0) = Fin 0"
    using fixed_value_whole [OF fp, of 0] c by (simp add: m mk_meta_def code_value_def)
  ultimately have "key_value oor k (Fin 1048576) = Fin 0"
    using fb kk by (simp add: key_value_def convertData_def decode_value_def m mk_meta_def)
  then have "sent_value oor pt = Fin 0" using assms(2,4) by (simp add: sent_value_def)
  then show ?thesis using writable_one [OF assms(1), of oor] by metis
qed

theorem counter_top_wraps_witness:
  "\<exists>buf rest. EncodeRequestMessage (\<lambda>_. 0) [example_point ''UI-1'' ''5'' (Fin 1048576)] = Some (Inr buf)
    \<and> payload_points buf = (''UI-1'', Fin 0, None) # rest"
proof -
  have w: "writable_point (example_point ''UI-1'' ''5'' (Fin 1048576))"
    using example_writable [of 5 "''5''" "''UI-1''" 96] by (simp add: example_numbers)
  show ?thesis using counter_top_wraps [OF w, of 5 "\<lambda>_. 0"] by (simp add: example_point_def example_numbers)
qed

text \<open>A request for a single point whose type has 11 data bits (4-20 mA and push frequency)
  leaves seven padding bits, which the decoder takes for a further field: it reports a point
  the request does not have.\<close>

theorem padding_decodes_as_point:
  assumes "writable_point pt" "atoi (pt_DataType pt) = Inr k" "k \<in> {MDK_MILLIAMPS_4_20, MDK_PUSH_FREQUENCY}"
  shows "\<exists>buf. EncodeRequestMessage oor [pt] = Some (Inr buf)
    \<and> payload_points buf = [(pt_IoNumber pt, sent_value oor pt, None), (''unknown-1'', Fin 0, None)]"
proof -
  obtain v p where pt: "pt_WriteValue pt = Some v" "getPosition (pt_IoNumber pt) = Inr p" "decodable k" "k \<noteq> MDK_ERROR"
    using assms(1,2) by (auto simp: writable_point_def split: option.splits sum.splits)
  obtain d where d: "convertData oor (write_num oor k v) k = Some (d, field_width k)"
    using convert_writable [OF pt(3,4)] by blast
  have ok: "\<forall>q \<in> set [pt]. writable_point q" using assms(1) by simp
  obtain buf r where b: "EncodeRequestMessage oor [pt] = Some (Inr buf)" "r < 8"
    "bits_of buf = byte_bits 1 @ point_bits oor pt @ replicate r False"
    "payload_points buf = (pt_IoNumber pt, sent_value oor pt, None) # padding_points r"
    using request_stream [OF ok, of oor] by auto
  have "field_width k = 11" using assms(3)
    by (elim insertE emptyE) (simp_all add: field_width_def getMetaData_def serialMap_def getBitCount_def bit_count_loop.simps)
  then have "length (point_bits oor pt) = 25"
    using pt d assms(2) by (simp add: point_bits_def point_field_def field_bits_def)
  then have "8 * length buf = 33 + r" using arg_cong [OF b(3), of length] by simp
  then have "r = 7" using b(2) by presburger
  then show ?thesis using b(1,4) by (simp add: padding_points_def)
qed

theorem padding_decodes_as_point_witness:
  "\<exists>buf v. EncodeRequestMessage (\<lambda>_. 0) [example_point ''UI-1'' ''13'' (Fin 7)] = Some (Inr buf)
    \<and> payload_points buf = [(''UI-1'', v, None), (''unknown-1'', Fin 0, None)]"
proof -
  have w: "writable_point (example_point ''UI-1'' ''13'' (Fin 7))"
    using example_writable [of 13 "''13''" "''UI-1''" 96] by (simp add: example_numbers)
  show ?thesis using padding_decodes_as_point [OF w, of 13 "\<lambda>_. 0"] by (auto simp: example_point_def example_numbers)
qed

end
