(* ===== verification/Frame_Dispatch.thy ===== *)
theory Frame_Dispatch
  imports Device_Registry Aes_Utils Rubix_Wire
begin

text \<open>
  The receive path of app.go: \<open>dispatchFrame\<close> finds the device of a wire frame, decides between
  the legacy, encrypted and plaintext layouts, and runs the device's decoder.

  \<open>'s\<close> is the state the callbacks act on.  The environment holds what the module has from
  outside: the default key of the configuration, the CMAC primitive, the iteration order of Go
  maps, the look-up of a device by address and the serial writer.  Log calls are left out.
  A result \<open>None\<close> is a run-time panic.
\<close>

record 's dispatch_env =
  env_DefaultKey :: string
  env_mac :: cmac_fn
  env_order :: map_order
  env_getDevice :: "string \<Rightarrow> 's \<Rightarrow> device option"
  env_writeToLoRaRaw :: "byte list \<Rightarrow> 's action"

record dispatch_result =
  dr_Address :: string
  dr_Device :: "device option"
  dr_DevDesc :: "lora_desc option"
  dr_DataHex :: string
  dr_PublishRawHex :: string
  dr_RSSI :: int
  dr_SNR :: gofloat
  dr_LegacyDevice :: bool
  dr_OK :: bool

text \<open>The zero value \<^verbatim>\<open>DispatchResult{}\<close>.\<close>

definition no_result :: dispatch_result where
  "no_result = \<lparr>dr_Address = '''', dr_Device = None, dr_DevDesc = None, dr_DataHex = '''',
     dr_PublishRawHex = '''', dr_RSSI = 0, dr_SNR = Fin 0, dr_LegacyDevice = False, dr_OK = False\<rparr>"

subsection \<open>Frame shapes\<close>

definition isUnencryptedLoRaRAW :: "byte list \<Rightarrow> bool option" where
  "isUnencryptedLoRaRAW dataBytes =
     (if length dataBytes < LORARAW_PAYLOAD_START + 2 then Some False
      else do {
        innerLen \<leftarrow> GetLoRaRAWInnerPayloadLength dataBytes;
        Some (length dataBytes = LORARAW_PAYLOAD_START + innerLen + 2) })"

definition isEncryptionShaped :: "byte list \<Rightarrow> bool" where
  "isEncryptionShaped dataBytes =
     (let inner = int (length dataBytes) - 2 - int LoraRawHeaderLen - int LoraRawCmacLen
      in 0 < inner \<and> inner mod 16 = 0)"

definition buildUnencryptedRawFrame :: "byte list \<Rightarrow> byte list \<Rightarrow> (byte list \<times> bool) option" where
  "buildUnencryptedRawFrame decoded original =
     (if length original < 2 then Some ([], False)
      else if length decoded < LORARAW_PAYLOAD_START then Some ([], False)
      else do {
        innerLen \<leftarrow> GetLoRaRAWInnerPayloadLength decoded;
        if length decoded < LORARAW_PAYLOAD_START + innerLen then Some ([], False)
        else do {
          a \<leftarrow> go_slice decoded 0 (LORARAW_PAYLOAD_START + innerLen);
          b \<leftarrow> go_slice original (length original - 2) (length original);
          Some (a @ b, True) } })"

definition getOpts :: "byte list \<Rightarrow> byte option" where
  "getOpts dataBytes =
     (if length dataBytes \<le> LORARAW_OPTS_POSITION then Some 0
      else go_index dataBytes LORARAW_OPTS_POSITION)"

definition getNonce :: "byte list \<Rightarrow> byte option" where
  "getNonce dataBytes =
     (if length dataBytes \<le> LORARAW_NONCE_POSITION then Some 0
      else go_index dataBytes LORARAW_NONCE_POSITION)"

subsection \<open>Decryption\<close>

definition decryptLoRaRAWPkt :: "cmac_fn \<Rightarrow> byte list \<Rightarrow> byte list \<Rightarrow> (goerr + byte list) option" where
  "decryptLoRaRAWPkt mac dataBytes byteKey =
     (if length dataBytes < 2
      then Some (Inl (ErrMsg ''dataBytes too short for decryption: need at least 2 bytes for RSSI and SNR''))
      else do {
        d \<leftarrow> go_slice dataBytes 0 (length dataBytes - 2);
        Decrypt mac d byteKey })"

definition tryDecryptLoRaRAWPkt :: "cmac_fn \<Rightarrow> byte list \<Rightarrow> byte list \<Rightarrow> (goerr + byte list) option" where
  "tryDecryptLoRaRAWPkt mac dataBytes byteKey =
     (if \<not> isEncryptionShaped dataBytes
      then Some (Inl (ErrMsg ''not an encrypted LoRaRAW frame (inner length not block-aligned)''))
      else decryptLoRaRAWPkt mac dataBytes byteKey)"

text \<open>
  A successful \<^verbatim>\<open>Decrypt\<close> writes its result over the bytes of the wire frame (its slice has
  the capacity of the whole frame), so afterwards the frame is the plaintext followed by the
  RSSI and SNR bytes.
\<close>

definition frame_after_decrypt :: "byte list \<Rightarrow> byte list \<Rightarrow> byte list" where
  "frame_after_decrypt decoded dataBytes = decoded @ drop (length decoded) dataBytes"

definition decryptLegacy :: "byte list \<Rightarrow> byte list \<Rightarrow> (goerr + byte list) option" where
  "decryptLegacy dataBytes byteKey =
     (if length dataBytes < 2
      then Some (Inl (ErrMsg ''dataBytes too short for legacy decryption: need at least 2 bytes for RSSI and SNR''))
      else do {
        d \<leftarrow> go_slice dataBytes 0 (length dataBytes - 2);
        DecryptLegacy d byteKey })"

text \<open>Address, hex frame and publish form of a legacy-encrypted frame; \<open>None\<close> when it is not one.\<close>

definition tryLegacyDecrypt ::
  "string \<Rightarrow> string \<Rightarrow> byte list \<Rightarrow> (string \<times> string \<times> string) option option" where
  "tryLegacyDecrypt defaultKey address dataBytesOrig =
     (case hex_decode defaultKey of
        (_, Some err) \<Rightarrow> Some None
      | (keyBytes, None) \<Rightarrow> do {
          r \<leftarrow> decryptLegacy dataBytesOrig keyBytes;
          (case r of
             Inl err \<Rightarrow> Some None
           | Inr dataLegacy \<Rightarrow> do {
               r \<leftarrow> DecodeAddressBytes dataLegacy;
               (case r of
                  Inl err \<Rightarrow> Some None
                | Inr addr2 \<Rightarrow>
                    (let addr2 = to_upper addr2 in
                     if addr2 = address then Some None
                     else
                       (let pubBytes = dataLegacy
                              @ (if 2 \<le> length dataBytesOrig then drop (length dataBytesOrig - 2) dataBytesOrig else []);
                            dataHex = hex_encode pubBytes
                        in Some (Some (addr2, dataHex, to_upper dataHex))))) }) })"

definition getEncryptionKey :: "string \<Rightarrow> device \<Rightarrow> goerr + byte list" where
  "getEncryptionKey defaultKey dev =
     (let hexKey = (if dev_Manufacture dev \<noteq> [] then dev_Manufacture dev else defaultKey) in
      case hex_decode hexKey of (key, Some err) \<Rightarrow> Inl err | (key, None) \<Rightarrow> Inr key)"

subsection \<open>Acknowledgements\<close>

text \<open>On a CMAC error \<^verbatim>\<open>createAck\<close> returns nil, which is written all the same.\<close>

definition createAck :: "cmac_fn \<Rightarrow> byte list \<Rightarrow> byte list \<Rightarrow> byte \<Rightarrow> byte list option" where
  "createAck mac address key nonce =
     (let fullData = address @ [LORARAW_OPTS_ACK] @ [nonce] in do {
        r \<leftarrow> CmacUnencrypted mac fullData key;
        (case r of Inl err \<Rightarrow> Some [] | Inr unCmac \<Rightarrow> Some (fullData @ unCmac)) })"

definition handleConfirmedOpt :: "'s dispatch_env \<Rightarrow> byte list \<Rightarrow> byte list \<Rightarrow> 's \<Rightarrow> 's option" where
  "handleConfirmedOpt env dataBytes byteKey s =
     (if length dataBytes < LORARAW_HEADER_LEN then Some s
      else do {
        address \<leftarrow> go_slice dataBytes 0 LORARAW_HEADER_LEN;
        nonce \<leftarrow> getNonce dataBytes;
        ack \<leftarrow> createAck (env_mac env) address byteKey nonce;
        perform (env_writeToLoRaRaw env ack) s })"

subsection \<open>Handlers\<close>

definition handleLegacyDevice ::
  "'s dispatch_env \<Rightarrow> device \<Rightarrow> lora_desc option \<Rightarrow> string \<Rightarrow> byte list \<Rightarrow> 's callbacks \<Rightarrow> 's \<Rightarrow> 's option" where
  "handleLegacyDevice env dev devDesc dataHex dataBytes cb s = do {
     checkLength \<leftarrow> CheckLength (deref_desc devDesc);
     if \<not> call_CheckLength checkLength dataHex then Some s
     else do {
       decodeUplink \<leftarrow> DecodeUplink (deref_desc devDesc);
       perform (call_DecodeUplink (env_order env) decodeUplink dataHex dataBytes devDesc dev cb) s } }"

definition handleLoRaRAWDevice ::
  "'s dispatch_env \<Rightarrow> device \<Rightarrow> lora_desc option \<Rightarrow> string \<Rightarrow> byte list \<Rightarrow> byte list \<Rightarrow> 's callbacks \<Rightarrow> 's \<Rightarrow> 's option" where
  "handleLoRaRAWDevice env dev devDesc dataHex dataBytes keyBytes cb s = do {
     ok \<leftarrow> CheckLoRaRAWPayloadLength dataBytes;
     if \<not> ok then Some s
     else do {
       payload \<leftarrow> StripLoRaRAWPayload dataBytes;
       opts \<leftarrow> getOpts dataBytes;
       if opts = LORARAW_OPTS_UNCONFIRMED_UPLINK then do {
         decodeUplink \<leftarrow> DecodeUplink (deref_desc devDesc);
         perform (call_DecodeUplink (env_order env) decodeUplink dataHex payload devDesc dev cb) s }
       else if opts = LORARAW_OPTS_CONFIRMED_UPLINK then do {
         s \<leftarrow> handleConfirmedOpt env dataBytes keyBytes s;
         decodeUplink \<leftarrow> DecodeUplink (deref_desc devDesc);
         perform (call_DecodeUplink (env_order env) decodeUplink dataHex payload devDesc dev cb) s }
       else if opts = LORARAW_OPTS_RESPONSE then
         (if length dataBytes \<le> LORARAW_NONCE_POSITION then Some s
          else do {
            msgId \<leftarrow> go_index dataBytes LORARAW_NONCE_POSITION;
            decodeResponse \<leftarrow> DecodeResponse (deref_desc devDesc);
            perform (call_DecodeResponse decodeResponse payload msgId devDesc dev cb) s })
       else Some s } }"

subsection \<open>dispatchFrame\<close>

text \<open>The three ways a frame of a LoRaRAW device is handled: \<open>None\<close> in the result means dropped.\<close>

definition dispatchLoRaRAW ::
  "'s dispatch_env \<Rightarrow> device \<Rightarrow> lora_desc \<Rightarrow> string \<Rightarrow> byte list \<Rightarrow> string \<Rightarrow> 's callbacks \<Rightarrow> 's
     \<Rightarrow> (string option \<times> 's) option" where
  "dispatchLoRaRAW env dev devDesc dataHex dataBytes publishRawHex cb s =
     (case getEncryptionKey (env_DefaultKey env) dev of
        Inl err \<Rightarrow> Some (None, s)
      | Inr keyBytes \<Rightarrow> do {
          r \<leftarrow> tryDecryptLoRaRAWPkt (env_mac env) dataBytes keyBytes;
          (case r of
             Inr decodedDataBytes \<Rightarrow> do {
               (pub, ok) \<leftarrow> buildUnencryptedRawFrame decodedDataBytes (frame_after_decrypt decodedDataBytes dataBytes);
               let publishRawHex = (if ok then to_upper (hex_encode pub) else publishRawHex);
               s \<leftarrow> handleLoRaRAWDevice env dev (Some devDesc) dataHex decodedDataBytes keyBytes cb s;
               Some (Some publishRawHex, s) }
           | Inl derr \<Rightarrow> do {
               plain \<leftarrow> (if AllowUnencrypted devDesc \<and> \<not> isEncryptionShaped dataBytes
                         then isUnencryptedLoRaRAW dataBytes else Some False);
               if plain then do {
                 payload \<leftarrow> StripLoRaRAWPayload dataBytes;
                 decodeUplink \<leftarrow> DecodeUplink devDesc;
                 s \<leftarrow> perform (call_DecodeUplink (env_order env) decodeUplink dataHex payload (Some devDesc) dev cb) s;
                 Some (Some publishRawHex, s) }
               else Some (None, s) }) })"

text \<open>
  The address, the hex frame and the publish form after the device look-up, with the legacy
  flag: the fallback re-reads the frame through the default key when the address is unknown.
\<close>

definition resolveDevice ::
  "'s dispatch_env \<Rightarrow> string \<Rightarrow> string \<Rightarrow> 's \<Rightarrow> (string \<times> device option \<times> bool \<times> string \<times> string) option" where
  "resolveDevice env dataHex address s =
     (let publishRawHex = to_upper dataHex;
          dataBytesOrig = fst (hex_decode dataHex) in
      case env_getDevice env address s of
        Some dev \<Rightarrow> Some (address, Some dev, False, dataHex, publishRawHex)
      | None \<Rightarrow> do {
          r \<leftarrow> tryLegacyDecrypt (env_DefaultKey env) address dataBytesOrig;
          (case r of
             None \<Rightarrow> Some (address, None, False, dataHex, publishRawHex)
           | Some (address2, dataHex2, publishRawHex2) \<Rightarrow>
               Some (address2, env_getDevice env address2 s, True, dataHex2, publishRawHex2)) })"

text \<open>From the device on: its description, and the branch that handles the frame.\<close>

definition dispatchDevice ::
  "'s dispatch_env \<Rightarrow> string \<Rightarrow> device \<Rightarrow> bool \<Rightarrow> string \<Rightarrow> string \<Rightarrow> byte list \<Rightarrow> int \<Rightarrow> gofloat
     \<Rightarrow> 's callbacks \<Rightarrow> 's \<Rightarrow> (dispatch_result \<times> 's) option" where
  "dispatchDevice env address dev legacyDevice dataHex publishRawHex dataBytesOrig rssi snr cb s =
     (case GetDeviceDescription dev LoRaDeviceDescriptions of
        None \<Rightarrow> Some (no_result, s)
      | Some devDesc \<Rightarrow> do {
          (pub, s) \<leftarrow>
            (if legacyDevice then
               map_option (Pair (Some publishRawHex))
                 (handleLegacyDevice env dev (Some devDesc) dataHex (fst (hex_decode dataHex)) cb s)
             else if IsLoRaRAW devDesc then
               dispatchLoRaRAW env dev devDesc dataHex dataBytesOrig publishRawHex cb s
             else
               map_option (Pair (Some publishRawHex))
                 (handleLegacyDevice env dev (Some devDesc) dataHex dataBytesOrig cb s));
          (case pub of
             None \<Rightarrow> Some (no_result, s)
           | Some publishRawHex \<Rightarrow>
               Some (\<lparr>dr_Address = address, dr_Device = Some dev, dr_DevDesc = Some devDesc,
                       dr_DataHex = dataHex, dr_PublishRawHex = publishRawHex, dr_RSSI = rssi,
                       dr_SNR = snr, dr_LegacyDevice = legacyDevice, dr_OK = True\<rparr>, s)) })"

definition dispatchFrame ::
  "'s dispatch_env \<Rightarrow> string \<Rightarrow> 's callbacks \<Rightarrow> 's \<Rightarrow> (dispatch_result \<times> 's) option" where
  "dispatchFrame env dataHex cb s =
     (if \<not> ValidPayload dataHex then Some (no_result, s)
      else do {
        a \<leftarrow> DecodeAddressHex dataHex;
        (case a of
           Inl err \<Rightarrow> Some (no_result, s)
         | Inr wire_address \<Rightarrow> do {
             let dataBytesOrig = fst (hex_decode dataHex);
             (address, device, legacyDevice, dataHex, publishRawHex) \<leftarrow> resolveDevice env dataHex wire_address s;
             r \<leftarrow> DecodeRSSI dataHex;
             (case r of
                Inl err \<Rightarrow> Some (no_result, s)
              | Inr rssi \<Rightarrow> do {
                  r \<leftarrow> DecodeSNR dataHex;
                  (case r of
                     Inl err \<Rightarrow> Some (no_result, s)
                   | Inr snr \<Rightarrow>
                       (case device of
                          None \<Rightarrow> Some (no_result, s)
                        | Some dev \<Rightarrow>
                            dispatchDevice env address dev legacyDevice dataHex publishRawHex dataBytesOrig rssi snr cb s)) }) }) })"

subsection \<open>What the handlers keep\<close>

lemma foldM_kept:
  "(\<And>x s. Q s \<Longrightarrow> kept R Q (f x s)) \<Longrightarrow> Q s \<Longrightarrow> kept R Q (foldM f xs s)"
proof (induction xs arbitrary: s)
  case (Cons x xs)
  then show ?case using Cons.prems(1) [of s x] by (cases "f x s") auto
qed simp

lemma registered_fields:
  assumes "d \<in> set LoRaDeviceDescriptions"
  shows "CheckLength d \<noteq> None" "DecodeUplink d \<noteq> None"
    "DecodeResponse d \<in> {None, Some DecodeRubixResponse_fn}"
    "DecodeUplink d = Some DecodeRubixUplink_fn \<longleftrightarrow> DecodeResponse d = Some DecodeRubixResponse_fn"
    "EncodeRequestMessage_of d = (if DecodeResponse d = None then None else Some EncodeRequestMessage_fn)"
  using assms unfolding registered_forms by (auto simp: legacy_desc_def zht_desc_def rubix_desc_def)

lemma registered_raw:
  "d \<in> set LoRaDeviceDescriptions \<Longrightarrow> \<not> IsLoRaRAW d \<Longrightarrow> DecodeUplink d \<noteq> Some DecodeRubixUplink_fn"
  unfolding registered_forms by (auto simp: legacy_desc_def zht_desc_def rubix_desc_def)

context reception
begin

lemma report_kept:
  assumes "Q s"
  shows "kept R Q (report \<lparr>fnPoint = Some (updatePointFn cb), fnPointErr = Some (updatePointErrFn cb),
           fnWritten = None, fnWrittenErr = None\<rparr> dev dd i r s)"
    "kept R Q (report \<lparr>fnPoint = None, fnPointErr = None,
           fnWritten = Some (updateWrittenFn cb), fnWrittenErr = Some (updateWrittenErrFn cb)\<rparr> dev dd i r s)"
  using assms
  by (cases r; auto simp: report_def kept_perform point point_err written written_err split: option.split)+

lemma DecodeRubix_safe:
  assumes "R \<or> payload \<noteq> []" "Q s"
  shows "safe R Q (DecodeRubixUplink payload dd dev cb s)" "safe R Q (DecodeRubixResponse payload i dd dev cb s)"
proof -
  have "safe R Q (DecodeRubixUplink payload dd dev cb s) \<and> safe R Q (DecodeRubixResponse payload i dd dev cb s)"
  proof (cases "payload = []")
    case True
    then show ?thesis using assms(1) by (simp add: DecodeRubixUplink_def DecodeRubixResponse_def DecodeRubix_empty)
  next
    case False
    then show ?thesis
      unfolding DecodeRubixUplink_def DecodeRubixResponse_def DecodeRubix_fold [OF False] safe_Pair
      by (intro conjI foldM_kept [where Q = Q] report_kept assms(2))
  qed
  then show "safe R Q (DecodeRubixUplink payload dd dev cb s)" "safe R Q (DecodeRubixResponse payload i dd dev cb s)" by auto
qed

lemma call_DecodeUplink_safe:
  assumes "R \<or> du \<noteq> DecodeRubixUplink_fn \<or> payload \<noteq> []" "Q s"
  shows "kept R Q (perform (call_DecodeUplink order du dataHex payload dd dev cb) s)"
  unfolding kept_perform
  using assms(1) assms(2) DecodeME_safe [OF assms(2)] DecodeDropletTH_safe [OF assms(2)] DecodeDropletTHL_safe [OF assms(2)]
    DecodeDropletTHLM_safe [OF assms(2)] DecodeZHT_safe [OF assms(2)] DecodeRubix_safe(1) [OF _ assms(2)]
  by (cases du) (simp_all add: NilLoRaDeviceDescriptionDecode_def)

lemma call_DecodeResponse_safe:
  assumes "R \<or> payload \<noteq> []" "Q s"
  shows "kept R Q (perform (call_DecodeResponse dr payload i dd dev cb) s)"
  unfolding kept_perform
  using DecodeRubix_safe(2) [OF assms] assms(2)
  by (cases dr) (simp_all add: NilLoRaDeviceDescriptionDecodeResponse_def)

lemma handleLegacyDevice_kept:
  assumes "d \<in> set LoRaDeviceDescriptions" "R \<or> DecodeUplink d \<noteq> Some DecodeRubixUplink_fn \<or> bytes \<noteq> []" "Q s"
  shows "kept R Q (handleLegacyDevice env dev (Some d) dataHex bytes cb s)"
proof -
  obtain cl du where f: "CheckLength d = Some cl" "DecodeUplink d = Some du" using registered_fields(1,2) [OF assms(1)] by auto
  have "kept R Q (perform (call_DecodeUplink (env_order env) du dataHex bytes (Some d) dev cb) s)"
    by (rule call_DecodeUplink_safe) (use assms(2,3) f in auto)
  then show ?thesis using assms(3) by (simp add: handleLegacyDevice_def deref_desc_def f)
qed

end

lemma createAck_total: "mac_ok mac \<Longrightarrow> createAck mac address key nonce \<noteq> None"
  by (auto simp: createAck_def CmacUnencrypted_def mac_ok_def Let_def split: option.split)

text \<open>The only panics of the decrypted path.\<close>

definition empty_rubix_payload :: "lora_desc \<Rightarrow> byte list \<Rightarrow> bool" where
  "empty_rubix_payload d frame \<longleftrightarrow> DecodeUplink d = Some DecodeRubixUplink_fn \<and> frame ! 6 = 0"

definition response_without_decoder :: "lora_desc \<Rightarrow> byte list \<Rightarrow> bool" where
  "response_without_decoder d frame \<longleftrightarrow> DecodeResponse d = None \<and> frame ! 4 = LORARAW_OPTS_RESPONSE"

lemma Strip_nonempty:
  assumes "CheckLoRaRAWPayloadLength dec = Some True" "dec ! 6 \<noteq> 0"
  shows "\<exists>p. StripLoRaRAWPayload dec = Some p \<and> p \<noteq> []"
proof -
  have "9 + unat (dec ! 6) \<le> length dec" using assms(1) CheckLength_iff by blast
  moreover have "0 < unat (dec ! 6)" using assms(2) by (simp add: unat_gt_0)
  ultimately show ?thesis using Strip_checked [OF assms(1)] by auto
qed

text \<open>With the serial writer, to which acknowledgements go.\<close>

locale reception_env = reception cb dev R Q
  for cb :: "'s callbacks" and dev :: device and R :: bool and Q :: "'s \<Rightarrow> bool" +
  fixes env :: "'s dispatch_env"
  assumes mac: "R \<or> mac_ok (env_mac env)"
    and writer: "Q s \<Longrightarrow> safe R Q (env_writeToLoRaRaw env frame s)"
begin

lemma handleConfirmedOpt_kept:
  assumes "7 \<le> length dec" "Q s"
  shows "kept R Q (handleConfirmedOpt env dec key s)"
proof (cases "createAck (env_mac env) (take 4 dec) key (dec ! 5)")
  case None
  then have R using createAck_total mac by blast
  then show ?thesis using assms None by (simp add: handleConfirmedOpt_def getNonce_def)
next
  case (Some ack)
  then show ?thesis using assms by (simp add: handleConfirmedOpt_def getNonce_def kept_perform writer)
qed

lemma handleLoRaRAWDevice_kept:
  assumes d: "d \<in> set LoRaDeviceDescriptions" and len: "7 \<le> length dec"
    and ne: "R \<or> \<not> empty_rubix_payload d dec \<and> \<not> response_without_decoder d dec" and s: "Q s"
  shows "kept R Q (handleLoRaRAWDevice env dev (Some d) dataHex dec key cb s)"
proof -
  obtain ok where ok: "CheckLoRaRAWPayloadLength dec = Some ok"
    using len by (simp add: CheckLoRaRAWPayloadLength_def GetLoRaRAWInnerPayloadLength_def)
  show ?thesis
  proof (cases ok)
    case False
    then show ?thesis using ok s by (simp add: handleLoRaRAWDevice_def)
  next
    case True
    obtain p where p: "StripLoRaRAWPayload dec = Some p" "dec ! 6 \<noteq> 0 \<Longrightarrow> p \<noteq> []"
      using Strip_nonempty [of dec] Strip_checked [of dec] ok True by auto
    obtain du where du: "DecodeUplink d = Some du" using registered_fields(2) [OF d] by auto
    have up: "kept R Q (perform (call_DecodeUplink (env_order env) du dataHex p (Some d) dev cb) t)" if "Q t" for t
      by (rule call_DecodeUplink_safe [OF _ that]) (use ne p(2) du in \<open>auto simp: empty_rubix_payload_def\<close>)
    have ack: "kept R Q (handleConfirmedOpt env dec key s)" by (rule handleConfirmedOpt_kept [OF len s])
    have resp: "kept R Q (do { dr \<leftarrow> DecodeResponse d;
        perform (call_DecodeResponse dr p (dec ! 5) (Some d) dev cb) s })" if "dec ! 4 = LORARAW_OPTS_RESPONSE"
    proof (cases "DecodeResponse d")
      case None
      then show ?thesis using ne that by (auto simp: response_without_decoder_def)
    next
      case (Some dr)
      then have "DecodeUplink d = Some DecodeRubixUplink_fn" using registered_fields(3,4) [OF d] by auto
      then have "R \<or> p \<noteq> []" using ne p(2) by (auto simp: empty_rubix_payload_def)
      from call_DecodeResponse_safe [OF this s] show ?thesis using Some by simp
    qed
    have "getOpts dec = Some (dec ! 4)" using len by (simp add: getOpts_def)
    then show ?thesis
      using ok True p(1) du up s kept_bind [OF ack up] resp len
      by (auto simp: handleLoRaRAWDevice_def deref_desc_def)
  qed
qed

end

subsection \<open>Decryption of a frame\<close>

text \<open>A wire frame is authentic when the four bytes before RSSI and SNR are the truncated CMAC
  of the bytes before them.\<close>

definition authentic_frame :: "cmac_fn \<Rightarrow> byte list \<Rightarrow> byte list \<Rightarrow> bool" where
  "authentic_frame mac key frame \<longleftrightarrow>
     (let body = take (length frame - 6) frame in
      length key \<in> {16, 24, 32} \<and> take 4 (drop (length frame - 6) frame) = take 4 (mac key (take 16 body @ drop 4 body)))"

lemma isEncryptionShaped_iff:
  "isEncryptionShaped frame \<longleftrightarrow> 26 \<le> length frame \<and> length frame mod 16 = 10"
proof -
  have "isEncryptionShaped frame \<longleftrightarrow> 0 < int (length frame) - 10 \<and> (int (length frame) - 10) mod 16 = 0"
    by (simp add: isEncryptionShaped_def Let_def diff_diff_eq)
  also have "\<dots> \<longleftrightarrow> 26 \<le> length frame \<and> length frame mod 16 = 10" by presburger
  finally show ?thesis .
qed

lemma Decrypt_total:
  assumes "mac_ok mac" "24 \<le> length data" "length data mod 16 = 8"
  shows "Decrypt mac data key \<noteq> None"
proof -
  define body cm c where "body = take (length data - 4) data" and "cm = drop (length data - 4) data"
    and "c = take (length data - 8) (drop 4 data)"
  have sl: "go_slice data 0 (length data - 4) = Some body" "go_slice data (length data - 4) (length data) = Some cm"
    "go_slice data 0 4 = Some (take 4 data)" "go_slice data 4 (length data - 4) = Some c"
    using assms(2) by (simp_all add: go_slice_def body_def cm_def c_def)
  have cb: "CryptBlocks f c = Some (f c)" for f
  proof -
    have "length c = length data - 8" by (simp add: c_def)
    then have "length c mod 16 = 0" using assms(2,3) by presburger
    then show ?thesis by (simp add: CryptBlocks_def)
  qed
  have n4: "\<not> length data < 4" using assms(2) by simp
  show ?thesis
  proof (cases "NewCipher key")
    case (Some e)
    then show ?thesis using n4 by (simp add: Decrypt_def prepareCMAC_def sl)
  next
    case None
    then have k: "length key \<in> {16, 24, 32}" by (simp add: NewCipher_None_iff)
    have "16 \<le> length body" using assms(2) by (simp add: body_def)
    note pc = prepareCMAC_ok [OF assms(1) k this]
    show ?thesis
      by (simp only: Decrypt_def n4 if_False sl pc None cb Option.bind.simps sum.case option.case)
         (simp split: if_split)
  qed
qed

lemma shaped_body:
  assumes "isEncryptionShaped frame"
  shows "26 \<le> length frame" "length (take (length frame - 2) frame) = length frame - 2"
    "24 \<le> length (take (length frame - 2) frame)" "length (take (length frame - 2) frame) mod 16 = 8"
proof -
  have l: "26 \<le> length frame" "length frame mod 16 = 10" using assms by (simp_all only: isEncryptionShaped_iff)
  have "length frame - 2 = 8 + 16 * (length frame div 16)" using l mult_div_mod_eq [of 16 "length frame"] by linarith
  then have m: "(length frame - 2) mod 16 = 8" by simp
  have m24: "24 \<le> length frame - 2" using l(1) by linarith
  have len: "length (take (length frame - 2) frame) = length frame - 2" by simp
  show "26 \<le> length frame" by (rule l(1))
  show "length (take (length frame - 2) frame) = length frame - 2" by (rule len)
  show "24 \<le> length (take (length frame - 2) frame)" "length (take (length frame - 2) frame) mod 16 = 8"
    using m m24 by (simp_all only: len)
qed

lemma shaped_mod: "isEncryptionShaped frame \<Longrightarrow> (length frame - 10) mod 16 = 0"
proof -
  assume "isEncryptionShaped frame"
  then have "26 \<le> length frame" "length frame mod 16 = 10" by (simp_all only: isEncryptionShaped_iff)
  then have "length frame - 10 = 16 * (length frame div 16)" using mult_div_mod_eq [of 16 "length frame"] by linarith
  then show ?thesis by simp
qed

lemma tryDecrypt_Decrypt:
  assumes "isEncryptionShaped frame"
  shows "tryDecryptLoRaRAWPkt mac frame key = Decrypt mac (take (length frame - 2) frame) key"
  using assms shaped_body(1) [OF assms] by (simp add: tryDecryptLoRaRAWPkt_def decryptLoRaRAWPkt_def)

lemma tryDecrypt_total:
  assumes "mac_ok mac"
  shows "tryDecryptLoRaRAWPkt mac frame key \<noteq> None"
proof (cases "isEncryptionShaped frame")
  case True
  then show ?thesis
    using Decrypt_total [OF assms shaped_body(3,4) [OF True]] by (simp only: tryDecrypt_Decrypt not_False_eq_True)
qed (simp add: tryDecryptLoRaRAWPkt_def)

lemma tryDecrypt_authentic:
  assumes "tryDecryptLoRaRAWPkt mac frame key = Some (Inr dec)"
  shows "isEncryptionShaped frame" "authentic_frame mac key frame" "length dec = length frame - 2" "take 4 dec = take 4 frame"
proof -
  show sh: "isEncryptionShaped frame" using assms by (auto simp: tryDecryptLoRaRAWPkt_def split: if_splits)
  note b = shaped_body [OF sh]
  define d where "d = take (length frame - 2) frame"
  have "Decrypt mac d key = Some (Inr dec)" using assms sh by (simp add: tryDecrypt_Decrypt d_def)
  note a = Decrypt_authentic [OF this]
  have e: "length d = length frame - 2" "take (length d - 4) d = take (length frame - 6) frame"
    "drop (length d - 4) d = take 4 (drop (length frame - 6) frame)" "take 4 d = take 4 frame"
  proof -
    have q: "length frame - 2 - 4 = length frame - 6" "length frame - 6 \<le> length frame - 2"
      "length frame - 2 - (length frame - 6) = 4" "4 \<le> length frame - 2" "length frame - 2 \<le> length frame"
      using b(1) by linarith+
    show "length d = length frame - 2" by (simp add: d_def)
    then show "take (length d - 4) d = take (length frame - 6) frame"
      "drop (length d - 4) d = take 4 (drop (length frame - 6) frame)" "take 4 d = take 4 frame"
      using q by (simp_all only: d_def take_take drop_take min_absorb1)
  qed
  have "drop (length d - 4) d = take 4 (mac key (take 16 (take (length d - 4) d) @ drop 4 (take (length d - 4) d)))"
    "length key \<in> {16, 24, 32}" using a by blast+
  then show "authentic_frame mac key frame" by (simp only: e(2,3) authentic_frame_def Let_def simp_thms)
  define c where "c = drop 4 (take (length d - 4) d)"
  have dec: "dec = take 4 d @ cbc_decrypt (aes_decrypt key) iv c @ drop (length d - 4) d"
    using a by (simp add: c_def)
  have lc: "length c = length frame - 10" using b(1) by (simp add: c_def e(1))
  then obtain n where "length c = 16 * n"
    using shaped_mod [OF sh] by auto
  then have "length (cbc_decrypt (aes_decrypt key) iv c) = length c" by (rule aes.length_cbc_decrypt) simp
  then show "length dec = length frame - 2" "take 4 dec = take 4 frame" unfolding dec e using b(1) lc by (simp_all add: e)
qed

subsection \<open>The LoRaRAW branch\<close>

lemma buildUnencrypted_total: "buildUnencryptedRawFrame decoded original \<noteq> None"
  by (auto simp: buildUnencryptedRawFrame_def GetLoRaRAWInnerPayloadLength_def)

lemma isUnencryptedLoRaRAW_iff:
  "isUnencryptedLoRaRAW frame = Some (9 \<le> length frame \<and> length frame = 9 + unat (frame ! 6))"
  by (auto simp: isUnencryptedLoRaRAW_def GetLoRaRAWInnerPayloadLength_def)

lemma Strip_plain:
  assumes "9 \<le> length frame" "length frame = 9 + unat (frame ! 6)"
  shows "StripLoRaRAWPayload frame = Some (take (length frame - 9) (drop 7 frame))"
proof -
  have "CheckLoRaRAWPayloadLength frame = Some True" using assms(2) by (simp only: CheckLength_iff)
  moreover have "unat (frame ! 6) = length frame - 9" using assms(2) by linarith
  ultimately show ?thesis using Strip_checked by metis
qed

text \<open>A frame the branch drops: the key is malformed, or the CMAC does not verify and the model
  or the shape of the frame rules the plaintext layout out.\<close>

lemma dispatchLoRaRAW_drops:
  assumes "mac_ok (env_mac env)" "\<And>key. getEncryptionKey (env_DefaultKey env) dev = Inr key \<Longrightarrow> \<not> authentic_frame (env_mac env) key frame"
    and "\<not> AllowUnencrypted d \<or> isEncryptionShaped frame"
  shows "dispatchLoRaRAW env dev d dataHex frame pub cb s = Some (None, s)"
proof (cases "getEncryptionKey (env_DefaultKey env) dev")
  case (Inr key)
  obtain r where r: "tryDecryptLoRaRAWPkt (env_mac env) frame key = Some r"
    using tryDecrypt_total [OF assms(1)] by blast
  then obtain e where "r = Inl e"
    using tryDecrypt_authentic(2) [of "env_mac env" frame key] assms(2) [OF Inr] by (cases r) auto
  then show ?thesis using Inr r assms(3) by (auto simp: dispatchLoRaRAW_def)
qed (simp add: dispatchLoRaRAW_def)

text \<open>The frames of a LoRaRAW device that make its handler panic.\<close>

definition panicking_frame :: "'s dispatch_env \<Rightarrow> device \<Rightarrow> lora_desc \<Rightarrow> byte list \<Rightarrow> bool" where
  "panicking_frame env dev d frame \<longleftrightarrow> (\<exists>key. getEncryptionKey (env_DefaultKey env) dev = Inr key
    \<and> ((\<exists>dec. tryDecryptLoRaRAWPkt (env_mac env) frame key = Some (Inr dec)
           \<and> (empty_rubix_payload d dec \<or> response_without_decoder d dec))
       \<or> AllowUnencrypted d \<and> isUnencryptedLoRaRAW frame = Some True \<and> empty_rubix_payload d frame))"

context reception_env
begin

lemma dispatchLoRaRAW_safe:
  assumes d: "d \<in> set LoRaDeviceDescriptions" and s: "Q s" and ok: "R \<or> \<not> panicking_frame env dev d frame"
  shows "safe R Q (dispatchLoRaRAW env dev d dataHex frame pub cb s)"
proof (cases "getEncryptionKey (env_DefaultKey env) dev")
  case (Inl e)
  then show ?thesis using s by (simp add: dispatchLoRaRAW_def)
next
  case (Inr key)
  show ?thesis
  proof (cases "tryDecryptLoRaRAWPkt (env_mac env) frame key")
    case None
    then have R using tryDecrypt_total mac by blast
    then show ?thesis using Inr None by (simp add: dispatchLoRaRAW_def)
  next
    case r: (Some r)
    show ?thesis
    proof (cases r)
      case dec: (Inr dec)
      obtain b ok where b: "buildUnencryptedRawFrame dec (frame_after_decrypt dec frame) = Some (b, ok)"
        using buildUnencrypted_total by (metis not_None_eq prod.exhaust)
      have "26 \<le> length frame" using tryDecrypt_authentic(1) r dec shaped_body(1) by blast
      then have "7 \<le> length dec" using tryDecrypt_authentic(3) [of "env_mac env" frame key dec] r dec by simp
      then have "kept R Q (handleLoRaRAWDevice env dev (Some d) dataHex dec key cb s)"
        by (intro handleLoRaRAWDevice_kept d s) (use assms(3) Inr r dec in \<open>auto simp: panicking_frame_def\<close>)
      then show ?thesis using Inr r dec b by (auto simp: dispatchLoRaRAW_def intro: safe_bind)
    next
      case (Inl e)
      show ?thesis
      proof (cases "AllowUnencrypted d \<and> \<not> isEncryptionShaped frame \<and> 9 \<le> length frame \<and> length frame = 9 + unat (frame ! 6)")
        case False
        then show ?thesis using Inr r Inl s by (auto simp: dispatchLoRaRAW_def isUnencryptedLoRaRAW_iff)
      next
        case p: True
        let ?pl = "take (length frame - 9) (drop 7 frame)"
        obtain du where du: "DecodeUplink d = Some du" using registered_fields(2) [OF d] by auto
        have "kept R Q (perform (call_DecodeUplink (env_order env) du dataHex ?pl (Some d) dev cb) s)"
        proof (rule call_DecodeUplink_safe [OF _ s])
          show "R \<or> du \<noteq> DecodeRubixUplink_fn \<or> ?pl \<noteq> []"
            using ok Inr p du by (auto simp: panicking_frame_def empty_rubix_payload_def isUnencryptedLoRaRAW_iff unat_eq_0)
        qed
        then show ?thesis using Inr r Inl p du Strip_plain [of frame]
          by (auto simp: dispatchLoRaRAW_def isUnencryptedLoRaRAW_iff intro: safe_bind)
      qed
    qed
  qed
qed

end

subsection \<open>The whole frame\<close>

lemma DecryptLegacy_total: "DecryptLegacy data key \<noteq> None"
proof -
  have "length data - length data mod 16 = 16 * (length data div 16)" by (simp add: minus_mod_eq_mult_div)
  then have "(length data - length data mod 16) mod 16 = 0" by simp
  moreover have "length data - length data mod 16 \<le> length data" by simp
  ultimately show ?thesis
    by (auto simp: DecryptLegacy_def CryptBlocks_def go_slice_def Let_def min_def split: option.split)
qed

lemma decryptLegacy_total: "decryptLegacy data key \<noteq> None"
  using DecryptLegacy_total by (auto simp: decryptLegacy_def simp del: not_None_eq)

lemma tryLegacyDecrypt_total: "tryLegacyDecrypt k address bytes \<noteq> None"
proof -
  obtain r where "decryptLegacy bytes (fst (hex_decode k)) = Some r" using decryptLegacy_total by blast
  moreover have "\<exists>r. DecodeAddressBytes x = Some r" for x by (simp add: DecodeAddressBytes_def)
  then obtain a where "DecodeAddressBytes x = Some (a x)" for x by metis
  ultimately show ?thesis
    by (cases "hex_decode k") (auto simp: tryLegacyDecrypt_def Let_def split: sum.split option.split)
qed

lemma header_total:
  "\<exists>r. DecodeRSSI data = Some r" "\<exists>r. DecodeSNR data = Some r"
  "8 \<le> length data \<Longrightarrow> DecodeAddressHex data = Some (Inr (take 8 data))"
  by (auto simp: DecodeRSSI_def DecodeSNR_def DecodeAddressHex_def Let_def)

lemma tryLegacyDecrypt_bytes:
  assumes "tryLegacyDecrypt k address bytes = Some (Some (address2, dataHex2, pub2))"
  shows "\<exists>bs. bs \<noteq> [] \<and> dataHex2 = hex_encode bs \<and> pub2 = to_upper dataHex2 \<and> address2 \<noteq> address"
proof -
  obtain x where x: "decryptLegacy bytes (fst (hex_decode k)) = Some (Inr x)" "DecodeAddressBytes x \<noteq> Some (Inl e)" for e
    using assms by (auto simp: tryLegacyDecrypt_def Let_def split: prod.splits option.splits bind_splits sum.splits if_splits)
  then have "4 \<le> length x" by (metis DecodeAddressBytes_def linorder_not_less)
  then have "x \<noteq> []" by auto
  then show ?thesis using assms x(1)
    by (auto simp: tryLegacyDecrypt_def Let_def split: prod.splits option.splits bind_splits sum.splits if_splits)
qed

text \<open>The three results of the look-up: known address, unknown, or legacy-decrypted.\<close>

lemma resolveDevice_cases:
  obtains (known) dev where "env_getDevice env address s = Some dev"
      "resolveDevice env dataHex address s = Some (address, Some dev, False, dataHex, to_upper dataHex)"
  | (unknown) "env_getDevice env address s = None"
      "resolveDevice env dataHex address s = Some (address, None, False, dataHex, to_upper dataHex)"
  | (legacy) address2 bs where "env_getDevice env address s = None" "bs \<noteq> []" "address2 \<noteq> address"
      "resolveDevice env dataHex address s
         = Some (address2, env_getDevice env address2 s, True, hex_encode bs, to_upper (hex_encode bs))"
proof (cases "env_getDevice env address s")
  case (Some dev)
  then show ?thesis by (intro known) (simp_all add: resolveDevice_def)
next
  case None
  obtain r where r: "tryLegacyDecrypt (env_DefaultKey env) address (fst (hex_decode dataHex)) = Some r"
    using tryLegacyDecrypt_total by blast
  show ?thesis
  proof (cases r)
    case N: None
    then show ?thesis using None r by (intro unknown) (simp_all add: resolveDevice_def)
  next
    case S: (Some t)
    obtain a h p where t: "t = (a, h, p)" by (cases t)
    from tryLegacyDecrypt_bytes [OF r [unfolded S t]] obtain bs where
      bs: "bs \<noteq> []" "h = hex_encode bs" "p = to_upper h" "a \<noteq> address" by blast
    show ?thesis by (rule legacy [OF None bs(1,4)]) (simp add: resolveDevice_def None r S t bs)
  qed
qed

lemma dispatchFrame_short: "length dataHex \<le> 8 \<Longrightarrow> dispatchFrame env dataHex cb s = Some (no_result, s)"
  by (simp add: dispatchFrame_def ValidPayload_def)

text \<open>A frame of a known LoRaRAW device with a readable trailer.\<close>

lemma dispatchFrame_known:
  assumes "8 < length dataHex" "env_getDevice env (take 8 dataHex) s = Some dev"
    and "GetDeviceDescription dev LoRaDeviceDescriptions = Some d" "IsLoRaRAW d"
    and "DecodeRSSI dataHex = Some (Inr rssi)" "DecodeSNR dataHex = Some (Inr snr)"
  shows "dispatchFrame env dataHex cb s =
    (case dispatchLoRaRAW env dev d dataHex (fst (hex_decode dataHex)) (to_upper dataHex) cb s of
       None \<Rightarrow> None
     | Some (None, s) \<Rightarrow> Some (no_result, s)
     | Some (Some pub, s) \<Rightarrow>
         Some (\<lparr>dr_Address = take 8 dataHex, dr_Device = Some dev, dr_DevDesc = Some d, dr_DataHex = dataHex,
                dr_PublishRawHex = pub, dr_RSSI = rssi, dr_SNR = snr, dr_LegacyDevice = False, dr_OK = True\<rparr>, s))"
proof -
  have "resolveDevice env dataHex (take 8 dataHex) s = Some (take 8 dataHex, Some dev, False, dataHex, to_upper dataHex)"
    using assms(2) by (simp add: resolveDevice_def)
  then show ?thesis
    using assms(1,3-6) header_total(3) [of dataHex]
    by (simp add: dispatchFrame_def dispatchDevice_def ValidPayload_def split: option.split prod.split)
qed

lemma dispatchFrame_drops:
  assumes "env_getDevice env (take 8 dataHex) s = Some dev"
    and "GetDeviceDescription dev LoRaDeviceDescriptions = Some d" "IsLoRaRAW d"
    and "\<And>h b p. dispatchLoRaRAW env dev d dataHex (fst (hex_decode dataHex)) (to_upper dataHex) cb s = Some (None, s)"
  shows "dispatchFrame env dataHex cb s = Some (no_result, s)"
proof (cases "8 < length dataHex")
  case True
  obtain r q where r: "DecodeRSSI dataHex = Some r" "DecodeSNR dataHex = Some q" using header_total(1,2) by metis
  have rd: "resolveDevice env dataHex (take 8 dataHex) s = Some (take 8 dataHex, Some dev, False, dataHex, to_upper dataHex)"
    using assms(1) by (simp add: resolveDevice_def)
  show ?thesis
  proof (cases r)
    case (Inl e)
    then show ?thesis using True r rd header_total(3) [of dataHex]
      by (simp add: dispatchFrame_def ValidPayload_def)
  next
    case (Inr v)
    then show ?thesis using True r rd header_total(3) [of dataHex] assms(2-4)
      by (cases q) (simp_all add: dispatchFrame_def dispatchDevice_def ValidPayload_def)
  qed
qed (simp add: dispatchFrame_short)

context reception_env
begin

lemma dispatchDevice_safe:
  assumes s: "Q s" and leg: "legacyDevice \<Longrightarrow> fst (hex_decode dataHex) \<noteq> []"
    and ok: "\<And>d. \<not> legacyDevice \<Longrightarrow> IsLoRaRAW d \<Longrightarrow> GetDeviceDescription dev LoRaDeviceDescriptions = Some d
      \<Longrightarrow> R \<or> \<not> panicking_frame env dev d bytes"
  shows "safe R Q (dispatchDevice env address dev legacyDevice dataHex pub bytes rssi snr cb s)"
proof (cases "GetDeviceDescription dev LoRaDeviceDescriptions")
  case None
  then show ?thesis using s by (simp add: dispatchDevice_def)
next
  case (Some d)
  then have reg: "d \<in> set LoRaDeviceDescriptions" using GetDeviceDescription_Some by blast
  have finish: "safe R Q r \<Longrightarrow> safe R Q (r \<bind> (\<lambda>(pub, s). case pub of None \<Rightarrow> Some (no_result, s) | Some p \<Rightarrow> Some (f p, s)))"
    for r :: "(string option \<times> 's) option" and f
    by (cases r) (auto split: option.split)
  have legacy: "kept R Q (handleLegacyDevice env dev (Some d) dataHex bs cb s)" if "\<not> IsLoRaRAW d \<or> bs \<noteq> []" for bs
    by (rule handleLegacyDevice_kept [OF reg _ s]) (use registered_raw [OF reg] that in auto)
  show ?thesis
    unfolding dispatchDevice_def Some option.case
  proof (rule finish)
    show "safe R Q (if legacyDevice then map_option (Pair (Some pub))
          (handleLegacyDevice env dev (Some d) dataHex (fst (hex_decode dataHex)) cb s)
        else if IsLoRaRAW d then dispatchLoRaRAW env dev d dataHex bytes pub cb s
        else map_option (Pair (Some pub)) (handleLegacyDevice env dev (Some d) dataHex bytes cb s))"
      using legacy leg ok [OF _ _ Some] dispatchLoRaRAW_safe [OF reg s] by (simp add: safe_Pair)
  qed
qed

end

text \<open>For every device the look-up can return.\<close>

locale reception_frames =
  fixes cb :: "'s callbacks" and R :: bool and Q :: "'s \<Rightarrow> bool" and env :: "'s dispatch_env" and D :: "device \<Rightarrow> bool"
  assumes known_device: "Q s \<Longrightarrow> env_getDevice env address s = Some dev \<Longrightarrow> D dev"
    and handlers: "D dev \<Longrightarrow> reception_env cb dev R Q env"
begin

lemma dispatchFrame_safe:
  assumes s: "Q s"
    and ok: "\<And>dev d. env_getDevice env (take 8 dataHex) s = Some dev \<Longrightarrow> GetDeviceDescription dev LoRaDeviceDescriptions = Some d
      \<Longrightarrow> IsLoRaRAW d \<Longrightarrow> R \<or> \<not> panicking_frame env dev d (fst (hex_decode dataHex))"
  shows "safe R Q (dispatchFrame env dataHex cb s)"
proof (cases "8 < length dataHex")
  case False
  then show ?thesis using s by (simp add: dispatchFrame_short)
next
  case long: True
  have rest: "safe R Q (dispatchFrame env dataHex cb s)"
    if rd: "resolveDevice env dataHex (take 8 dataHex) s = Some (address, device, leg, h, pub)"
      and dd: "\<And>dev rssi snr. device = Some dev \<Longrightarrow>
        safe R Q (dispatchDevice env address dev leg h pub (fst (hex_decode dataHex)) rssi snr cb s)"
    for address device leg h pub
  proof -
    obtain r q where r: "DecodeRSSI h = Some r" "DecodeSNR h = Some q" using header_total(1,2) by metis
    show ?thesis using long rd dd header_total(3) [of dataHex] r s
      by (cases r; cases q; cases device) (auto simp: dispatchFrame_def ValidPayload_def)
  qed
  show ?thesis
  proof (cases rule: resolveDevice_cases [of env "take 8 dataHex" s dataHex])
    case (known dev)
    have dev: "D dev" by (rule known_device [OF s known(1)])
    show ?thesis
      by (rule rest [OF known(2)]) (use reception_env.dispatchDevice_safe [OF handlers [OF dev] s] ok [OF known(1)] in auto)
  next
    case unknown
    show ?thesis by (rule rest [OF unknown(2)]) simp
  next
    case (legacy address2 bs)
    show ?thesis 
    proof (rule rest [OF legacy(4)])
      fix dev rssi snr
      assume "env_getDevice env address2 s = Some dev"
      from known_device [OF s this] have "D dev" .
      then show "safe R Q (dispatchDevice env address2 dev True (hex_encode bs) (to_upper (hex_encode bs)) (fst (hex_decode dataHex)) rssi snr cb s)"
        by (intro reception_env.dispatchDevice_safe [OF handlers s]) (use legacy(2) in \<open>simp_all add: hex_decode_encode\<close>)
    qed
  qed
qed

end

definition total_writer :: "'s dispatch_env \<Rightarrow> bool" where
  "total_writer env \<longleftrightarrow> (\<forall>frame s. env_writeToLoRaRaw env frame s \<noteq> None)"

lemma total_frames:
  assumes "mac_ok (env_mac env)" "total_callbacks cb" "total_writer env"
  shows "reception_frames cb False (\<lambda>_. True) env (\<lambda>_. True)"
  using assms total_reception [OF assms(2)]
  by (auto simp: reception_frames_def reception_env_def reception_env_axioms_def safe_total total_writer_def simp del: not_None_eq)

subsection \<open>Properties\<close>

text \<open>C2: A frame of a known LoRaRAW device whose CMAC does not verify under the device's key is
  dropped without a callback, an acknowledgement or a result, when the model is encryption-only
  or the frame has the shape of a ciphertext.\<close>

theorem unauthenticated_frames_dropped:
  assumes "mac_ok (env_mac env)" "env_getDevice env (take 8 dataHex) s = Some dev"
    and "GetDeviceDescription dev LoRaDeviceDescriptions = Some d" "IsLoRaRAW d"
    and "\<And>key. getEncryptionKey (env_DefaultKey env) dev = Inr key
           \<Longrightarrow> \<not> authentic_frame (env_mac env) key (fst (hex_decode dataHex))"
    and "\<not> AllowUnencrypted d \<or> isEncryptionShaped (fst (hex_decode dataHex))"
  shows "dispatchFrame env dataHex cb s = Some (no_result, s)"
  by (rule dispatchFrame_drops [OF assms(2-4) dispatchLoRaRAW_drops [OF assms(1,5,6)]])

text \<open>Handling a frame panics in exactly these situations only (for callbacks and a serial
  writer that do not panic): the frame is from a known LoRaRAW device, and either it is
  authentic and has an empty payload for the Rubix decoder or is a RESPONSE for a model
  without a response decoder, or it is a plaintext frame with an empty payload for a Rubix
  model that allows plaintext.  Every other string, of any length and content, is handled.\<close>

theorem dispatch_panics_only:
  assumes "mac_ok (env_mac env)" "total_callbacks cb" "total_writer env" "dispatchFrame env dataHex cb s = None"
  shows "\<exists>dev d key. env_getDevice env (take 8 dataHex) s = Some dev
    \<and> GetDeviceDescription dev LoRaDeviceDescriptions = Some d \<and> IsLoRaRAW d
    \<and> getEncryptionKey (env_DefaultKey env) dev = Inr key
    \<and> ((\<exists>dec. tryDecryptLoRaRAWPkt (env_mac env) (fst (hex_decode dataHex)) key = Some (Inr dec)
           \<and> (empty_rubix_payload d dec \<or> response_without_decoder d dec))
       \<or> AllowUnencrypted d \<and> isUnencryptedLoRaRAW (fst (hex_decode dataHex)) = Some True
           \<and> empty_rubix_payload d (fst (hex_decode dataHex)))"
  using reception_frames.dispatchFrame_safe [OF total_frames [OF assms(1-3)] TrueI, where dataHex = dataHex and s = s] assms(4)
  unfolding panicking_frame_def safe_total by blast

subsection \<open>Sealed messages\<close>

text \<open>
  The specification of the receive path for an authentic message: an uplink goes to the
  decoder, a confirmed uplink is acknowledged first, a RESPONSE goes to the response decoder
  with the nonce as message id, anything else is ignored.
\<close>

definition ack_frame :: "cmac_fn \<Rightarrow> byte list \<Rightarrow> byte list \<Rightarrow> byte \<Rightarrow> byte list" where
  "ack_frame mac key addr nonce =
     (let m = addr @ [LORARAW_OPTS_ACK, nonce] in m @ take 4 (mac key m))"

definition deliver ::
  "'s dispatch_env \<Rightarrow> device \<Rightarrow> lora_desc \<Rightarrow> byte list \<Rightarrow> byte list \<Rightarrow> byte \<Rightarrow> byte \<Rightarrow> string \<Rightarrow> byte list
     \<Rightarrow> 's callbacks \<Rightarrow> 's \<Rightarrow> 's option" where
  "deliver env dev d key addr opts nonce dataHex payload cb s =
     (let uplink = (\<lambda>s. do {
            du \<leftarrow> DecodeUplink d;
            perform (call_DecodeUplink (env_order env) du dataHex payload (Some d) dev cb) s }) in
      if opts = LORARAW_OPTS_UNCONFIRMED_UPLINK then uplink s
      else if opts = LORARAW_OPTS_CONFIRMED_UPLINK then
        do { s \<leftarrow> perform (env_writeToLoRaRaw env (ack_frame (env_mac env) key addr nonce)) s; uplink s }
      else if opts = LORARAW_OPTS_RESPONSE then
        do { dr \<leftarrow> DecodeResponse d; perform (call_DecodeResponse dr payload nonce (Some d) dev cb) s }
      else Some s)"

lemma createAck_frame:
  "mac_ok mac \<Longrightarrow> length key \<in> {16, 24, 32} \<Longrightarrow> createAck mac addr key nonce = Some (ack_frame mac key addr nonce)"
  using NewCipher_None [of key] by (simp add: createAck_def CmacUnencrypted_def ack_frame_def mac_ok_def Let_def)

lemma handle_sealed:
  assumes "mac_ok (env_mac env)" "length key \<in> {16, 24, 32}" "length addr = 4" "length payload \<le> 255"
    and dec: "dec = addr @ inner_block payload opts nonce @ cm" and cm: "length cm = 4"
  shows "handleLoRaRAWDevice env dev (Some d) dataHex dec key cb s
    = deliver env dev d key addr opts nonce dataHex payload cb s"
    "buildUnencryptedRawFrame dec (dec @ [r, q])
      = Some (addr @ [opts, nonce, word_of_nat (length payload)] @ payload @ [r, q], True)"
proof -
  note s = strip_inner [OF assms(3) dec]
  obtain z where z: "inner_block payload opts nonce = opts # nonce # word_of_nat (length payload) # payload @ replicate z 0"
    using inner_block_append by blast
  have l6: "dec ! 6 = word_of_nat (length payload)" using assms(3) by (simp add: dec z nth_append)
  have u6: "unat (dec ! 6) = length payload" using assms(4) by (simp only: l6 unat_length_byte) simp
  have len: "11 + length payload \<le> length dec" using s(5) cm by simp
  have chk: "CheckLoRaRAWPayloadLength dec = Some True" using len u6 by (simp only: CheckLength_iff)
  have st: "StripLoRaRAWPayload dec = Some payload" using s(1) assms(4) by simp
  have ix: "go_slice dec 0 4 = Some addr" "go_index dec 5 = Some nonce" "getOpts dec = Some opts" "getNonce dec = Some nonce"
    using s(2-4) len by (simp_all add: go_slice_def getOpts_def getNonce_def)
  have l: "\<not> length dec \<le> 5" "\<not> length dec < 4" using len by simp_all
  have ack: "handleConfirmedOpt env dec key t
      = perform (env_writeToLoRaRaw env (ack_frame (env_mac env) key addr nonce)) t" for t
    using l(2) by (simp add: handleConfirmedOpt_def ix createAck_frame [OF assms(1,2)])
  show "handleLoRaRAWDevice env dev (Some d) dataHex dec key cb s
    = deliver env dev d key addr opts nonce dataHex payload cb s"
    unfolding handleLoRaRAWDevice_def deliver_def Let_def deref_desc_def option.case
    by (simp only: chk st ix ack l Option.bind.simps simp_thms if_False if_True refl)
  have "dec = (addr @ [opts, nonce, word_of_nat (length payload)] @ payload) @ replicate z 0 @ cm" by (simp add: dec z)
  moreover have "7 + length payload = length (addr @ [opts, nonce, word_of_nat (length payload)] @ payload)"
    using assms(3) by simp
  ultimately have p: "take (7 + length payload) dec = addr @ [opts, nonce, word_of_nat (length payload)] @ payload"
    by (metis append_eq_conv_conj)
  have "go_slice (dec @ [r, q]) (length dec) (length dec + 2) = Some [r, q]" by (simp add: go_slice_def)
  moreover have "go_slice dec 0 (7 + length payload) = Some (take (7 + length payload) dec)"
    using len by (simp add: go_slice_def)
  moreover have "GetLoRaRAWInnerPayloadLength dec = Some (length payload)"
    using len u6 by (simp add: GetLoRaRAWInnerPayloadLength_def)
  ultimately show "buildUnencryptedRawFrame dec (dec @ [r, q])
      = Some (addr @ [opts, nonce, word_of_nat (length payload)] @ payload @ [r, q], True)"
    using len p by (simp add: buildUnencryptedRawFrame_def)
qed

lemma sealed_shape:
  assumes "mac_ok mac" "length addr = 4" "length inner mod 16 = 0" "16 \<le> length inner"
  shows "isEncryptionShaped (sealed_frame mac key addr inner @ [r, q])"
    "length (sealed_frame mac key addr inner) = 8 + length inner"
proof -
  obtain n where n: "length inner = 16 * n" using assms(3) by auto
  have c: "length (cbc_encrypt (aes_encrypt key) iv inner) = length inner"
    using cbc_inner(2) [OF assms(3)] by blast
  show l: "length (sealed_frame mac key addr inner) = 8 + length inner"
    using assms(1,2) c by (simp add: sealed_frame_def Let_def mac_ok_def)
  show "isEncryptionShaped (sealed_frame mac key addr inner @ [r, q])"
    using n assms(4) by (simp add: isEncryptionShaped_iff l)
qed

lemma tryDecrypt_sealed:
  assumes "mac_ok mac" "length key \<in> {16, 24, 32}" "length addr = 4" "length inner mod 16 = 0" "16 \<le> length inner"
  shows "\<exists>cm. length cm = 4
    \<and> tryDecryptLoRaRAWPkt mac (sealed_frame mac key addr inner @ [r, q]) key = Some (Inr (addr @ inner @ cm))"
  using Decrypt_sealed [OF assms] tryDecrypt_Decrypt [OF sealed_shape(1) [OF assms(1,3,4,5), of key r q], of mac key]
  by simp

lemma dispatch_sealed:
  assumes "mac_ok (env_mac env)" "getEncryptionKey (env_DefaultKey env) dev = Inr key" "length key \<in> {16, 24, 32}"
    and "hex_decode address = (addr, None)" "length addr = 4" "length payload \<le> 255"
    and "Encrypt (env_mac env) address payload key opts nonce = Some (Inr frame)"
    and "hex_frame dataHex (frame @ [r, q])" "env_getDevice env (take 8 dataHex) s = Some dev"
    and "GetDeviceDescription dev LoRaDeviceDescriptions = Some d" "IsLoRaRAW d"
  shows "dispatchFrame env dataHex cb s =
    map_option (Pair \<lparr>dr_Address = take 8 dataHex, dr_Device = Some dev, dr_DevDesc = Some d, dr_DataHex = dataHex,
        dr_PublishRawHex = to_upper (hex_encode (addr @ [opts, nonce, word_of_nat (length payload)] @ payload @ [r, q])),
        dr_RSSI = - uint r, dr_SNR = Fin (of_int (sint q) / 4), dr_LegacyDevice = False, dr_OK = True\<rparr>)
      (deliver env dev d key addr opts nonce dataHex payload cb s)"
proof -
  define inner where "inner = inner_block payload opts nonce"
  note ib = inner_block_bounds [of payload opts nonce, folded inner_def]
  have fr: "frame = sealed_frame (env_mac env) key addr inner"
    using assms(7) Encrypt_seals [OF assms(1,3,4)] by (simp add: inner_def)
  obtain cm where cm: "length cm = 4" "tryDecryptLoRaRAWPkt (env_mac env) (frame @ [r, q]) key = Some (Inr (addr @ inner @ cm))"
    using tryDecrypt_sealed [OF assms(1,3,5) ib(1,2), of r q] fr by auto
  have lf: "length frame = length (addr @ inner @ cm)"
    using sealed_shape(2) [OF assms(1,5) ib(1,2)] cm(1) assms(5) by (simp add: fr)
  have fa: "frame_after_decrypt (addr @ inner @ cm) (frame @ [r, q]) = (addr @ inner @ cm) @ [r, q]"
    using lf by (simp add: frame_after_decrypt_def)
  have "addr @ inner @ cm = addr @ inner_block payload opts nonce @ cm" by (simp add: inner_def)
  note h = handle_sealed [OF assms(1,3,5,6) this cm(1)]
  have dec: "fst (hex_decode dataHex) = frame @ [r, q]" using assms(8) by (simp add: hex_frame_def)
  have "dispatchLoRaRAW env dev d dataHex (fst (hex_decode dataHex)) (to_upper dataHex) cb s
      = map_option (Pair (Some (to_upper (hex_encode (addr @ [opts, nonce, word_of_nat (length payload)] @ payload @ [r, q])))))
          (deliver env dev d key addr opts nonce dataHex payload cb s)"
    unfolding dispatchLoRaRAW_def assms(2) sum.case dec cm(2) fa h Option.bind.simps Let_def
    by (simp add: map_option_case split: option.split)
  moreover have "length (frame @ [r, q]) = 10 + length inner" using lf cm(1) assms(5) by simp
  moreover have "8 < length dataHex" using hex_frame_length [OF assms(8)] calculation(2) by simp
  moreover have "(frame @ [r, q]) ! (length (frame @ [r, q]) - 2) = r" by (simp add: nth_append)
  then have "DecodeRSSI dataHex = Some (Inr (- uint r))" "DecodeSNR dataHex = Some (Inr (Fin (of_int (sint q) / 4)))"
    using frame_trailer [OF assms(8)] by simp_all
  ultimately show ?thesis
    using dispatchFrame_known [OF _ assms(9-11)] by (simp add: map_option_case split: option.split)
qed

text \<open>C1: A message sealed by \<^verbatim>\<open>Encrypt\<close> under the device's key, sent with its RSSI and SNR bytes
  in either letter case, is delivered exactly as its options say (an uplink to the decoder with
  the original payload, a confirmed one after one acknowledgement, a RESPONSE with the nonce as
  message id), and the published frame is the same message in the plaintext layout.\<close>

theorem sealed_message_delivered:
  assumes "mac_ok (env_mac env)" "getEncryptionKey (env_DefaultKey env) dev = Inr key" "length key \<in> {16, 24, 32}"
    and "hex_decode address = (addr, None)" "length addr = 4" "length payload \<le> 255"
    and "Encrypt (env_mac env) address payload key opts nonce = Some (Inr frame)"
    and "hex_frame dataHex (frame @ [r, q])" "env_getDevice env (take 8 dataHex) s = Some dev"
    and "GetDeviceDescription dev LoRaDeviceDescriptions = Some d" "IsLoRaRAW d"
  shows "dispatchFrame env dataHex cb s =
    map_option (Pair \<lparr>dr_Address = take 8 dataHex, dr_Device = Some dev, dr_DevDesc = Some d, dr_DataHex = dataHex,
        dr_PublishRawHex = to_upper (hex_encode (addr @ [opts, nonce, word_of_nat (length payload)] @ payload @ [r, q])),
        dr_RSSI = - uint r, dr_SNR = Fin (of_int (sint q) / 4), dr_LegacyDevice = False, dr_OK = True\<rparr>)
      (deliver env dev d key addr opts nonce dataHex payload cb s)"
  by (rule dispatch_sealed [OF assms])

subsection \<open>An example environment\<close>

lemma hex_encode_append: "hex_encode (a @ b) = hex_encode a @ hex_encode b"
  by (induction a) simp_all

definition wire_hex :: "byte list \<Rightarrow> string" where
  "wire_hex frame = to_upper (hex_encode frame)"

lemma wire_hex_frame [simp]: "hex_frame (wire_hex bs) bs" "fst (hex_decode (wire_hex bs)) = bs" "hex_decode (wire_hex bs) = (bs, None)"
  by (simp_all add: wire_hex_def hex_decode_upper_encode)

lemma take_wire_hex: "length a = 4 \<Longrightarrow> take 8 (wire_hex (a @ b)) = wire_hex a"
  by (simp add: wire_hex_def to_upper_def hex_encode_append take_map)

definition example_mac :: cmac_fn where
  "example_mac key m = replicate 16 0xab"

lemma example_mac_ok [simp]: "mac_ok example_mac"
  by (simp add: mac_ok_def example_mac_def)

text \<open>One device of the given model at address C0FFEE01, with a 16-byte key of its own.\<close>

definition example_env :: "string \<Rightarrow> event list dispatch_env" where
  "example_env m = \<lparr>env_DefaultKey = '''', env_mac = example_mac, env_order = id,
     env_getDevice = (\<lambda>a s. if a = wire_hex [0xc0, 0xff, 0xee, 1]
        then Some (example_device\<lparr>dev_Model := m, dev_Manufacture := wire_hex (replicate 16 7)\<rparr>) else None),
     env_writeToLoRaRaw = (\<lambda>frame s. Some (None, s))\<rparr>"

lemma example_env_simps [simp]:
  "env_mac (example_env m) = example_mac" "total_writer (example_env m)"
  "env_getDevice (example_env m) (wire_hex [0xc0, 0xff, 0xee, 1]) s
     = Some (example_device\<lparr>dev_Model := m, dev_Manufacture := wire_hex (replicate 16 7)\<rparr>)"
  by (simp_all add: example_env_def total_writer_def)

lemma wire_hex_not_Nil: "wire_hex (b # bs) \<noteq> []"
  by (simp add: wire_hex_def to_upper_def)

lemma example_key [simp]:
  "getEncryptionKey k (example_device\<lparr>dev_Model := m, dev_Manufacture := wire_hex (replicate 16 7)\<rparr>) = Inr (replicate 16 7)"
proof -
  have "wire_hex (replicate 16 7) \<noteq> []" using wire_hex_not_Nil [of 7 "replicate 15 7"] by (simp add: numeral_eq_Suc)
  then show ?thesis by (simp add: getEncryptionKey_def)
qed

lemma example_description:
  "d \<in> set LoRaDeviceDescriptions \<Longrightarrow>
     GetDeviceDescription (example_device\<lparr>dev_Model := Model d, dev_Manufacture := k\<rparr>) LoRaDeviceDescriptions = Some d"
  by (rule GetDeviceDescription_model [OF _ _ registry_distinct]) (simp_all add: equal_fold_def)

lemma example_descriptions:
  "rubix_desc ''Rubix'' DeviceModelRubix True \<in> set LoRaDeviceDescriptions"
  "rubix_desc ''UART'' DeviceModelUART False \<in> set LoRaDeviceDescriptions"
  "zht_desc \<in> set LoRaDeviceDescriptions"
  "Model (rubix_desc ''Rubix'' DeviceModelRubix True) = DeviceModelRubix"
  "Model (rubix_desc ''UART'' DeviceModelUART False) = DeviceModelUART" "Model zht_desc = DeviceModelZiptHydroTap"
  unfolding registered_forms by (simp_all add: rubix_desc_def zht_desc_def)

lemmas example_found =
  example_description [OF example_descriptions(1), unfolded example_descriptions(4)]
  example_description [OF example_descriptions(2), unfolded example_descriptions(5)]
  example_description [OF example_descriptions(3), unfolded example_descriptions(6)]

theorem unauthenticated_frames_dropped_witness:
  "dispatchFrame (example_env ''UART'') (wire_hex ([0xc0, 0xff, 0xee, 1] @ replicate 22 0)) recorder [] = Some (no_result, [])"
proof (rule unauthenticated_frames_dropped [where d = "rubix_desc ''UART'' DeviceModelUART False"])
  show "env_getDevice (example_env ''UART'') (take 8 (wire_hex ([0xc0, 0xff, 0xee, 1] @ replicate 22 0))) []
      = Some (example_device\<lparr>dev_Model := ''UART'', dev_Manufacture := wire_hex (replicate 16 7)\<rparr>)"
    by (subst take_wire_hex) simp_all
  show "\<not> authentic_frame (env_mac (example_env ''UART'')) key
      (fst (hex_decode (wire_hex ([0xc0, 0xff, 0xee, 1] @ replicate 22 0))))" for key
    by (simp add: authentic_frame_def example_mac_def)
qed (simp_all add: example_found(2) rubix_desc_def)

lemma wire_addr_length: "length [0xc0, 0xff, 0xee, 1 :: byte] = 4"
  by simp

theorem sealed_message_delivered_witness:
  "\<exists>frame. Encrypt example_mac (wire_hex [0xc0, 0xff, 0xee, 1]) [1, 2, 3] (replicate 16 7) 1 42 = Some (Inr frame)
    \<and> dispatchFrame (example_env ''UART'') (wire_hex (frame @ [60, 40])) recorder [] =
        map_option (Pair \<lparr>dr_Address = take 8 (wire_hex (frame @ [60, 40])),
            dr_Device = Some (example_device\<lparr>dev_Model := ''UART'', dev_Manufacture := wire_hex (replicate 16 7)\<rparr>),
            dr_DevDesc = Some (rubix_desc ''UART'' DeviceModelUART False), dr_DataHex = wire_hex (frame @ [60, 40]),
            dr_PublishRawHex = to_upper (hex_encode ([0xc0, 0xff, 0xee, 1] @ [1, 42, word_of_nat (length [1, 2, 3 :: byte])] @ [1, 2, 3] @ [60, 40])),
            dr_RSSI = - uint (60 :: byte), dr_SNR = Fin (of_int (sint (40 :: byte)) / 4), dr_LegacyDevice = False, dr_OK = True\<rparr>)
          (deliver (example_env ''UART'') (example_device\<lparr>dev_Model := ''UART'', dev_Manufacture := wire_hex (replicate 16 7)\<rparr>)
             (rubix_desc ''UART'' DeviceModelUART False) (replicate 16 7) [0xc0, 0xff, 0xee, 1] 1 42
             (wire_hex (frame @ [60, 40])) [1, 2, 3] recorder [])"
proof -
  let ?env = "example_env ''UART''" and ?key = "replicate 16 7"
  let ?dev = "example_device\<lparr>dev_Model := ''UART'', dev_Manufacture := wire_hex ?key\<rparr>"
  have k: "length ?key \<in> {16, 24, 32}" by simp
  define frame where "frame = sealed_frame example_mac ?key [0xc0, 0xff, 0xee, 1] (inner_block [1, 2, 3] 1 42)"
  have e: "Encrypt example_mac (wire_hex [0xc0, 0xff, 0xee, 1]) [1, 2, 3] ?key 1 42 = Some (Inr frame)"
    unfolding frame_def by (rule Encrypt_seals [OF example_mac_ok k]) simp
  have "take 4 frame = [0xc0, 0xff, 0xee, 1]" by (simp add: frame_def sealed_frame_def Let_def)
  then have "frame = [0xc0, 0xff, 0xee, 1] @ drop 4 frame" by (metis append_take_drop_id)
  then have a: "take 8 (wire_hex (frame @ [60, 40])) = wire_hex [0xc0, 0xff, 0xee, 1]"
    using take_wire_hex [of "[0xc0, 0xff, 0xee, 1]" "drop 4 frame @ [60, 40]"] by (metis append.assoc wire_addr_length)
  show ?thesis
    using e sealed_message_delivered [where env = ?env and dev = ?dev and key = ?key and address = "wire_hex [0xc0, 0xff, 0xee, 1]"
        and addr = "[0xc0, 0xff, 0xee, 1]" and payload = "[1, 2, 3]" and opts = 1 and nonce = 42 and frame = frame
        and dataHex = "wire_hex (frame @ [60, 40])" and r = 60 and q = 40 and s = "[]"
        and d = "rubix_desc ''UART'' DeviceModelUART False" and cb = recorder]
    by (intro exI [of _ frame]) (simp add: a example_found(2) rubix_desc_def)
qed

subsection \<open>Plaintext frames\<close>

lemma plaintext_not_shaped:
  assumes "length frame = 9 + n"
  shows "isEncryptionShaped frame \<longleftrightarrow> 17 \<le> n \<and> n mod 16 = 1"
proof -
  define m where "m = n mod 16"
  have "m < 16" by (simp add: m_def)
  then have "(9 + m) mod 16 = 10 \<longleftrightarrow> m = 1" by (cases "m < 7") (auto simp: mod_if)
  moreover have "(9 + n) mod 16 = (9 + m) mod 16" by (simp add: m_def mod_add_right_eq)
  ultimately have "(9 + n) mod 16 = 10 \<longleftrightarrow> n mod 16 = 1" by (simp add: m_def)
  moreover have "26 \<le> 9 + n \<longleftrightarrow> 17 \<le> n" by linarith
  ultimately show ?thesis by (simp only: isEncryptionShaped_iff assms)
qed

lemma dispatch_plaintext:
  assumes "mac_ok (env_mac env)" "getEncryptionKey (env_DefaultKey env) dev = Inr key"
    and "hex_frame dataHex (addr @ [opts, nonce, word_of_nat (length payload)] @ payload @ [r, q])"
    and "length addr = 4" "length payload \<le> 255" "\<not> (17 \<le> length payload \<and> length payload mod 16 = 1)"
    and "env_getDevice env (take 8 dataHex) s = Some dev"
    and "GetDeviceDescription dev LoRaDeviceDescriptions = Some d" "IsLoRaRAW d" "AllowUnencrypted d"
  shows "dispatchFrame env dataHex cb s =
    map_option (Pair \<lparr>dr_Address = take 8 dataHex, dr_Device = Some dev, dr_DevDesc = Some d, dr_DataHex = dataHex,
        dr_PublishRawHex = to_upper dataHex, dr_RSSI = - uint r, dr_SNR = Fin (of_int (sint q) / 4),
        dr_LegacyDevice = False, dr_OK = True\<rparr>)
      (do { du \<leftarrow> DecodeUplink d; perform (call_DecodeUplink (env_order env) du dataHex payload (Some d) dev cb) s })"
proof -
  define frame where "frame = addr @ [opts, nonce, word_of_nat (length payload)] @ payload @ [r, q]"
  have hf: "hex_frame dataHex frame" "fst (hex_decode dataHex) = frame"
    using assms(3) by (simp_all add: frame_def hex_frame_def)
  have len: "length frame = 9 + length payload" using assms(4) by (simp add: frame_def)
  have "frame ! 6 = word_of_nat (length payload)" using assms(4) by (simp add: frame_def nth_append)
  then have u6: "unat (frame ! 6) = length payload" using assms(5) by (simp only: unat_length_byte) simp
  have ns: "\<not> isEncryptionShaped frame" using plaintext_not_shaped [OF len] assms(6) by blast
  have "StripLoRaRAWPayload frame = Some (take (length payload) (drop 7 frame))"
    using Strip_plain [of frame] len u6 by simp
  then have st: "StripLoRaRAWPayload frame = Some payload" using assms(4) by (simp add: frame_def)
  have un: "isUnencryptedLoRaRAW frame = Some True" using len u6 by (simp add: isUnencryptedLoRaRAW_iff)
  have "dispatchLoRaRAW env dev d dataHex (fst (hex_decode dataHex)) (to_upper dataHex) cb s
    = map_option (Pair (Some (to_upper dataHex)))
       (do { du \<leftarrow> DecodeUplink d; perform (call_DecodeUplink (env_order env) du dataHex payload (Some d) dev cb) s })"
    using ns st un assms(2,10)
    by (simp add: dispatchLoRaRAW_def tryDecryptLoRaRAWPkt_def hf map_option_case split: option.split bind_splits)
  moreover have "frame ! (length frame - 2) = r" "last frame = q" using len assms(4) by (simp_all add: frame_def nth_append)
  then have "DecodeRSSI dataHex = Some (Inr (- uint r))" "DecodeSNR dataHex = Some (Inr (Fin (of_int (sint q) / 4)))"
    using frame_trailer [OF hf(1)] len by simp_all
  moreover have "8 < length dataHex" using hex_frame_length [OF hf(1)] len by simp
  ultimately show ?thesis
    using dispatchFrame_known [OF _ assms(7-9)] by (simp add: map_option_case split: option.split bind_splits)
qed

text \<open>C34: A plaintext frame of a model that allows plaintext, with a payload of \<open>n\<close> bytes, is decoded
  in full and published as received, unless \<open>n\<close> is 17, 33, 49, ... (then the frame has the length
  of a ciphertext).\<close>

theorem plaintext_delivered:
  assumes "mac_ok (env_mac env)" "getEncryptionKey (env_DefaultKey env) dev = Inr key"
    and "hex_frame dataHex (addr @ [opts, nonce, word_of_nat (length payload)] @ payload @ [r, q])"
    and "length addr = 4" "length payload \<le> 255" "\<not> (17 \<le> length payload \<and> length payload mod 16 = 1)"
    and "env_getDevice env (take 8 dataHex) s = Some dev"
    and "GetDeviceDescription dev LoRaDeviceDescriptions = Some d" "IsLoRaRAW d" "AllowUnencrypted d"
  shows "dispatchFrame env dataHex cb s =
    map_option (Pair \<lparr>dr_Address = take 8 dataHex, dr_Device = Some dev, dr_DevDesc = Some d, dr_DataHex = dataHex,
        dr_PublishRawHex = to_upper dataHex, dr_RSSI = - uint r, dr_SNR = Fin (of_int (sint q) / 4),
        dr_LegacyDevice = False, dr_OK = True\<rparr>)
      (do { du \<leftarrow> DecodeUplink d; perform (call_DecodeUplink (env_order env) du dataHex payload (Some d) dev cb) s })"
  by (rule dispatch_plaintext [OF assms])

lemma example_lookup:
  "env_getDevice (example_env m) (take 8 (wire_hex ([0xc0, 0xff, 0xee, 1] @ rest))) s
     = Some (example_device\<lparr>dev_Model := m, dev_Manufacture := wire_hex (replicate 16 7)\<rparr>)"
  by (subst take_wire_hex) simp_all

theorem plaintext_delivered_witness:
  "\<exists>res s'. dispatchFrame (example_env ''ZipHydroTap'') (wire_hex ([0xc0, 0xff, 0xee, 1] @ [0, 0, word_of_nat (length [9 :: byte])] @ [9] @ [60, 40])) recorder []
     = map_option (Pair res) (Some s') \<and> dr_OK res \<and> s' = []"
proof -
  let ?dev = "example_device\<lparr>dev_Model := ''ZipHydroTap'', dev_Manufacture := wire_hex (replicate 16 7)\<rparr>"
  have "DecodeZHT id [9] ?dev recorder [] = Some (Some (ErrMsg (''ZHT payload too short: '' @ itoa 1)), [])"
    by (simp add: DecodeZHT_def)
  then show ?thesis
    using plaintext_delivered [where env = "example_env ''ZipHydroTap''" and dev = ?dev and key = "replicate 16 7"
        and addr = "[0xc0, 0xff, 0xee, 1]" and opts = 0 and nonce = 0 and payload = "[9]" and r = 60 and q = 40
        and dataHex = "wire_hex ([0xc0, 0xff, 0xee, 1] @ [0, 0, word_of_nat (length [9 :: byte])] @ [9] @ [60, 40])"
        and s = "[]" and d = zht_desc and cb = recorder, OF _ _ _ _ _ _ example_lookup example_found(3)]
    by (simp add: zht_desc_def perform_def example_env_def)
qed

text \<open>C35: A plaintext version-1 static frame of a ZipHydroTap (97 payload bytes, the only length the
  decoder accepts without the version-2 fields) is always dropped, although the model allows
  plaintext and the frame has the exact plaintext length: its 106 bytes have the shape of a
  ciphertext whose CMAC does not verify.\<close>

theorem plaintext_zht_static_dropped:
  assumes "mac_ok (env_mac env)" "env_getDevice env (take 8 dataHex) s = Some dev"
    and "GetDeviceDescription dev LoRaDeviceDescriptions = Some zht_desc"
    and "hex_frame dataHex (addr @ [opts, nonce, 97] @ payload @ [r, q])" "length addr = 4" "length payload = 97"
    and "\<And>key. getEncryptionKey (env_DefaultKey env) dev = Inr key
           \<Longrightarrow> \<not> authentic_frame (env_mac env) key (addr @ [opts, nonce, 97] @ payload @ [r, q])"
  shows "isUnencryptedLoRaRAW (addr @ [opts, nonce, 97] @ payload @ [r, q]) = Some True
    \<and> dispatchFrame env dataHex cb s = Some (no_result, s)"
proof
  define frame where "frame = addr @ [opts, nonce, 97] @ payload @ [r, q]"
  have len: "length frame = 9 + 97" using assms(5,6) by (simp add: frame_def)
  have "frame ! 6 = 97" using assms(5) by (simp add: frame_def nth_append)
  then have "isUnencryptedLoRaRAW frame = Some True" using len by (simp add: isUnencryptedLoRaRAW_iff)
  then show "isUnencryptedLoRaRAW (addr @ [opts, nonce, 97] @ payload @ [r, q]) = Some True" by (simp only: frame_def)
  have bytes: "fst (hex_decode dataHex) = frame" using assms(4) by (simp add: hex_frame_def frame_def)
  have sh: "isEncryptionShaped frame" using plaintext_not_shaped [OF len] by simp
  show "dispatchFrame env dataHex cb s = Some (no_result, s)"
  proof (rule dispatchFrame_drops [OF assms(2,3)])
    show "IsLoRaRAW zht_desc" by (simp add: zht_desc_def)
    show "dispatchLoRaRAW env dev zht_desc dataHex (fst (hex_decode dataHex)) (to_upper dataHex) cb s = Some (None, s)"
      unfolding bytes by (rule dispatchLoRaRAW_drops [OF assms(1)]) (use sh assms(7) in \<open>simp_all add: frame_def\<close>)
  qed
qed

theorem plaintext_zht_static_dropped_witness:
  "dispatchFrame (example_env ''ZipHydroTap'') (wire_hex ([0xc0, 0xff, 0xee, 1] @ [0, 0, 97] @ replicate 97 1 @ [60, 40])) recorder []
     = Some (no_result, [])"
proof -
  let ?f = "[0xc0, 0xff, 0xee, 1] @ [0, 0, 97] @ replicate 97 1 @ [60, 40 :: byte]"
  have l: "length ?f - 6 = 100" by simp
  have t: "take 4 (drop 100 ?f) = replicate 4 1" by (simp add: numeral_eq_Suc)
  have n: "\<not> authentic_frame example_mac key ?f" for key
    unfolding authentic_frame_def Let_def l t by (simp add: example_mac_def)
  show ?thesis
    using plaintext_zht_static_dropped [where env = "example_env ''ZipHydroTap''" and payload = "replicate 97 1"
        and addr = "[0xc0, 0xff, 0xee, 1]" and opts = 0 and nonce = 0 and r = 60 and q = 40 and cb = recorder
        and dataHex = "wire_hex ?f", OF _ example_lookup example_found(3)] n
    by simp
qed

subsection \<open>Frames that panic\<close>

lemma DecodeRubixUplink_empty: "DecodeRubixUplink [] dd dev cb s = None"
  by (simp add: DecodeRubixUplink_def DecodeRubix_empty)

lemma registered_rubix_plain:
  "rubix_desc ''Rubix'' DeviceModelRubix True \<in> set LoRaDeviceDescriptions" by (rule example_descriptions(1))

lemma empty_rubix_frame_panics:
  assumes "mac_ok (env_mac env)" "getEncryptionKey (env_DefaultKey env) dev = Inr key"
    and "hex_frame dataHex (addr @ [opts, nonce, 0, r, q])" "length addr = 4"
    and "env_getDevice env (take 8 dataHex) s = Some dev"
    and "GetDeviceDescription dev LoRaDeviceDescriptions = Some (rubix_desc name m True)"
  shows "dispatchFrame env dataHex cb s = None"
  using dispatch_plaintext [OF assms(1,2) _ assms(4) _ _ assms(5,6), of opts nonce "[]" r q cb] assms(3)
  by (simp add: rubix_desc_def perform_def DecodeRubixUplink_empty)

text \<open>Nine bytes from the address of a device of model Rubix, with a zero length byte, stop the
  program: the plaintext path strips an empty payload, and the decoder reads its first byte.\<close>

theorem empty_plaintext_rubix_panics:
  assumes "mac_ok (env_mac env)" "getEncryptionKey (env_DefaultKey env) dev = Inr key"
    and "hex_frame dataHex (addr @ [opts, nonce, 0, r, q])" "length addr = 4"
    and "env_getDevice env (take 8 dataHex) s = Some dev"
    and "GetDeviceDescription dev LoRaDeviceDescriptions = Some (rubix_desc name m True)"
  shows "dispatchFrame env dataHex cb s = None"
  by (rule empty_rubix_frame_panics [OF assms])

lemma example_panic:
  "dispatchFrame (example_env ''Rubix'') (wire_hex ([0xc0, 0xff, 0xee, 1] @ [0, 0, 0, 60, 40])) recorder [] = None"
  by (rule empty_rubix_frame_panics [OF _ example_key wire_hex_frame(1) _ example_lookup example_found(1)]) simp_all

theorem empty_plaintext_rubix_panics_witness:
  "dispatchFrame (example_env ''Rubix'') (wire_hex ([0xc0, 0xff, 0xee, 1] @ [0, 0, 0, 60, 41])) recorder [] = None"
  by (rule empty_plaintext_rubix_panics [OF _ example_key wire_hex_frame(1) _ example_lookup example_found(1)]) simp_all

theorem dispatch_panics_only_witness:
  "\<exists>dev d key. env_getDevice (example_env ''Rubix'') (wire_hex [0xc0, 0xff, 0xee, 1]) [] = Some dev
    \<and> GetDeviceDescription dev LoRaDeviceDescriptions = Some d \<and> IsLoRaRAW d
    \<and> getEncryptionKey (env_DefaultKey (example_env ''Rubix'')) dev = Inr key"
proof -
  have "take 8 (wire_hex ([0xc0, 0xff, 0xee, 1] @ [0, 0, 0, 60, 40])) = wire_hex [0xc0, 0xff, 0xee, 1]"
    by (rule take_wire_hex) simp
  with dispatch_panics_only [OF _ total_recorder _ example_panic] show ?thesis by (auto simp del: append.simps)
qed

text \<open>An authentic RESPONSE from a ZipHydroTap stops the program: the model has no response
  decoder and the nil function is called.\<close>

theorem zht_response_panics:
  assumes "mac_ok (env_mac env)" "getEncryptionKey (env_DefaultKey env) dev = Inr key" "length key \<in> {16, 24, 32}"
    and "hex_decode address = (addr, None)" "length addr = 4" "length payload \<le> 255"
    and "Encrypt (env_mac env) address payload key LORARAW_OPTS_RESPONSE nonce = Some (Inr frame)"
    and "hex_frame dataHex (frame @ [r, q])" "env_getDevice env (take 8 dataHex) s = Some dev"
    and "GetDeviceDescription dev LoRaDeviceDescriptions = Some zht_desc"
  shows "dispatchFrame env dataHex cb s = None"
proof -
  have "IsLoRaRAW zht_desc" by (simp add: zht_desc_def)
  moreover have "deliver env dev zht_desc key addr LORARAW_OPTS_RESPONSE nonce dataHex payload cb s = None"
    by (simp add: deliver_def zht_desc_def)
  ultimately show ?thesis using dispatch_sealed [OF assms] by simp
qed

theorem zht_response_panics_witness:
  "\<exists>frame. Encrypt example_mac (wire_hex [0xc0, 0xff, 0xee, 1]) [1, 2, 3] (replicate 16 7) LORARAW_OPTS_RESPONSE 42 = Some (Inr frame)
    \<and> dispatchFrame (example_env ''ZipHydroTap'') (wire_hex (frame @ [60, 40])) recorder [] = None"
proof -
  let ?key = "replicate 16 7 :: byte list"
  have k: "length ?key \<in> {16, 24, 32}" by simp
  define frame where "frame = sealed_frame example_mac ?key [0xc0, 0xff, 0xee, 1] (inner_block [1, 2, 3] LORARAW_OPTS_RESPONSE 42)"
  have e: "Encrypt (env_mac (example_env ''ZipHydroTap'')) (wire_hex [0xc0, 0xff, 0xee, 1]) [1, 2, 3] ?key LORARAW_OPTS_RESPONSE 42 = Some (Inr frame)"
    unfolding frame_def example_env_simps by (rule Encrypt_seals [OF example_mac_ok k]) simp
  have "frame = [0xc0, 0xff, 0xee, 1] @ drop 4 frame" by (simp add: frame_def sealed_frame_def Let_def)
  then have w: "wire_hex (frame @ [60, 40]) = wire_hex ([0xc0, 0xff, 0xee, 1] @ (drop 4 frame @ [60, 40]))"
    by (metis append.assoc)
  have "dispatchFrame (example_env ''ZipHydroTap'') (wire_hex (frame @ [60, 40])) recorder [] = None"
    by (rule zht_response_panics [where addr = "[0xc0, 0xff, 0xee, 1]", OF _ example_key k _ _ _ e wire_hex_frame(1) _ example_found(3)])
       (simp_all add: w example_lookup del: append.simps)
  then show ?thesis using e by auto
qed

subsection \<open>Write requests on the air\<close>

text \<open>C29: A device that echoes the points of a write request as an uplink is understood end to end:
  the message \<^verbatim>\<open>EncodeRequestMessage\<close> builds for decodable points, sealed and sent back as an
  uplink, is reported by the dispatcher point for point with the values the data types carry.\<close>

theorem rubix_echo_end_to_end:
  assumes "mac_ok (env_mac env)" "getEncryptionKey (env_DefaultKey env) dev = Inr key" "length key \<in> {16, 24, 32}"
    and "hex_decode address = (addr, None)" "length addr = 4" "\<forall>pt \<in> set pts. writable_point pt"
    and "EncodeRequestMessage oor pts = Some (Inr payload)" "length payload \<le> 255"
    and "Encrypt (env_mac env) address payload key LORARAW_OPTS_UNCONFIRMED_UPLINK nonce = Some (Inr frame)"
    and "hex_frame dataHex (frame @ [r, q])" "env_getDevice env (take 8 dataHex) [] = Some dev"
    and "GetDeviceDescription dev LoRaDeviceDescriptions = Some (rubix_desc name m allow)"
  shows "\<exists>res junk. dispatchFrame env dataHex recorder [] =
      Some (res, map (\<lambda>pt. PointOk (pt_IoNumber pt) (sent_value oor pt) (Some (rubix_desc name m allow))) pts @ junk)
    \<and> dr_OK res \<and> junk \<in> {[], [PointOk ''unknown-1'' (Fin 0) (Some (rubix_desc name m allow))]}"
proof -
  let ?d = "rubix_desc name m allow"
  obtain buf p where b: "EncodeRequestMessage oor pts = Some (Inr buf)" "p < 8" "buf \<noteq> []"
    "payload_points buf = map (\<lambda>pt. (pt_IoNumber pt, sent_value oor pt, None)) pts @ padding_points p"
    using request_decodes [OF assms(6)] by blast
  have buf: "buf = payload" using b(1) assms(7) by simp
  have "payload_points payload = map (\<lambda>(n, v). (n, v, None))
      (map (\<lambda>pt. (pt_IoNumber pt, sent_value oor pt)) pts @ (if p = 7 then [(''unknown-1'', Fin 0)] else []))"
    using b(4) by (simp add: padding_points_values buf)
  from uplink_recorder [OF b(3) [unfolded buf] this, of "Some ?d" dev]
  have "deliver env dev ?d key addr LORARAW_OPTS_UNCONFIRMED_UPLINK nonce dataHex payload recorder []
    = Some (map (\<lambda>pt. PointOk (pt_IoNumber pt) (sent_value oor pt) (Some ?d)) pts
        @ (if p = 7 then [PointOk ''unknown-1'' (Fin 0) (Some ?d)] else []))"
    by (simp add: deliver_def rubix_desc_def perform_def comp_def)
  with dispatch_sealed [OF assms(1-5,8-12)] show ?thesis by (simp add: rubix_desc_def)
qed

lemma ping_message:
  "\<exists>payload. EncodeRequestMessage oor [example_point ''UVP-4'' ''38'' (Fin 1)] = Some (Inr payload) \<and> length payload = 3"
proof -
  let ?pt = "example_point ''UVP-4'' ''38'' (Fin 1)"
  have w: "\<forall>pt \<in> set [?pt]. writable_point pt"
    using example_writable [of 38 "''38''" "''UVP-4''" 163] by (simp add: example_numbers)
  obtain buf r where b: "EncodeRequestMessage oor [?pt] = Some (Inr buf)" "r < 8"
    "bits_of buf = byte_bits 1 @ point_bits oor ?pt @ replicate r False"
    using request_stream [OF w, of oor] by auto
  obtain d where d: "convertData oor (write_num oor 38 (Fin 1)) 38 = Some (d, field_width 38)"
    using convert_writable [of 38] by (auto simp: decodable_def key_target_def)
  have "field_width 38 = 1"
    by (simp add: field_width_def getMetaData_def serialMap_def mk_meta_def getBitCount_def bit_count_loop.simps)
  then have "length (point_bits oor ?pt) = 15"
    using d by (simp add: point_bits_def point_field_def field_bits_def example_point_def example_numbers example_positions)
  then have "8 * length buf = 23 + r" using arg_cong [OF b(3), of length] by simp
  then have "length buf = 3" using b(2) by presburger
  then show ?thesis using b(1) by blast
qed

theorem rubix_echo_end_to_end_witness:
  "\<exists>payload frame res junk. EncodeRequestMessage (\<lambda>_. 0) [example_point ''UVP-4'' ''38'' (Fin 1)] = Some (Inr payload)
    \<and> Encrypt example_mac (wire_hex [0xc0, 0xff, 0xee, 1]) payload (replicate 16 7) LORARAW_OPTS_UNCONFIRMED_UPLINK 42 = Some (Inr frame)
    \<and> dispatchFrame (example_env ''UART'') (wire_hex (frame @ [60, 40])) recorder []
        = Some (res, PointOk ''UVP-4'' (sent_value (\<lambda>_. 0) (example_point ''UVP-4'' ''38'' (Fin 1))) (Some (rubix_desc ''UART'' DeviceModelUART False)) # junk)
    \<and> dr_OK res"
proof -
  let ?key = "replicate 16 7 :: byte list" and ?pt = "example_point ''UVP-4'' ''38'' (Fin 1)"
  have k: "length ?key \<in> {16, 24, 32}" by simp
  obtain payload where p: "EncodeRequestMessage (\<lambda>_. 0) [?pt] = Some (Inr payload)" "length payload = 3"
    using ping_message by blast
  have pl: "length payload \<le> 255" using p(2) by simp
  define frame where "frame = sealed_frame example_mac ?key [0xc0, 0xff, 0xee, 1] (inner_block payload LORARAW_OPTS_UNCONFIRMED_UPLINK 42)"
  have e: "Encrypt (env_mac (example_env ''UART'')) (wire_hex [0xc0, 0xff, 0xee, 1]) payload ?key LORARAW_OPTS_UNCONFIRMED_UPLINK 42 = Some (Inr frame)"
    unfolding frame_def example_env_simps by (rule Encrypt_seals [OF example_mac_ok k]) simp
  have "frame = [0xc0, 0xff, 0xee, 1] @ drop 4 frame" by (simp add: frame_def sealed_frame_def Let_def)
  then have w: "wire_hex (frame @ [60, 40]) = wire_hex ([0xc0, 0xff, 0xee, 1] @ (drop 4 frame @ [60, 40]))"
    by (metis append.assoc)
  have lk: "env_getDevice (example_env ''UART'') (take 8 (wire_hex (frame @ [60, 40]))) []
      = Some (example_device\<lparr>dev_Model := ''UART'', dev_Manufacture := wire_hex ?key\<rparr>)"
    unfolding w by (rule example_lookup)
  have wp: "\<forall>pt \<in> set [?pt]. writable_point pt"
    using example_writable [of 38 "''38''" "''UVP-4''" 163] by (simp add: example_numbers)
  have io: "pt_IoNumber ?pt = ''UVP-4''" by (simp add: example_point_def)
  from rubix_echo_end_to_end [where addr = "[0xc0, 0xff, 0xee, 1]", OF _ example_key k _ _ wp p(1) pl e wire_hex_frame(1) lk example_found(2)]
  show ?thesis using p(1) e by (auto simp: io)
qed

end
