(* ===== verification/Write_Scheduler.thy ===== *)
theory Write_Scheduler
  imports Write_Queue Frame_Dispatch
begin

text \<open>
  writeQueueManager.go: one queue per device and one scheduler goroutine for the radio.

  The manager's operations are functions on its state (each is one critical section in the
  code); the scheduler goroutine, the receive path and the HTTP side interleave as the steps of a
  transition system.  \<open>env\<close> holds what the manager is given: the device look-up, the default key,
  the CMAC primitive and the conversion of out-of-range floats.
\<close>

record manager =
  mgr_store :: store
  queues :: "string \<Rightarrow> write_queue option"
  mgr_order :: "string list"
  rrIndex :: nat
  maxRetry :: int
  notify_full :: bool
  stop_closed :: bool

definition NewPointWriteQueueManager :: "int \<Rightarrow> manager" where
  "NewPointWriteQueueManager retries = \<lparr>mgr_store = [], queues = (\<lambda>_. None), mgr_order = [], rrIndex = 0,
     maxRetry = retries, notify_full = False, stop_closed = False\<rparr>"

subsection \<open>Operations of the manager\<close>

definition manager_Stop :: "manager \<Rightarrow> manager" where
  "manager_Stop m = m\<lparr>stop_closed := True\<rparr>"

definition getOrCreateQueue :: "string \<Rightarrow> manager \<Rightarrow> write_queue \<times> manager" where
  "getOrCreateQueue deviceUUID m =
     (case queues m deviceUUID of
        Some queue \<Rightarrow> (queue, m)
      | None \<Rightarrow>
          (let queue = NewPointWriteQueue in
           (queue, m\<lparr>queues := (queues m)(deviceUUID \<mapsto> queue), mgr_order := mgr_order m @ [deviceUUID]\<rparr>)))"

definition put_queue :: "string \<Rightarrow> store \<times> write_queue \<Rightarrow> manager \<Rightarrow> manager" where
  "put_queue deviceUUID sq m = m\<lparr>mgr_store := fst sq, queues := (queues m)(deviceUUID \<mapsto> snd sq)\<rparr>"

definition wake :: "manager \<Rightarrow> manager" where
  "wake m = m\<lparr>notify_full := True\<rparr>"

definition append_point :: "point \<Rightarrow> write_queue \<Rightarrow> manager \<Rightarrow> manager" where
  "append_point pt queue m = put_queue (pt_DeviceUUID pt) (EnqueueWriteQueue pt (mgr_store m, queue)) m"

definition EnqueuePoint :: "point \<Rightarrow> manager \<Rightarrow> manager" where
  "EnqueuePoint pt m =
     (let (queue, m) = getOrCreateQueue (pt_DeviceUUID pt) m in wake (append_point pt queue m))"

definition manager_DequeueUsingMessageId :: "string \<Rightarrow> byte \<Rightarrow> manager \<Rightarrow> point option \<times> manager" where
  "manager_DequeueUsingMessageId deviceUUID messageId m =
     (case queues m deviceUUID of
        None \<Rightarrow> (None, m)
      | Some queue \<Rightarrow>
          (case dequeue (Some messageId) (mgr_store m, queue) of
             (None, sq) \<Rightarrow> (None, put_queue deviceUUID sq m)
           | (Some item, sq) \<Rightarrow> (Some (Point (fst sq ! item)), put_queue deviceUUID sq m)))"

text \<open>The loop of \<^verbatim>\<open>nextPending\<close> with \<open>k\<close> rounds left; a missing queue is a nil pointer panic.\<close>

fun next_loop :: "manager \<Rightarrow> nat \<Rightarrow> nat \<Rightarrow> ((string \<times> nat) option \<times> manager) option" where
  "next_loop m i 0 = Some (None, m)"
| "next_loop m i (Suc k) =
     (let idx = (rrIndex m + i) mod length (mgr_order m); deviceUUID = mgr_order m ! idx in
      case queues m deviceUUID of
        None \<Rightarrow> None
      | Some queue \<Rightarrow>
          (case Peek queue of
             Some item \<Rightarrow> Some (Some (deviceUUID, item), m\<lparr>rrIndex := idx + 1\<rparr>)
           | None \<Rightarrow> next_loop m (i + 1) k))"

definition nextPending :: "manager \<Rightarrow> ((string \<times> nat) option \<times> manager) option" where
  "nextPending m = next_loop m 0 (length (mgr_order m))"

definition queue_of :: "manager \<Rightarrow> string \<Rightarrow> write_queue" where
  "queue_of m deviceUUID = (case queues m deviceUUID of None \<Rightarrow> [] | Some q \<Rightarrow> q)"

text \<open>\<^verbatim>\<open>finishAttempt\<close> is two critical sections: the new attempt count decides whether the item is
  given up.  The result is the point for \<^verbatim>\<open>onWriteExhausted\<close>.\<close>

definition count_attempt :: "nat \<Rightarrow> manager \<Rightarrow> bool \<times> manager" where
  "count_attempt item m =
     (let (n, st) = IncRetry item (mgr_store m) in (n < maxRetry m, m\<lparr>mgr_store := st\<rparr>))"

definition give_up :: "string \<Rightarrow> nat \<Rightarrow> manager \<Rightarrow> point option \<times> manager" where
  "give_up deviceUUID item m =
     (case RemoveItem item (mgr_store m, queue_of m deviceUUID) of
        (False, sq) \<Rightarrow> (None, m)
      | (True, sq) \<Rightarrow> (Some (Point (fst sq ! item)), put_queue deviceUUID sq m))"

definition finishAttempt :: "string \<Rightarrow> nat \<Rightarrow> manager \<Rightarrow> point option \<times> manager" where
  "finishAttempt deviceUUID item m =
     (let (again, m) = count_attempt item m in if again then (None, m) else give_up deviceUUID item m)"

text \<open>A write that cannot be built is removed; nobody is told.\<close>

definition drop_item :: "string \<Rightarrow> nat \<Rightarrow> manager \<Rightarrow> manager" where
  "drop_item deviceUUID item m =
     (case RemoveItem item (mgr_store m, queue_of m deviceUUID) of
        (False, sq) \<Rightarrow> m
      | (True, sq) \<Rightarrow> put_queue deviceUUID sq m)"

subsection \<open>Building the frame\<close>

record sched_env =
  se_DefaultKey :: string
  se_mac :: cmac_fn
  se_oor :: "gofloat \<Rightarrow> int"
  se_getDevice :: "string \<Rightarrow> goerr + device"

fun call_EncodeRequestMessage :: "encode_fn \<Rightarrow> (gofloat \<Rightarrow> int) \<Rightarrow> point list \<Rightarrow> (goerr + byte list) option" where
  "call_EncodeRequestMessage EncodeRequestMessage_fn oor pts = EncodeRequestMessage oor pts"
| "call_EncodeRequestMessage NilEncodeRequestMessage_fn oor pts = Some NilLoRaDeviceDescriptionEncodeRequestMessage"

text \<open>\<open>messageID\<close> is the random id drawn for the frame; a nil encoder is called and panics.\<close>

definition prepareMessage :: "sched_env \<Rightarrow> byte \<Rightarrow> nat \<Rightarrow> store \<Rightarrow> (goerr + store) option" where
  "prepareMessage env messageID item st =
     (let pt = Point (st ! item) in
      case se_getDevice env (pt_DeviceUUID pt) of
        Inl err \<Rightarrow> Some (Inl (ErrWrap ''error getting device: '' err))
      | Inr dev \<Rightarrow>
          (case getEncryptionKey (se_DefaultKey env) dev of
             Inl err \<Rightarrow> Some (Inl (ErrWrap ''error extracting encryption key: '' err))
           | Inr encryptionKey \<Rightarrow> do {
               enc \<leftarrow> EncodeRequestMessage_of (deref_desc (GetDeviceDescription dev LoRaDeviceDescriptions));
               r \<leftarrow> call_EncodeRequestMessage enc (se_oor env) [pt];
               (case r of
                  Inl err \<Rightarrow> Some (Inl (ErrWrap ''error encoding request: '' err))
                | Inr payload \<Rightarrow> do {
                    r \<leftarrow> Encrypt (se_mac env) (case pt_AddressUUID pt of None \<Rightarrow> '''' | Some a \<Rightarrow> a)
                           payload encryptionKey LORARAW_OPTS_REQUEST messageID;
                    (case r of
                       Inl err \<Rightarrow> Some (Inl (ErrWrap ''error encrypting data: '' err))
                     | Inr completePacket \<Rightarrow> Some (Inr (SetMessage item messageID completePacket st))) }) }))"

subsection \<open>The scheduler as a transition system\<close>

text \<open>
  The position of the scheduler goroutine.  \<open>Scan i\<close> is the loop of \<^verbatim>\<open>nextPending\<close>, with the
  manager's mutex held; \<open>Failed\<close> and \<open>GivingUp\<close> are the two halves of \<^verbatim>\<open>finishAttempt\<close>, with a flag
  that tells whether the pause after a serial error follows.
\<close>

datatype pc =
    Top
  | Scan nat
  | WaitNotify
  | Chosen string nat
  | Ready string nat
  | Await string nat
  | Failed string nat bool
  | GivingUp string nat bool
  | Backoff
  | Ended
  | Panicked

text \<open>
  \<open>waking\<close> counts callers of \<^verbatim>\<open>EnqueuePoint\<close> between their append and their wake.  The last three
  components record what can be observed: the frames written to the radio, the writes given up
  (each is a call of \<^verbatim>\<open>onWriteExhausted\<close>) and the writes dropped without a call.
\<close>

record system =
  mgr :: manager
  pc_of :: pc
  waking :: nat
  air :: "(nat \<times> byte list) list"
  gave_up :: "nat list"
  dropped :: "nat list"

definition scan_index :: "manager \<Rightarrow> nat \<Rightarrow> nat" where
  "scan_index m i = (rrIndex m + i) mod length (mgr_order m)"

definition scan_device :: "manager \<Rightarrow> nat \<Rightarrow> string" where
  "scan_device m i = mgr_order m ! scan_index m i"

definition after_attempt :: "bool \<Rightarrow> pc" where
  "after_attempt pause = (if pause then Backoff else Top)"

definition item_at :: "system \<Rightarrow> nat \<Rightarrow> pending_write" where
  "item_at s item = mgr_store (mgr s) ! item"

inductive sched_step :: "sched_env \<Rightarrow> system \<Rightarrow> system \<Rightarrow> bool" for env where
  create: "(\<forall>i. pc_of s \<noteq> Scan i) \<Longrightarrow>
     sched_step env s (s\<lparr>mgr := snd (getOrCreateQueue dev (mgr s))\<rparr>)"
| append: "queues (mgr s) (pt_DeviceUUID pt) = Some q \<Longrightarrow>
     sched_step env s (s\<lparr>mgr := append_point pt q (mgr s), waking := waking s + 1\<rparr>)"
| wakes: "waking s = Suc k \<Longrightarrow> sched_step env s (s\<lparr>mgr := wake (mgr s), waking := k\<rparr>)"
| response: "manager_DequeueUsingMessageId dev messageId (mgr s) = (r, m) \<Longrightarrow>
     sched_step env s (s\<lparr>mgr := m\<rparr>)"
| stops: "sched_step env s (s\<lparr>mgr := manager_Stop (mgr s)\<rparr>)"
| scan_start: "pc_of s = Top \<Longrightarrow> sched_step env s (s\<lparr>pc_of := Scan 0\<rparr>)"
| scan_hit: "\<lbrakk>pc_of s = Scan i; i < length (mgr_order (mgr s)); queues (mgr s) (scan_device (mgr s) i) = Some q;
     Peek q = Some item\<rbrakk> \<Longrightarrow>
     sched_step env s (s\<lparr>mgr := (mgr s)\<lparr>rrIndex := scan_index (mgr s) i + 1\<rparr>,
       pc_of := Chosen (scan_device (mgr s) i) item\<rparr>)"
| scan_miss: "\<lbrakk>pc_of s = Scan i; i < length (mgr_order (mgr s)); queues (mgr s) (scan_device (mgr s) i) = Some q;
     Peek q = None\<rbrakk> \<Longrightarrow> sched_step env s (s\<lparr>pc_of := Scan (i + 1)\<rparr>)"
| scan_panic: "\<lbrakk>pc_of s = Scan i; i < length (mgr_order (mgr s)); queues (mgr s) (scan_device (mgr s) i) = None\<rbrakk> \<Longrightarrow>
     sched_step env s (s\<lparr>pc_of := Panicked\<rparr>)"
| scan_end: "\<lbrakk>pc_of s = Scan i; length (mgr_order (mgr s)) \<le> i\<rbrakk> \<Longrightarrow>
     sched_step env s (s\<lparr>pc_of := WaitNotify\<rparr>)"
| notified: "\<lbrakk>pc_of s = WaitNotify; notify_full (mgr s)\<rbrakk> \<Longrightarrow>
     sched_step env s (s\<lparr>mgr := (mgr s)\<lparr>notify_full := False\<rparr>, pc_of := Top\<rparr>)"
| wait_stop: "\<lbrakk>pc_of s = WaitNotify; stop_closed (mgr s)\<rbrakk> \<Longrightarrow> sched_step env s (s\<lparr>pc_of := Ended\<rparr>)"
| chosen_stop: "\<lbrakk>pc_of s = Chosen dev item; stop_closed (mgr s)\<rbrakk> \<Longrightarrow> sched_step env s (s\<lparr>pc_of := Ended\<rparr>)"
| again: "\<lbrakk>pc_of s = Chosen dev item; \<not> stop_closed (mgr s); Message (item_at s item) \<noteq> None\<rbrakk> \<Longrightarrow>
     sched_step env s (s\<lparr>pc_of := Ready dev item\<rparr>)"
| prepared: "\<lbrakk>pc_of s = Chosen dev item; \<not> stop_closed (mgr s); Message (item_at s item) = None;
     prepareMessage env messageID item (mgr_store (mgr s)) = Some (Inr st)\<rbrakk> \<Longrightarrow>
     sched_step env s (s\<lparr>mgr := (mgr s)\<lparr>mgr_store := st\<rparr>, pc_of := Ready dev item\<rparr>)"
| undeliverable: "\<lbrakk>pc_of s = Chosen dev item; \<not> stop_closed (mgr s); Message (item_at s item) = None;
     prepareMessage env messageID item (mgr_store (mgr s)) = Some (Inl err)\<rbrakk> \<Longrightarrow>
     sched_step env s (s\<lparr>mgr := drop_item dev item (mgr s), pc_of := Top, dropped := dropped s @ [item]\<rparr>)"
| prepare_panic: "\<lbrakk>pc_of s = Chosen dev item; \<not> stop_closed (mgr s); Message (item_at s item) = None;
     prepareMessage env messageID item (mgr_store (mgr s)) = None\<rbrakk> \<Longrightarrow>
     sched_step env s (s\<lparr>pc_of := Panicked\<rparr>)"
| sent: "\<lbrakk>pc_of s = Ready dev item; Message (item_at s item) = Some frame\<rbrakk> \<Longrightarrow>
     sched_step env s (s\<lparr>pc_of := Await dev item, air := air s @ [(item, frame)]\<rparr>)"
| serial_error: "pc_of s = Ready dev item \<Longrightarrow> sched_step env s (s\<lparr>pc_of := Failed dev item True\<rparr>)"
| finished: "\<lbrakk>pc_of s = Await dev item; done_closed (item_at s item)\<rbrakk> \<Longrightarrow>
     sched_step env s (s\<lparr>pc_of := Top\<rparr>)"
| timeout: "pc_of s = Await dev item \<Longrightarrow> sched_step env s (s\<lparr>pc_of := Failed dev item False\<rparr>)"
| await_stop: "\<lbrakk>pc_of s = Await dev item; stop_closed (mgr s)\<rbrakk> \<Longrightarrow> sched_step env s (s\<lparr>pc_of := Ended\<rparr>)"
| counted: "\<lbrakk>pc_of s = Failed dev item pause; count_attempt item (mgr s) = (retry, m)\<rbrakk> \<Longrightarrow>
     sched_step env s (s\<lparr>mgr := m, pc_of := (if retry then after_attempt pause else GivingUp dev item pause)\<rparr>)"
| exhausted: "\<lbrakk>pc_of s = GivingUp dev item pause; give_up dev item (mgr s) = (Some pt, m)\<rbrakk> \<Longrightarrow>
     sched_step env s (s\<lparr>mgr := m, pc_of := after_attempt pause, gave_up := gave_up s @ [item]\<rparr>)"
| overtaken: "\<lbrakk>pc_of s = GivingUp dev item pause; give_up dev item (mgr s) = (None, m)\<rbrakk> \<Longrightarrow>
     sched_step env s (s\<lparr>mgr := m, pc_of := after_attempt pause\<rparr>)"
| backoff_done: "pc_of s = Backoff \<Longrightarrow> sched_step env s (s\<lparr>pc_of := Top\<rparr>)"

definition start :: "int \<Rightarrow> system" where
  "start retries = \<lparr>mgr = NewPointWriteQueueManager retries, pc_of = Top, waking = 0, air = [], gave_up = [], dropped = []\<rparr>"

text \<open>The states that can occur.\<close>

definition reachable :: "sched_env \<Rightarrow> int \<Rightarrow> system \<Rightarrow> bool" where
  "reachable env retries s \<longleftrightarrow> (sched_step env)\<^sup>*\<^sup>* (start retries) s"

end
