(* ===== verification/Mqtt_Client.thy ===== *)
theory Mqtt_Client
  imports Go_Float
begin

text \<open>
  mqtt.go: the wrapper of the MQTT library's client.  The library's client is what it can be asked,
  whether its connection is open, and the messages handed to it.  A decoded value is published as
  JSON, which has no form for infinities and NaN: marshalling a map with such a value fails.
\<close>

record mqtt_message =
  msg_topic :: string
  msg_retained :: bool
  msg_payload :: "string + (string \<times> string \<times> (string \<rightharpoonup> gofloat))"

text \<open>The options handed to the library, which connects, retries and reconnects by them (times in seconds).\<close>

record mqtt_options =
  opt_Broker :: string
  opt_ClientID :: string
  opt_Credentials :: "(string \<times> string) option"
  opt_AutoReconnect :: bool
  opt_ConnectRetry :: bool
  opt_ConnectRetryInterval :: nat
  opt_MaxReconnectInterval :: nat
  opt_KeepAlive :: nat
  opt_PingTimeout :: nat
  opt_CleanSession :: bool
  opt_OrderMatters :: bool
  opt_Will :: mqtt_message

record mqtt_client =
  topicPrefix :: string
  statusTopic :: string
  client_options :: mqtt_options
  connection_open :: bool
  published :: "mqtt_message list"

abbreviation (input) MQTTTopicPrefix :: string where "MQTTTopicPrefix \<equiv> ''module-core-loraraw''"

definition is_space :: "char \<Rightarrow> bool" where
  "is_space c \<longleftrightarrow> of_char c \<in> {9 :: nat, 10, 11, 12, 13, 32}"

definition TrimSpace :: "string \<Rightarrow> string" where
  "TrimSpace s = rev (dropWhile is_space (rev (dropWhile is_space s)))"

definition lower_char :: "char \<Rightarrow> char" where
  "lower_char c = (let n = of_char c :: nat in if 65 \<le> n \<and> n \<le> 90 then char_of (n + 32) else c)"

definition to_lower :: "string \<Rightarrow> string" where
  "to_lower s = map lower_char s"

definition normalizeBroker :: "string \<Rightarrow> string" where
  "normalizeBroker b =
     (let b = TrimSpace b in
      if b = '''' then ''''
      else if take 6 (to_lower b) = ''tcp://'' then b
      else ''tcp://'' @ b)"

definition NewMQTTClient :: "string \<Rightarrow> string \<Rightarrow> string \<Rightarrow> string \<Rightarrow> string \<Rightarrow> mqtt_client option" where
  "NewMQTTClient broker clientID username password prefix =
     (let broker = normalizeBroker broker in
      if broker = '''' then None
      else
        (let prefix = (if prefix = '''' then MQTTTopicPrefix else prefix);
             clientID = (if clientID = '''' then MQTTTopicPrefix else clientID);
             status = prefix @ ''/status'' in
         Some \<lparr>topicPrefix = prefix, statusTopic = status,
               client_options =
                 \<lparr>opt_Broker = broker, opt_ClientID = clientID,
                  opt_Credentials = (if username \<noteq> '''' then Some (username, password) else None),
                  opt_AutoReconnect = True, opt_ConnectRetry = True, opt_ConnectRetryInterval = 5,
                  opt_MaxReconnectInterval = 30, opt_KeepAlive = 30, opt_PingTimeout = 10,
                  opt_CleanSession = True, opt_OrderMatters = False,
                  opt_Will = \<lparr>msg_topic = status, msg_retained = True, msg_payload = Inl ''offline''\<rparr>\<rparr>,
               connection_open = False, published = []\<rparr>))"

text \<open>The handler of a (re)connection announces the module.\<close>

definition onConnect :: "mqtt_client \<Rightarrow> mqtt_client" where
  "onConnect c = c\<lparr>connection_open := True,
     published := published c @ [\<lparr>msg_topic = statusTopic c, msg_retained = True, msg_payload = Inl ''online''\<rparr>]\<rparr>"

text \<open>The handler of a lost connection only logs; the library has closed the connection.\<close>

definition onConnectionLost :: "mqtt_client \<Rightarrow> mqtt_client" where
  "onConnectionLost c = c\<lparr>connection_open := False\<rparr>"

definition finite_float :: "gofloat \<Rightarrow> bool" where
  "finite_float v \<longleftrightarrow> v \<noteq> NaN \<and> (\<forall>neg. v \<noteq> Inf neg)"

text \<open>Whether \<^verbatim>\<open>json.Marshal\<close> accepts the payload.\<close>

definition marshals :: "string + (string \<times> string \<times> (string \<rightharpoonup> gofloat)) \<Rightarrow> bool" where
  "marshals payload =
     (case payload of Inl _ \<Rightarrow> True | Inr (_, _, values) \<Rightarrow> \<forall>v \<in> ran values. finite_float v)"

definition publish :: "mqtt_client \<Rightarrow> string \<Rightarrow> string + (string \<times> string \<times> (string \<rightharpoonup> gofloat)) \<Rightarrow> mqtt_client" where
  "publish c topic payload =
     (if \<not> connection_open c then c
      else if \<not> marshals payload then c
      else c\<lparr>published := published c @ [\<lparr>msg_topic = topic, msg_retained = False, msg_payload = payload\<rparr>]\<rparr>)"

text \<open>A nil client publishes nothing.\<close>

definition PublishRaw :: "string \<Rightarrow> mqtt_client option \<Rightarrow> mqtt_client option" where
  "PublishRaw raw c = map_option (\<lambda>c. publish c (topicPrefix c @ ''/raw'') (Inl raw)) c"

definition PublishValues :: "string \<Rightarrow> string \<Rightarrow> (string \<rightharpoonup> gofloat) \<Rightarrow> mqtt_client option \<Rightarrow> mqtt_client option" where
  "PublishValues addressUUID deviceName values c =
     (if values = Map.empty then c
      else map_option (\<lambda>c. publish c (topicPrefix c @ ''/value'') (Inr (addressUUID, deviceName, values))) c)"

definition Disconnect :: "mqtt_client option \<Rightarrow> mqtt_client option" where
  "Disconnect c =
     map_option (\<lambda>c.
       let c = (if connection_open c
                then c\<lparr>published := published c @ [\<lparr>msg_topic = statusTopic c, msg_retained = True, msg_payload = Inl ''offline''\<rparr>]\<rparr>
                else c)
       in c\<lparr>connection_open := False\<rparr>) c"

subsection \<open>Lemmas\<close>

lemma dropWhile_id: "(xs = [] \<or> \<not> P (hd xs)) \<Longrightarrow> dropWhile P xs = xs"
  by (cases xs) auto

lemma TrimSpace_idem: "TrimSpace (TrimSpace s) = TrimSpace s"
proof -
  define t where "t = dropWhile is_space s"
  define u where "u = rev (dropWhile is_space (rev t))"
  have t: "t = [] \<or> \<not> is_space (hd t)" unfolding t_def using hd_dropWhile [of is_space s] by blast
  have u: "rev u = dropWhile is_space (rev t)" by (simp add: u_def)
  have "u = [] \<or> \<not> is_space (hd u)"
  proof (cases "u = []")
    case False
    have "\<exists>w. t = u @ w"
      using takeWhile_dropWhile_id [of is_space "rev t"] unfolding u_def by (metis rev_append rev_rev_ident)
    then have "hd u = hd t" "t \<noteq> []" using False by auto
    then show ?thesis using t by simp
  qed simp
  then have "dropWhile is_space u = u" by (rule dropWhile_id)
  moreover have "dropWhile is_space (rev u) = rev u"
    unfolding u by (rule dropWhile_id) (use hd_dropWhile in blast)
  ultimately show ?thesis by (simp add: TrimSpace_def t_def u_def)
qed

lemma TrimSpace_append:
  assumes "TrimSpace b = b" "b \<noteq> []" "\<not> is_space c"
  shows "TrimSpace ((c # cs) @ b) = (c # cs) @ b"
proof -
  have "rev b = dropWhile is_space (rev (dropWhile is_space b))" using assms(1) by (simp add: TrimSpace_def rev_swap)
  then have "\<not> is_space (hd (rev b))" using assms(2) hd_dropWhile [of is_space "rev (dropWhile is_space b)"]
    by (metis Nil_is_rev_conv)
  then have "dropWhile is_space (rev b @ xs) = rev b @ xs" for xs
    using assms(2) by (intro dropWhile_id) (simp add: hd_append)
  then show ?thesis using assms(3) by (simp add: TrimSpace_def rev_swap)
qed

lemma normalizeBroker_idem: "normalizeBroker (normalizeBroker b) = normalizeBroker b"
proof -
  have sp: "\<not> is_space (CHR ''t'')" "lower_char (CHR ''t'') = CHR ''t''" by (simp_all add: is_space_def lower_char_def)
  let ?t = "TrimSpace b"
  have "TrimSpace (''tcp://'' @ ?t) = ''tcp://'' @ ?t" if "?t \<noteq> []"
    using TrimSpace_append [OF TrimSpace_idem that sp(1), of "''cp://''"] by simp
  moreover have "take 6 (to_lower (''tcp://'' @ ?t)) = ''tcp://''"
    by (simp add: to_lower_def lower_char_def)
  ultimately show ?thesis
    by (auto simp: normalizeBroker_def Let_def TrimSpace_idem TrimSpace_def [of "[]"])
qed

end
