(* ===== verification/Point_Store.thy ===== *)
theory Point_Store
  imports Device_Registry Write_Scheduler Mqtt_Client
begin

text \<open>
  The module's view of the data base (the gRPC marshaller, a library outside the repository, whose
  calls are the fields of \<open>grpc\<close> acting on an arbitrary state \<open>'g\<close>), the state of the module, and
  the operations of app.go that create and change networks, devices and points, with the helpers
  of utils.go they use.  A call that returns a nil device together with an error is \<open>Inl\<close>.
  A message is the error value it is made from, \<open>None\<close> the empty one.
\<close>

record point_writer =
  pw_OriginalValue :: "gofloat option"
  pw_Priority :: "(string \<times> gofloat) list option"
  pw_Message :: "goerr option"
  pw_Fault :: bool
  pw_PollState :: point_state
  pw_IgnorePresentValueUpdate :: bool

definition zero_writer :: point_writer where
  "zero_writer = \<lparr>pw_OriginalValue = None, pw_Priority = None, pw_Message = None, pw_Fault = False,
     pw_PollState = PointStateNone, pw_IgnorePresentValueUpdate = False\<rparr>"

record network =
  net_UUID :: string
  net_PluginName :: string
  net_TransportType :: string
  net_SerialPort :: "string option"
  net_SerialBaudRate :: "nat option"
  net_Devices :: "device list"

record fault =
  InFault :: bool
  fault_Message :: "goerr option"

datatype message_level = MessageLevelInfo | MessageLevelWarning | MessageLevelFail

type_synonym ('g, 'r) call = "'g \<Rightarrow> (goerr + 'r) \<times> 'g"

record 'g grpc =
  g_GetNetworksByPluginName :: "string \<Rightarrow> 'g \<Rightarrow> goerr + network list"
  g_GetNetwork :: "string \<Rightarrow> 'g \<Rightarrow> goerr + network"
  g_GetDevice :: "string \<Rightarrow> 'g \<Rightarrow> goerr + device"
  g_GetOneDeviceByArgs :: "string option \<Rightarrow> 'g \<Rightarrow> goerr + device"
  g_CreateNetwork :: "network \<Rightarrow> ('g, network) call"
  g_CreateDevice :: "device \<Rightarrow> ('g, device) call"
  g_DeleteDevice :: "string \<Rightarrow> 'g \<Rightarrow> goerr option \<times> 'g"
  g_UpdateNetwork :: "string \<Rightarrow> network option \<Rightarrow> ('g, network) call"
  g_DeleteNetwork :: "string \<Rightarrow> 'g \<Rightarrow> goerr option \<times> 'g"
  g_UpdateDevice :: "string \<Rightarrow> device option \<Rightarrow> ('g, device) call"
  g_DeletePoint :: "string \<Rightarrow> 'g \<Rightarrow> goerr option \<times> 'g"
  g_CreatePoint :: "point \<Rightarrow> ('g, point) call"
  g_UpdatePoint :: "string \<Rightarrow> point \<Rightarrow> ('g, point) call"
  g_PointWrite :: "string \<Rightarrow> point_writer \<Rightarrow> ('g, point) call"
  g_UpdateDeviceFault :: "string \<Rightarrow> fault \<Rightarrow> 'g \<Rightarrow> 'g"
  g_UpdateNetworkFault :: "string \<Rightarrow> fault \<Rightarrow> 'g \<Rightarrow> 'g"
  g_UpdatePluginMessage :: "string \<Rightarrow> message_level \<Rightarrow> goerr option \<Rightarrow> 'g \<Rightarrow> goerr option \<times> 'g"
  g_UpsertDeviceMetaTags :: "string \<Rightarrow> meta_tag list \<Rightarrow> 'g \<Rightarrow> goerr option \<times> 'g"

text \<open>What stays fixed while the module runs: its name and configured key, the marshaller, and the
  library functions it calls (title case, the thermistor table, the CMAC primitive).\<close>

record 'g module_env =
  me_moduleName :: string
  me_DefaultKey :: string
  me_WriteQueueMaxRetries :: int
  me_grpc :: "'g grpc"
  me_Title :: "string \<Rightarrow> string"
  me_ResistanceToTemperature :: "gofloat \<Rightarrow> gofloat"
  me_mac :: cmac_fn
  me_oor :: "gofloat \<Rightarrow> int"
  me_order :: map_order

subsection \<open>utils.go\<close>

definition IsWriteable :: "write_mode \<Rightarrow> bool" where
  "IsWriteable writeMode =
     (case writeMode of
        ReadOnce \<Rightarrow> False | ReadOnly \<Rightarrow> False
      | WriteOnce \<Rightarrow> True | WriteOnceReadOnce \<Rightarrow> True | WriteAlways \<Rightarrow> True
      | WriteOnceThenRead \<Rightarrow> True | WriteAndMaintain \<Rightarrow> True
      | OtherWriteMode _ \<Rightarrow> False)"

definition ResetWriteableProperties :: "point \<Rightarrow> point" where
  "ResetWriteableProperties pt = pt\<lparr>pt_WriteValueOriginal := None, pt_WriteValue := None, pt_WritePriority := None,
     pt_CurrentPriority := None, pt_EnableWriteable := Some False, pt_WritePollRequired := Some False\<rparr>"

definition SafeDereferenceUint8 :: "int option \<Rightarrow> goerr + byte" where
  "SafeDereferenceUint8 ptr =
     (case ptr of
        None \<Rightarrow> Inl (ErrMsg ''attempting to dereference a nil uint8 pointer'')
      | Some v \<Rightarrow> Inr (word_of_int v))"

text \<open>Struct fields, by their name and the value of their \<^verbatim>\<open>json\<close> tag (empty when it is missing).  A field
  that is not found is a panic.\<close>

definition GetReflectFieldJSONName :: "string \<times> string \<Rightarrow> string" where
  "GetReflectFieldJSONName field =
     (case field of (fieldName, jsonTag) \<Rightarrow>
        if jsonTag = ''-'' \<or> jsonTag = '''' then fieldName
        else (let name = hd (split_on (CHR '','') jsonTag) in if name = '''' then fieldName else name))"

definition GetStructFieldJSONNameByName :: "(string \<times> string) list \<Rightarrow> string \<Rightarrow> string option" where
  "GetStructFieldJSONNameByName fs name =
     map_option GetReflectFieldJSONName (find (\<lambda>field. fst field = name) fs)"

subsection \<open>Networks and devices\<close>

text \<open>The network that is created; the run loop is started with it.\<close>

definition addNetwork :: "'g module_env \<Rightarrow> network \<Rightarrow> ('g, network) call" where
  "addNetwork env body g =
     (case g_GetNetworksByPluginName (me_grpc env) (net_PluginName body) g of
        Inl err \<Rightarrow> (Inl err, g)
      | Inr nets \<Rightarrow>
          if nets \<noteq> [] then (Inl (ErrMsg (''only max one network is allowed with '' @ me_moduleName env)), g)
          else
            (let body = body\<lparr>net_TransportType := ''serial''\<rparr>;
                 body = (if net_SerialBaudRate body = None \<or> net_SerialBaudRate body = Some 0
                         then body\<lparr>net_SerialBaudRate := Some 38400\<rparr> else body)
             in g_CreateNetwork (me_grpc env) body g))"

subsection \<open>Points\<close>

text \<open>The writeable properties of a point body, for \<^verbatim>\<open>addPoint\<close> and \<^verbatim>\<open>updatePoint\<close>.\<close>

definition with_write_mode :: "'g module_env \<Rightarrow> point \<Rightarrow> 'g \<Rightarrow> goerr + point" where
  "with_write_mode env body g =
     (if IsWriteable (pt_WriteMode body)
      then case g_GetDevice (me_grpc env) (pt_DeviceUUID body) g of
             Inl err \<Rightarrow> Inl err
           | Inr dev \<Rightarrow> Inr (body\<lparr>pt_AddressUUID := dev_AddressUUID dev, pt_EnableWriteable := Some True,
                                pt_WritePollRequired := Some True\<rparr>)
      else Inr (ResetWriteableProperties body))"

definition addPoint :: "'g module_env \<Rightarrow> point \<Rightarrow> ('g, point) call" where
  "addPoint env body g =
     (let body = body\<lparr>pt_ObjectType := ''analog_input'', pt_IoType := IOTypeRAW, pt_Name := to_lower (pt_Name body)\<rparr> in
      case with_write_mode env body g of
        Inl err \<Rightarrow> (Inl err, g)
      | Inr body \<Rightarrow> g_CreatePoint (me_grpc env) body g)"

definition updatePoint :: "'g module_env \<Rightarrow> string \<Rightarrow> point \<Rightarrow> ('g, point) call" where
  "updatePoint env uuid body g =
     (case with_write_mode env body g of
        Inl err \<Rightarrow> (Inl err, g)
      | Inr body \<Rightarrow> g_UpdatePoint (me_grpc env) uuid body g)"

definition deletePoint :: "point \<Rightarrow> bool \<times> goerr option" where
  "deletePoint pt = (False, None)"

definition writePoint :: "'g module_env \<Rightarrow> string \<Rightarrow> point_writer \<Rightarrow> ('g, point) call" where
  "writePoint env pointUUID body g =
     g_PointWrite (me_grpc env) pointUUID
       (body\<lparr>pw_IgnorePresentValueUpdate := True, pw_PollState := PointStateApiWritePending\<rparr>) g"

definition setNewPointFields :: "'g module_env \<Rightarrow> device \<Rightarrow> point \<Rightarrow> string \<Rightarrow> point" where
  "setNewPointFields env deviceBody pointBody pointIDStr = pointBody\<lparr>
     pt_Enable := Some True, pt_DeviceUUID := dev_UUID deviceBody, pt_AddressUUID := dev_AddressUUID deviceBody,
     pt_IsOutput := Some False, pt_Name := me_Title env pointIDStr, pt_IoNumber := pointIDStr,
     pt_ThingType := ''point'', pt_WriteMode := ReadOnly, pt_DataType := fst (GetMetaDataKey pointIDStr)\<rparr>"

definition setUARTCommonHistory :: "point \<Rightarrow> point" where
  "setUARTCommonHistory pt = pt\<lparr>pt_HistoryEnable := Some True, pt_HistoryType := HistoryTypeInterval,
     pt_HistoryInterval := Some 15\<rparr>"

text \<open>The goroutines of \<^verbatim>\<open>savePoints\<close> run in some order; their errors are logged.\<close>

definition savePoints :: "'g module_env \<Rightarrow> (point list \<Rightarrow> point list) \<Rightarrow> point list \<Rightarrow> 'g \<Rightarrow> 'g" where
  "savePoints env schedule points g =
     fold (\<lambda>pt g. snd (addPoint env (pt\<lparr>pt_EnableWriteable := Some False\<rparr>) g)) (schedule points) g"

definition new_point :: "'g module_env \<Rightarrow> device \<Rightarrow> string \<Rightarrow> point" where
  "new_point env deviceBody name =
     (let pt = setNewPointFields env deviceBody zero_point name;
          pt = (if dev_Model deviceBody = DeviceModelUART \<and> (name = RssiField \<or> name = SnrField)
                then setUARTCommonHistory pt else pt)
      in pt\<lparr>pt_EnableWriteable := Some False\<rparr>)"

definition addPointsFromName ::
  "'g module_env \<Rightarrow> (point list \<Rightarrow> point list) \<Rightarrow> device \<Rightarrow> string list \<Rightarrow> 'g \<Rightarrow> 'g" where
  "addPointsFromName env schedule deviceBody names g =
     savePoints env schedule (map (new_point env deviceBody) names) g"

text \<open>
  \<^verbatim>\<open>addPointsFromStruct\<close> walks a value by reflection: a struct is the list of its fields with their names
  and tags and a flag for \<^verbatim>\<open>CommonValues\<close>, arrays and slices are lists, and everything else is a leaf.  The
  points of a nested struct are saved before those of the struct around it.  Only a struct has fields:
  the result \<open>None\<close> is the panic of \<^verbatim>\<open>NumField\<close> on an element that is not one.
\<close>

datatype refl_value =
    ReflStruct bool "(string \<times> string \<times> refl_value) list"
  | ReflList "refl_value list"
  | ReflLeaf

definition struct_point :: "'g module_env \<Rightarrow> device \<Rightarrow> string \<Rightarrow> string \<Rightarrow> string \<Rightarrow> point" where
  "struct_point env deviceBody fieldName jsonTag postfix =
     (let pointName = GetReflectFieldJSONName (fieldName, jsonTag);
          pointName = (if postfix \<noteq> '''' then pointName @ postfix else pointName)
      in (setNewPointFields env deviceBody zero_point pointName)\<lparr>pt_EnableWriteable := Some False\<rparr>)"

fun addPointsFromStruct ::
      "'g module_env \<Rightarrow> (point list \<Rightarrow> point list) \<Rightarrow> device \<Rightarrow> refl_value \<Rightarrow> string \<Rightarrow> 'g \<Rightarrow> 'g option"
  and add_struct_fields ::
      "'g module_env \<Rightarrow> (point list \<Rightarrow> point list) \<Rightarrow> device \<Rightarrow> (string \<times> string \<times> refl_value) list \<Rightarrow> string
        \<Rightarrow> point list \<Rightarrow> 'g \<Rightarrow> 'g option"
  and add_struct_elements ::
      "'g module_env \<Rightarrow> (point list \<Rightarrow> point list) \<Rightarrow> device \<Rightarrow> refl_value list \<Rightarrow> string \<Rightarrow> nat \<Rightarrow> 'g \<Rightarrow> 'g option"
where
  "addPointsFromStruct env schedule deviceBody (ReflStruct common fs) postfix g =
     add_struct_fields env schedule deviceBody fs postfix [] g"
| "addPointsFromStruct env schedule deviceBody (ReflList vs) postfix g = None"
| "addPointsFromStruct env schedule deviceBody ReflLeaf postfix g = None"
| "add_struct_fields env schedule deviceBody [] postfix points g = Some (savePoints env schedule points g)"
| "add_struct_fields env schedule deviceBody ((fieldName, jsonTag, ReflStruct common fs) # rest) postfix points g =
     (if common then add_struct_fields env schedule deviceBody rest postfix points g
      else (case addPointsFromStruct env schedule deviceBody (ReflStruct common fs) postfix g of
              None \<Rightarrow> None
            | Some g \<Rightarrow> add_struct_fields env schedule deviceBody rest postfix points g))"
| "add_struct_fields env schedule deviceBody ((fieldName, jsonTag, ReflList vs) # rest) postfix points g =
     (case add_struct_elements env schedule deviceBody vs postfix 0 g of
        None \<Rightarrow> None
      | Some g \<Rightarrow> add_struct_fields env schedule deviceBody rest postfix points g)"
| "add_struct_fields env schedule deviceBody ((fieldName, jsonTag, ReflLeaf) # rest) postfix points g =
     add_struct_fields env schedule deviceBody rest postfix
       (points @ [struct_point env deviceBody fieldName jsonTag postfix]) g"
| "add_struct_elements env schedule deviceBody [] postfix j g = Some g"
| "add_struct_elements env schedule deviceBody (v # vs) postfix j g =
     (case addPointsFromStruct env schedule deviceBody v (postfix @ ''_'' @ itoa (int (j + 1))) g of
        None \<Rightarrow> None
      | Some g \<Rightarrow> add_struct_elements env schedule deviceBody vs postfix (j + 1) g)"

text \<open>\<open>None\<close> is the call of a nil \<^verbatim>\<open>GetPointNames\<close>; no registered description leaves it out.\<close>

definition addDevicePoints ::
  "'g module_env \<Rightarrow> (point list \<Rightarrow> point list) \<Rightarrow> device \<Rightarrow> 'g \<Rightarrow> (goerr option \<times> 'g) option" where
  "addDevicePoints env schedule deviceBody g =
     (case g_GetNetwork (me_grpc env) (dev_NetworkUUID deviceBody) g of
        Inl err \<Rightarrow> Some (Some err, g)
      | Inr network \<Rightarrow>
          if net_PluginName network \<noteq> me_moduleName env
          then Some (Some (ErrMsg (''incorrect network plugin type, must be '' @ me_moduleName env)), g)
          else do {
            points \<leftarrow> GetDevicePointNames deviceBody LoRaDeviceDescriptions;
            if points = []
            then Some (Some (ErrMsg ''addDevicePoints() no device description or points found for this device''), g)
            else Some (None, addPointsFromName env schedule deviceBody points g) })"

text \<open>A nil address matches any device in the look-up; formatting it in the error message panics.\<close>

definition addDevice ::
  "'g module_env \<Rightarrow> (point list \<Rightarrow> point list) \<Rightarrow> device \<Rightarrow> bool \<Rightarrow> 'g \<Rightarrow> ((goerr + device) \<times> 'g) option" where
  "addDevice env schedule body withPoints g =
     (let body = body\<lparr>dev_AddressUUID := map_option to_upper (dev_AddressUUID body)\<rparr> in
      case g_GetOneDeviceByArgs (me_grpc env) (dev_AddressUUID body) g of
        Inr device \<Rightarrow> do {
          address \<leftarrow> dev_AddressUUID body;
          Some (Inl (ErrMsg (''the lora ID (address_uuid) must be unique: '' @ address)), g) }
      | Inl _ \<Rightarrow>
          (case g_CreateDevice (me_grpc env) body g of
             (Inl err, g) \<Rightarrow> Some (Inl err, g)
           | (Inr device, g) \<Rightarrow>
               if withPoints then do {
                 (err, g) \<leftarrow> addDevicePoints env schedule device g;
                 (case err of
                    Some err \<Rightarrow> Some (Inl err, snd (g_DeleteDevice (me_grpc env) (dev_UUID device) g))
                  | None \<Rightarrow> Some (Inr device, g)) }
               else Some (Inr device, g)))"

text \<open>The loop over the points of the device: it stops at the first error.\<close>

fun update_addresses :: "'g module_env \<Rightarrow> string option \<Rightarrow> point list \<Rightarrow> 'g \<Rightarrow> goerr option \<times> 'g" where
  "update_addresses env address [] g = (None, g)"
| "update_addresses env address (pt # pts) g =
     (let pt = pt\<lparr>pt_AddressUUID := address\<rparr>;
          pt = (if IsWriteable (pt_WriteMode pt) then pt\<lparr>pt_EnableWriteable := Some True, pt_WritePollRequired := Some True\<rparr>
                else ResetWriteableProperties pt)
      in case g_UpdatePoint (me_grpc env) (pt_UUID pt) pt g of
           (Inl err, g) \<Rightarrow> (Some err, g)
         | (Inr _, g) \<Rightarrow> update_addresses env address pts g)"

definition updateDevicePointsAddress :: "'g module_env \<Rightarrow> device \<Rightarrow> 'g \<Rightarrow> goerr option \<times> 'g" where
  "updateDevicePointsAddress env body g =
     (case g_GetDevice (me_grpc env) (dev_UUID body) g of
        Inl err \<Rightarrow> (Some err, g)
      | Inr dev \<Rightarrow> update_addresses env (dev_AddressUUID body) (dev_Points dev) g)"

definition updatePluginMessage :: "'g module_env \<Rightarrow> message_level \<Rightarrow> goerr option \<Rightarrow> 'g \<Rightarrow> goerr option \<times> 'g" where
  "updatePluginMessage env messageLevel message g =
     g_UpdatePluginMessage (me_grpc env) (me_moduleName env) messageLevel message g"

definition module_getDevice :: "'g module_env \<Rightarrow> string \<Rightarrow> 'g \<Rightarrow> goerr + device" where
  "module_getDevice env uuid g = g_GetDevice (me_grpc env) uuid g"

definition getDeviceByLoRaAddress :: "'g module_env \<Rightarrow> string \<Rightarrow> 'g \<Rightarrow> device option" where
  "getDeviceByLoRaAddress env address g =
     (case g_GetOneDeviceByArgs (me_grpc env) (Some address) g of Inl _ \<Rightarrow> None | Inr device \<Rightarrow> Some device)"

end
