(* ===== verification/Transitions.thy ===== *)
theory Transitions
  imports Main
begin

text \<open>
  Invariants of transition systems: what holds at the start and is kept by every step from a
  reachable state holds in every reachable state.  The step may use invariants proved before, since
  it starts from a reachable state.  And runs of bounded length: a rank that no step raises and that
  every step of a kind lowers bounds the number of steps of that kind.
\<close>

locale inductive_invariant =
  fixes step :: "'s \<Rightarrow> 's \<Rightarrow> bool" and init :: "'s \<Rightarrow> bool" and inv :: "'s \<Rightarrow> bool"
  assumes base: "init s \<Longrightarrow> inv s"
    and step: "init s\<^sub>0 \<Longrightarrow> step\<^sup>*\<^sup>* s\<^sub>0 s \<Longrightarrow> inv s \<Longrightarrow> step s t \<Longrightarrow> inv t"
begin

lemma holds: "step\<^sup>*\<^sup>* s t \<Longrightarrow> init s \<Longrightarrow> inv t"
  by (induction rule: rtranclp_induct) (auto intro: base step)

end

inductive counted_run :: "('s \<Rightarrow> 's \<Rightarrow> bool) \<Rightarrow> ('s \<Rightarrow> 's \<Rightarrow> bool) \<Rightarrow> 's \<Rightarrow> nat \<Rightarrow> 's \<Rightarrow> bool" for step moves where
  start: "counted_run step moves s 0 s"
| onward: "\<lbrakk>counted_run step moves s k t; step t u\<rbrakk> \<Longrightarrow> counted_run step moves s (k + of_bool (moves t u)) u"

locale ranked_steps =
  fixes step :: "'s \<Rightarrow> 's \<Rightarrow> bool" and inv :: "'s \<Rightarrow> bool" and rank :: "'s \<Rightarrow> nat" and moves :: "'s \<Rightarrow> 's \<Rightarrow> bool"
  assumes keeps: "inv s \<Longrightarrow> step s t \<Longrightarrow> inv t"
    and ranked: "inv s \<Longrightarrow> step s t \<Longrightarrow> rank t + of_bool (moves s t) \<le> rank s"
begin

lemma bounded: "counted_run step moves s k t \<Longrightarrow> inv s \<Longrightarrow> inv t \<and> k + rank t \<le> rank s"
proof (induction rule: counted_run.induct)
  case (onward s k t u)
  then have "inv t" "k + rank t \<le> rank s" by simp_all
  with keeps [OF \<open>inv t\<close> onward.hyps(2)] ranked [OF \<open>inv t\<close> onward.hyps(2)] show ?case by linarith
qed simp

text \<open>So a longest run exists, and in its last state no such step is possible.\<close>

lemma settles:
  assumes "inv s"
  shows "\<exists>k t. counted_run step moves s k t \<and> (\<forall>u. step t u \<longrightarrow> \<not> moves t u)"
proof -
  let ?P = "\<lambda>k. \<exists>t. counted_run step moves s k t"
  have "?P 0" by (blast intro: counted_run.start)
  moreover have b: "k \<le> rank s" if "?P k" for k using bounded [OF _ assms] that by fastforce
  ultimately have "?P (GREATEST k. ?P k)" by (rule GreatestI_nat)
  then obtain k where k: "?P k" "\<And>j. ?P j \<Longrightarrow> j \<le> k" using Greatest_le_nat [of ?P _ "rank s"] b by blast
  then obtain t where t: "counted_run step moves s k t" by blast
  have "\<not> moves t u" if "step t u" for u
    using counted_run.onward [OF t that] k(2) by fastforce
  then show ?thesis using t by blast
qed

end

end
