(* ===== verification/Write_Safety.thy ===== *)
theory Write_Safety
  imports Write_Scheduler Transitions
begin

text \<open>
  What the write scheduler guarantees in every reachable state, whatever the interleaving of the
  scheduler goroutine with the callers of \<^verbatim>\<open>EnqueuePoint\<close>, the receive path and \<^verbatim>\<open>Stop\<close>: the
  structure of the queues, the attempts of a write and its outcome, the order on the air, and that
  no wake-up is lost.
\<close>

subsection \<open>The queues\<close>

definition device_of :: "store \<Rightarrow> nat \<Rightarrow> string" where
  "device_of st a = pt_DeviceUUID (Point (st ! a))"

definition queues_ok :: "store \<Rightarrow> (string \<Rightarrow> write_queue option) \<Rightarrow> string list \<Rightarrow> bool" where
  "queues_ok st qs ord \<longleftrightarrow> distinct ord \<and> set ord = dom qs \<and>
     (\<forall>dev q. qs dev = Some q \<longrightarrow> sorted_wrt (<) q \<and>
        (\<forall>a. a \<in> set q \<longleftrightarrow> a < length st \<and> \<not> done_closed (st ! a) \<and> device_of st a = dev)) \<and>
     (\<forall>a < length st. \<not> done_closed (st ! a) \<longrightarrow> device_of st a \<in> dom qs)"

abbreviation manager_ok :: "manager \<Rightarrow> bool" where
  "manager_ok m \<equiv> queues_ok (mgr_store m) (queues m) (mgr_order m)"

lemma queues_ok_sorted: "queues_ok st qs ord \<Longrightarrow> qs dev = Some q \<Longrightarrow> sorted_wrt (<) q"
  by (simp add: queues_ok_def)

lemma queues_ok_mem:
  "queues_ok st qs ord \<Longrightarrow> qs dev = Some q \<Longrightarrow>
     a \<in> set q \<longleftrightarrow> a < length st \<and> \<not> done_closed (st ! a) \<and> device_of st a = dev"
  by (simp add: queues_ok_def)

lemma queues_ok_dom: "queues_ok st qs ord \<Longrightarrow> set ord = dom qs"
  by (simp add: queues_ok_def)

lemma queues_ok_pending:
  assumes "queues_ok st qs ord" "a < length st" "\<not> done_closed (st ! a)"
  shows "\<exists>q. qs (device_of st a) = Some q \<and> a \<in> set q"
proof -
  have "device_of st a \<in> dom qs" using assms by (simp add: queues_ok_def)
  then obtain q where "qs (device_of st a) = Some q" by blast
  then show ?thesis using queues_ok_mem [OF assms(1)] assms(2,3) by blast
qed

text \<open>The three ways the queues change.\<close>

lemma queues_ok_create:
  assumes "queues_ok st qs ord" "qs dev = None"
  shows "queues_ok st (qs(dev \<mapsto> [])) (ord @ [dev])"
proof -
  have "a < length st \<Longrightarrow> \<not> done_closed (st ! a) \<Longrightarrow> device_of st a \<noteq> dev" for a
    using queues_ok_pending [OF assms(1)] assms(2) by fastforce
  then show ?thesis using assms unfolding queues_ok_def by (auto simp: dom_def)
qed

lemma queues_ok_append:
  assumes ok: "queues_ok st qs ord" and q: "qs (pt_DeviceUUID pt) = Some q"
  shows "queues_ok (st @ [new_item pt]) (qs(pt_DeviceUUID pt \<mapsto> q @ [length st])) ord"
proof -
  have new: "\<not> done_closed (new_item pt)" "device_of (st @ [new_item pt]) (length st) = pt_DeviceUUID pt"
    by (simp_all add: new_item_def device_of_def)
  have old: "a < length st \<Longrightarrow> device_of (st @ [new_item pt]) a = device_of st a" for a
    by (simp add: device_of_def nth_append)
  have "sorted_wrt (<) (q @ [length st])"
    using queues_ok_sorted [OF ok q] queues_ok_mem [OF ok q] by (simp add: sorted_wrt_append)
  then show ?thesis using ok q new old unfolding queues_ok_def
    by (auto simp: nth_append less_Suc_eq)
qed

text \<open>Only updates that keep the point of an item occur.\<close>

lemma device_of_update: "a < length st \<Longrightarrow> (\<And>p. Point (f p) = Point p) \<Longrightarrow>
   device_of (update_item a f st) b = device_of st b"
  by (auto simp: device_of_def nth_update_item)

lemma queues_ok_update:
  assumes "queues_ok st qs ord" "a < length st" "\<And>p. Point (f p) = Point p" "\<And>p. done_closed (f p) = done_closed p"
  shows "queues_ok (update_item a f st) qs ord"
proof -
  have "done_closed (update_item a f st ! b) = done_closed (st ! b)" for b
    using assms(2,4) by (auto simp: nth_update_item)
  then show ?thesis using assms(1) device_of_update [OF assms(2,3)] unfolding queues_ok_def by simp
qed

lemma queues_ok_remove:
  assumes ok: "queues_ok st qs ord" and q: "qs dev = Some (a # rest)"
  shows "queues_ok (update_item a (markDone b) st) (qs(dev \<mapsto> rest)) ord"
proof -
  have a: "a < length st" "\<not> done_closed (st ! a)" "device_of st a = dev" "sorted_wrt (<) (a # rest)"
    using queues_ok_mem [OF ok q, of a] queues_ok_sorted [OF ok q] by auto
  have dev: "device_of (update_item a (markDone b) st) c = device_of st c" for c
    by (rule device_of_update [OF a(1)]) simp
  have "c \<in> set rest \<longleftrightarrow> c < length st \<and> \<not> done_closed (update_item a (markDone b) st ! c) \<and> device_of st c = dev" for c
    using queues_ok_mem [OF ok q, of c] a by (auto simp: nth_update_item)
  moreover have "c \<in> set p \<longleftrightarrow> c < length st \<and> \<not> done_closed (update_item a (markDone b) st ! c) \<and> device_of st c = dev'"
    if "qs dev' = Some p" "dev' \<noteq> dev" for c p dev'
    using queues_ok_mem [OF ok that(1), of c] a that(2) by (auto simp: nth_update_item)
  moreover have "device_of st c \<in> dom qs" if "c < length st" "\<not> done_closed (update_item a (markDone b) st ! c)" for c
  proof -
    have "\<not> done_closed (st ! c)" using that a(1) by (auto simp: nth_update_item split: if_splits)
    then show ?thesis using queues_ok_pending [OF ok that(1)] by blast
  qed
  ultimately show ?thesis using ok a q unfolding queues_ok_def dev by (auto simp: dom_def)
qed

subsection \<open>Effects of the operations\<close>

definition pending :: "manager \<Rightarrow> nat \<Rightarrow> bool" where
  "pending m a \<longleftrightarrow> a < length (mgr_store m) \<and> \<not> done_closed (mgr_store m ! a)"

definition at_head :: "manager \<Rightarrow> nat \<Rightarrow> bool" where
  "at_head m a \<longleftrightarrow> (\<exists>rest. queues m (device_of (mgr_store m) a) = Some (a # rest))"

definition remove_head :: "bool \<Rightarrow> nat \<Rightarrow> manager \<Rightarrow> manager" where
  "remove_head b a m =
     (let dev = device_of (mgr_store m) a in
      put_queue dev (update_item a (markDone b) (mgr_store m), tl (queue_of m dev)) m)"

text \<open>On well-formed queues every operation of the manager leaves them alone, adds an empty queue,
  appends an item, updates an item in place, or removes a pending head.\<close>

lemma put_queue_simps [simp]:
  "mgr_store (put_queue dev sq m) = fst sq" "queues (put_queue dev sq m) = (queues m)(dev \<mapsto> snd sq)"
  "mgr_order (put_queue dev sq m) = mgr_order m" "maxRetry (put_queue dev sq m) = maxRetry m"
  "rrIndex (put_queue dev sq m) = rrIndex m" "notify_full (put_queue dev sq m) = notify_full m"
  "stop_closed (put_queue dev sq m) = stop_closed m"
  by (simp_all add: put_queue_def)

lemma put_queue_same: "queues m dev = Some q \<Longrightarrow> put_queue dev (mgr_store m, q) m = m"
  by (simp add: put_queue_def fun_upd_idem)

lemma response_effect:
  assumes ok: "manager_ok m" and r: "manager_DequeueUsingMessageId dev i m = (r, m')"
  shows "r = None \<and> m' = m \<or> (\<exists>a. at_head m a \<and> pending m a \<and> Message (mgr_store m ! a) \<noteq> None
     \<and> MessageId (mgr_store m ! a) = i \<and> device_of (mgr_store m) a = dev
     \<and> r = Some (Point (mgr_store m ! a)) \<and> m' = remove_head True a m)"
proof (cases "queues m dev")
  case None
  then show ?thesis using r by (simp add: manager_DequeueUsingMessageId_def)
next
  case (Some q)
  show ?thesis
  proof (cases q)
    case Nil
    then show ?thesis using r Some put_queue_same [OF Some]
      by (simp add: manager_DequeueUsingMessageId_def dequeue_def)
  next
    case (Cons a rest)
    have a: "a < length (mgr_store m)" "\<not> done_closed (mgr_store m ! a)" "device_of (mgr_store m) a = dev"
      using queues_ok_mem [OF ok Some, of a] Cons by auto
    show ?thesis
    proof (cases "Message (mgr_store m ! a) = None \<or> MessageId (mgr_store m ! a) \<noteq> i")
      case True
      then have "dequeue (Some i) (mgr_store m, q) = (None, mgr_store m, q)" using Cons by (simp add: dequeue_ack)
      then show ?thesis using r Some put_queue_same [OF Some] by (simp add: manager_DequeueUsingMessageId_def)
    next
      case False
      then have "r = Some (Point (mgr_store m ! a)) \<and> m' = remove_head True a m"
        using r Some Cons a by (auto simp: manager_DequeueUsingMessageId_def dequeue_ack remove_head_def queue_of_def)
      moreover have "at_head m a" using Some Cons a(3) by (simp add: at_head_def)
      ultimately show ?thesis using False a by (auto simp: pending_def)
    qed
  qed
qed

lemma RemoveItem_effect:
  assumes ok: "manager_ok m" and a: "a < length (mgr_store m)" "device_of (mgr_store m) a = dev"
    and head: "pending m a \<Longrightarrow> at_head m a" and dom: "dev \<in> dom (queues m)"
  shows "RemoveItem a (mgr_store m, queue_of m dev) =
     (if pending m a then (True, update_item a (markDone False) (mgr_store m), tl (queue_of m dev))
      else (False, mgr_store m, queue_of m dev))"
proof (cases "pending m a")
  case True
  then obtain rest where "queues m dev = Some (a # rest)" using head a(2) by (auto simp: at_head_def)
  then show ?thesis using True by (simp add: RemoveItem_def queue_of_def)
next
  case False
  obtain q where q: "queues m dev = Some q" using dom by blast
  have "a \<notin> set q" using queues_ok_mem [OF ok q] False by (auto simp: pending_def)
  then show ?thesis using False q by (cases q) (auto simp: RemoveItem_def queue_of_def)
qed

lemma give_up_effect:
  assumes "manager_ok m" "a < length (mgr_store m)" "device_of (mgr_store m) a = dev"
    "pending m a \<Longrightarrow> at_head m a" "dev \<in> dom (queues m)"
  shows "give_up dev a m =
     (if pending m a then (Some (Point (mgr_store m ! a)), remove_head False a m) else (None, m))"
  using assms(2,3) by (auto simp: give_up_def RemoveItem_effect [OF assms] remove_head_def)

lemma drop_item_effect:
  assumes "manager_ok m" "a < length (mgr_store m)" "device_of (mgr_store m) a = dev"
    "pending m a \<Longrightarrow> at_head m a" "dev \<in> dom (queues m)"
  shows "drop_item dev a m = (if pending m a then remove_head False a m else m)"
  using assms(2,3) by (auto simp: drop_item_def RemoveItem_effect [OF assms] remove_head_def)

lemma prepareMessage_stores:
  "prepareMessage env i a st = Some (Inr st') \<Longrightarrow> \<exists>frame. st' = SetMessage a i frame st"
  by (auto simp: prepareMessage_def Let_def split: sum.splits bind_splits)

text \<open>The well-formedness of the queues and the heads of the queues under these effects.\<close>

lemma create_effect:
  assumes "manager_ok m"
  shows "manager_ok (snd (getOrCreateQueue dev m))" "mgr_store (snd (getOrCreateQueue dev m)) = mgr_store m"
    "at_head m a \<Longrightarrow> at_head (snd (getOrCreateQueue dev m)) a"
  "maxRetry (snd (getOrCreateQueue dev m)) = maxRetry m"
    "notify_full (snd (getOrCreateQueue dev m)) = notify_full m"
    "queue_of (snd (getOrCreateQueue dev m)) = queue_of m"
  using assms queues_ok_create [OF assms, of dev]
  by (auto simp: getOrCreateQueue_def NewPointWriteQueue_def at_head_def queue_of_def fun_eq_iff split: option.split)

lemma append_effect:
  assumes "manager_ok m" "queues m (pt_DeviceUUID pt) = Some q"
  shows "manager_ok (append_point pt q m)" "mgr_store (append_point pt q m) = mgr_store m @ [new_item pt]"
    "a < length (mgr_store m) \<Longrightarrow> at_head m a \<Longrightarrow> at_head (append_point pt q m) a"
    "queues (append_point pt q m) = (queues m)(pt_DeviceUUID pt \<mapsto> q @ [length (mgr_store m)])"
  using assms(2) queues_ok_append [OF assms]
  by (auto simp: append_point_def EnqueueWriteQueue_def at_head_def device_of_def nth_append)

lemma remove_effect:
  assumes "manager_ok m" "pending m a" "at_head m a"
  shows "manager_ok (remove_head b a m)" "mgr_store (remove_head b a m) = update_item a (markDone b) (mgr_store m)"
    "c \<noteq> a \<Longrightarrow> pending m c \<Longrightarrow> at_head m c \<Longrightarrow> at_head (remove_head b a m) c"
proof -
  obtain rest where q: "queues m (device_of (mgr_store m) a) = Some (a # rest)" using assms(3) by (auto simp: at_head_def)
  show "manager_ok (remove_head b a m)"
    using queues_ok_remove [OF assms(1) q] q by (simp add: remove_head_def queue_of_def Let_def)
  show "mgr_store (remove_head b a m) = update_item a (markDone b) (mgr_store m)" by (simp add: remove_head_def Let_def)
  assume "c \<noteq> a" "pending m c" "at_head m c"
  then show "at_head (remove_head b a m) c" using q assms(2)
    by (auto simp: at_head_def remove_head_def queue_of_def device_of_update pending_def Let_def)
qed

lemma update_effect:
  assumes "manager_ok m" "a < length (mgr_store m)" "\<And>p. Point (f p) = Point p" "\<And>p. done_closed (f p) = done_closed p"
  shows "manager_ok (m\<lparr>mgr_store := update_item a f (mgr_store m)\<rparr>)"
    "at_head (m\<lparr>mgr_store := update_item a f (mgr_store m)\<rparr>) c = at_head m c"
    "pending (m\<lparr>mgr_store := update_item a f (mgr_store m)\<rparr>) c = pending m c"
  using queues_ok_update [OF assms] device_of_update [OF assms(2,3)] assms(2,4)
  by (auto simp: at_head_def pending_def nth_update_item)

subsection \<open>Structure\<close>

fun pc_item :: "pc \<Rightarrow> (string \<times> nat) option" where
  "pc_item (Chosen dev a) = Some (dev, a)"
| "pc_item (Ready dev a) = Some (dev, a)"
| "pc_item (Await dev a) = Some (dev, a)"
| "pc_item (Failed dev a pause) = Some (dev, a)"
| "pc_item (GivingUp dev a pause) = Some (dev, a)"
| "pc_item _ = None"

lemma after_attempt_simps [simp]:
  "pc_item (after_attempt pause) = None" "after_attempt pause \<noteq> GivingUp dev a pause'"
  by (simp_all add: after_attempt_def)

fun framed :: "pc \<Rightarrow> bool" where
  "framed (Chosen dev a) = False"
| "framed _ = True"

text \<open>Only the head of a queue has a frame, and the item the scheduler works on, unless it is
  done, is the head of its queue.\<close>

definition selected :: "manager \<Rightarrow> pc \<Rightarrow> nat \<Rightarrow> bool" where
  "selected m p a \<longleftrightarrow> Message (mgr_store m ! a) \<noteq> None \<or> (\<exists>dev. pc_item p = Some (dev, a))"

definition pc_ok :: "manager \<Rightarrow> pc \<Rightarrow> bool" where
  "pc_ok m p \<longleftrightarrow> (\<forall>dev a. pc_item p = Some (dev, a) \<longrightarrow>
     a < length (mgr_store m) \<and> device_of (mgr_store m) a = dev \<and> dev \<in> dom (queues m) \<and>
     (framed p \<longrightarrow> Message (mgr_store m ! a) \<noteq> None) \<and> (Message (mgr_store m ! a) = None \<longrightarrow> pending m a))"

definition structured :: "manager \<Rightarrow> pc \<Rightarrow> bool" where
  "structured m p \<longleftrightarrow> manager_ok m \<and> pc_ok m p \<and> (\<forall>a. pending m a \<and> selected m p a \<longrightarrow> at_head m a)"

lemma pc_ok_idle [simp]: "pc_item p = None \<Longrightarrow> pc_ok m p"
  by (simp add: pc_ok_def)

lemma structuredD:
  assumes "structured m p"
  shows "manager_ok m"
    "pc_item p = Some (dev, a) \<Longrightarrow> a < length (mgr_store m)"
    "pc_item p = Some (dev, a) \<Longrightarrow> device_of (mgr_store m) a = dev"
    "pc_item p = Some (dev, a) \<Longrightarrow> dev \<in> dom (queues m)"
    "pc_item p = Some (dev, a) \<Longrightarrow> framed p \<Longrightarrow> Message (mgr_store m ! a) \<noteq> None"
    "pc_item p = Some (dev, a) \<Longrightarrow> Message (mgr_store m ! a) = None \<Longrightarrow> pending m a"
    "pc_item p = Some (dev, a) \<Longrightarrow> pending m a \<Longrightarrow> at_head m a"
    "pending m a \<Longrightarrow> Message (mgr_store m ! a) \<noteq> None \<Longrightarrow> at_head m a"
  using assms unfolding structured_def pc_ok_def selected_def by blast+

lemma structured_start: "structured (NewPointWriteQueueManager n) Top"
  by (simp add: structured_def NewPointWriteQueueManager_def queues_ok_def pending_def dom_def)

text \<open>Steps that change the scheduler's position only: to one without an item, or onwards with
  the same item.\<close>

lemma structured_idle: "structured m p \<Longrightarrow> pc_item p' = None \<Longrightarrow> structured m p'"
  by (simp add: structured_def selected_def)

lemma structured_same:
  assumes "structured m p" "pc_item p' = pc_item p"
    "\<And>dev a. pc_item p = Some (dev, a) \<Longrightarrow> framed p' \<Longrightarrow> Message (mgr_store m ! a) \<noteq> None"
  shows "structured m p'"
  using assms by (auto simp: structured_def selected_def pc_ok_def)

lemma structured_choose:
  assumes "structured m p" "queues m dev = Some q" "Peek q = Some a"
  shows "structured m (Chosen dev a)"
proof -
  obtain rest where q: "q = a # rest" using assms(3) by (auto simp: Peek_def split: list.splits)
  have a: "a < length (mgr_store m)" "\<not> done_closed (mgr_store m ! a)" "device_of (mgr_store m) a = dev"
    using queues_ok_mem [OF structuredD(1) [OF assms(1)] assms(2), of a] q by auto
  have "at_head m a" using assms(2) a(3) q by (simp add: at_head_def)
  then show ?thesis using assms(1,2) a
    by (auto simp: structured_def selected_def pc_ok_def pending_def)
qed

text \<open>Steps that change the manager only.\<close>

lemma structured_manager:
  assumes s: "structured m p" and ok: "manager_ok m'"
    and len: "length (mgr_store m) \<le> length (mgr_store m')"
    and same: "\<And>a. a < length (mgr_store m) \<Longrightarrow> Message (mgr_store m' ! a) = Message (mgr_store m ! a)
      \<and> Point (mgr_store m' ! a) = Point (mgr_store m ! a)"
    and new: "\<And>a. length (mgr_store m) \<le> a \<Longrightarrow> pending m' a \<Longrightarrow> Message (mgr_store m' ! a) = None"
    and dom: "dom (queues m) \<subseteq> dom (queues m')"
    and pend: "\<And>a. a < length (mgr_store m) \<Longrightarrow> pending m' a \<Longrightarrow> pending m a"
      "\<And>dev a. pc_item p = Some (dev, a) \<Longrightarrow> Message (mgr_store m ! a) = None \<Longrightarrow> pending m a \<Longrightarrow> pending m' a"
    and heads: "\<And>a. pending m' a \<Longrightarrow> pending m a \<Longrightarrow> at_head m a \<Longrightarrow> at_head m' a"
  shows "structured m' p"
proof -
  have pc: "pc_ok m' p"
    unfolding pc_ok_def
  proof (intro allI impI)
    fix dev a
    assume it: "pc_item p = Some (dev, a)"
    note a = structuredD(2-6) [OF s it]
    show "a < length (mgr_store m') \<and> device_of (mgr_store m') a = dev \<and> dev \<in> dom (queues m') \<and>
      (framed p \<longrightarrow> Message (mgr_store m' ! a) \<noteq> None) \<and> (Message (mgr_store m' ! a) = None \<longrightarrow> pending m' a)"
      using a len same [OF a(1)] dom pend(2) [OF it] by (auto simp: device_of_def)
  qed
  have "at_head m' a" if "pending m' a" "selected m' p a" for a
  proof (cases "a < length (mgr_store m)")
    case True
    then have "pending m a" "selected m p a" using that pend(1) same by (auto simp: selected_def)
    then show ?thesis using heads that(1) s by (auto simp: structured_def)
  next
    case False
    then have "Message (mgr_store m' ! a) = None" using new that(1) by simp
    moreover have "pc_item p \<noteq> Some (dev, a)" for dev using structuredD(2) [OF s] False by blast
    ultimately show ?thesis using that(2) by (simp add: selected_def)
  qed
  then show ?thesis using ok pc by (simp add: structured_def)
qed

lemma structured_remove:
  assumes "structured m p" "pending m a" "at_head m a" "pc_item p = None \<or> Message (mgr_store m ! a) \<noteq> None"
  shows "structured (remove_head b a m) p"
proof (rule structured_manager [OF assms(1)])
  note rm = remove_effect [OF structuredD(1) [OF assms(1)] assms(2,3)]
  have a: "a < length (mgr_store m)" using assms(2) by (simp add: pending_def)
  show "manager_ok (remove_head b a m)" by (rule rm)
  show "dom (queues m) \<subseteq> dom (queues (remove_head b a m))" by (auto simp: remove_head_def Let_def)
  fix c
  have "c \<noteq> a" if "pending (remove_head b a m) c"
    using that a by (auto simp: pending_def rm(2))
  then show "pending (remove_head b a m) c \<Longrightarrow> pending m c \<Longrightarrow> at_head m c \<Longrightarrow> at_head (remove_head b a m) c"
    using rm(3) by blast
qed (use assms(2,4) in \<open>auto simp: remove_effect(2) [OF structuredD(1) [OF assms(1)] assms(2,3)] pending_def
      nth_update_item split: if_splits\<close>)

lemma structured_in_place:
  assumes "structured m p" "a < length (mgr_store m)"
    "\<And>q. Point (f q) = Point q" "\<And>q. done_closed (f q) = done_closed q" "\<And>q. Message (f q) = Message q"
  shows "structured (m\<lparr>mgr_store := update_item a f (mgr_store m)\<rparr>) p"
  by (rule structured_manager [OF assms(1)])
    (use assms(2-) update_effect [OF structuredD(1) [OF assms(1)] assms(2-4)] in \<open>auto simp: nth_update_item pending_def split: if_splits\<close>)

lemma structured_frame:
  assumes "structured m (Chosen dev a)"
  shows "structured (m\<lparr>mgr_store := SetMessage a i frame (mgr_store m)\<rparr>) (Ready dev a)"
proof -
  have a: "a < length (mgr_store m)" using structuredD(2) [OF assms] by simp
  let ?f = "\<lambda>q. q\<lparr>MessageId := i, Message := Some frame\<rparr>"
  note u = update_effect [OF structuredD(1) [OF assms] a, of ?f]
  have "selected m (Chosen dev a) c" if "selected (m\<lparr>mgr_store := update_item a ?f (mgr_store m)\<rparr>) (Ready dev a) c" for c
    using that a by (auto simp: selected_def nth_update_item split: if_splits)
  then show ?thesis using assms u a device_of_update [OF a, of ?f]
    by (auto simp: structured_def SetMessage_def pc_ok_def)
qed

lemma structured_fields [simp]:
  "structured (m\<lparr>rrIndex := i\<rparr>) p = structured m p"
  "structured (m\<lparr>notify_full := b\<rparr>) p = structured m p"
  "structured (m\<lparr>stop_closed := b\<rparr>) p = structured m p"
  by (simp_all add: structured_def selected_def pc_ok_def pending_def at_head_def)

lemma structured_give_up:
  assumes s: "structured m p" and p: "pc_item p = Some (dev, a)"
  shows "give_up dev a m = (if pending m a then (Some (Point (mgr_store m ! a)), remove_head False a m) else (None, m))"
    "drop_item dev a m = (if pending m a then remove_head False a m else m)"
  by (rule give_up_effect drop_item_effect; use structuredD [OF s] p in blast)+

lemma structured_step:
  assumes "sched_step env s t" "structured (mgr s) (pc_of s)"
  shows "structured (mgr t) (pc_of t)"
  using assms(1)
proof cases
  case (create dev)
  then show ?thesis using create_effect [OF structuredD(1) [OF assms(2)], where dev = dev] assms(2)
    by (auto intro!: structured_manager [OF assms(2)] simp: pending_def getOrCreateQueue_def Let_def split: option.split)
next
  case (append pt q)
  note a = append_effect [OF structuredD(1) [OF assms(2)] append(2)]
  have "structured (append_point pt q (mgr s)) (pc_of s)"
    by (rule structured_manager [OF assms(2)])
      (use a in \<open>auto simp: pending_def nth_append new_item_def less_Suc_eq split: if_splits\<close>)
  then show ?thesis by (simp add: append)
next
  case (wakes k)
  then show ?thesis using assms(2) by (simp add: wake_def)
next
  case (response dev i r m)
  then show ?thesis using response_effect [OF structuredD(1) [OF assms(2)] response(2)] assms(2)
    by (auto intro: structured_remove)
next
  case stops
  then show ?thesis using assms(2) by (simp add: manager_Stop_def)
next
  case (scan_hit i q item)
  then show ?thesis using structured_choose [OF assms(2) scan_hit(4,5)] by simp
next
  case (again dev item)
  then show ?thesis using structured_same [OF assms(2), of "Ready dev item"] by (simp add: item_at_def)
next
  case (prepared dev item i st)
  then show ?thesis using prepareMessage_stores [OF prepared(5)] structured_frame assms(2) by auto
next
  case (undeliverable dev item i err)
  have "structured (mgr s) Top" by (rule structured_idle [OF assms(2)]) simp
  moreover have "pending (mgr s) item" "at_head (mgr s) item"
    using structuredD(6,7) [OF assms(2), of dev item] undeliverable by (auto simp: item_at_def)
  ultimately show ?thesis
    using structured_give_up(2) [OF assms(2), of dev item] undeliverable by (simp add: structured_remove)
next
  case (sent dev item frame)
  then show ?thesis using structured_same [OF assms(2), of "Await dev item"] structuredD(5) [OF assms(2)] by simp
next
  case (serial_error dev item)
  then show ?thesis using structured_same [OF assms(2)] structuredD(5) [OF assms(2)] by simp
next
  case (timeout dev item)
  then show ?thesis using structured_same [OF assms(2)] structuredD(5) [OF assms(2)] by simp
next
  case (counted dev item pause retry m)
  have i: "item < length (mgr_store (mgr s))" using structuredD(2) [OF assms(2)] counted by simp
  have "structured m (pc_of s)"
    using counted(3) structured_in_place [OF assms(2) i]
    by (auto simp: count_attempt_def IncRetry_def Let_def)
  moreover have "Message (mgr_store m ! item) \<noteq> None"
    using structuredD(5) [OF \<open>structured m (pc_of s)\<close>] counted(2) by simp
  ultimately show ?thesis
    using counted by (auto intro: structured_idle structured_same simp: after_attempt_def)
next
  case (exhausted dev item pause pt m)
  have "structured (mgr s) (after_attempt pause)" by (rule structured_idle [OF assms(2)]) (simp add: after_attempt_def)
  moreover have "pending (mgr s) item \<and> m = remove_head False item (mgr s)"
    using structured_give_up(1) [OF assms(2), of dev item] exhausted by (simp split: if_splits)
  moreover have "pending (mgr s) item \<Longrightarrow> at_head (mgr s) item"
    using structuredD(7) [OF assms(2)] exhausted by simp
  ultimately show ?thesis using exhausted by (simp add: structured_remove after_attempt_def)
next
  case (overtaken dev item pause m)
  have "m = mgr s" using structured_give_up(1) [OF assms(2), of dev item] overtaken by (simp split: if_splits)
  then show ?thesis using overtaken structured_idle [OF assms(2)] by (simp add: after_attempt_def)
qed (use assms(2) structured_idle in \<open>auto\<close>)

interpretation struct_inv: inductive_invariant "sched_step env" "\<lambda>s. s = start n" "\<lambda>s. structured (mgr s) (pc_of s)"
  for env n
  by unfold_locales (auto simp: start_def structured_start intro: structured_step)

lemma reachable_structured: "reachable env n s \<Longrightarrow> structured (mgr s) (pc_of s)"
  by (simp add: reachable_def struct_inv.holds)

lemma reachable_item:
  assumes "reachable env n s" "pc_item (pc_of s) = Some (dev, a)"
  shows "a < length (mgr_store (mgr s))" "framed (pc_of s) \<Longrightarrow> Message (mgr_store (mgr s) ! a) \<noteq> None"
    "Message (mgr_store (mgr s) ! a) = None \<Longrightarrow> pending (mgr s) a"
  using structuredD [OF reachable_structured [OF assms(1)]] assms(2) by blast+

text \<open>What each step that is not a mere move of the scheduler does to the items.\<close>

lemma step_stores [simp]:
  "mgr_store (snd (getOrCreateQueue dev m)) = mgr_store m"
  "maxRetry (snd (getOrCreateQueue dev m)) = maxRetry m"
  "mgr_store (append_point pt q m) = mgr_store m @ [new_item pt]" "maxRetry (append_point pt q m) = maxRetry m"
  "mgr_store (remove_head b a m) = update_item a (markDone b) (mgr_store m)" "maxRetry (remove_head b a m) = maxRetry m"
  "mgr_store (wake m) = mgr_store m" "maxRetry (wake m) = maxRetry m"
  "mgr_store (manager_Stop m) = mgr_store m" "maxRetry (manager_Stop m) = maxRetry m"
  by (auto simp: getOrCreateQueue_def append_point_def EnqueueWriteQueue_def remove_head_def wake_def manager_Stop_def
      Let_def split: option.split)

lemma step_response:
  assumes "reachable env n s" "manager_DequeueUsingMessageId dev i (mgr s) = (r, m)"
  shows "m = mgr s \<or> (\<exists>a. pending (mgr s) a \<and> Message (mgr_store (mgr s) ! a) \<noteq> None \<and> m = remove_head True a (mgr s))"
  using response_effect [OF structuredD(1) [OF reachable_structured [OF assms(1)]] assms(2)] by blast

lemma step_undeliverable:
  assumes "reachable env n s" "pc_of s = Chosen dev a" "Message (item_at s a) = None"
  shows "pending (mgr s) a" "drop_item dev a (mgr s) = remove_head False a (mgr s)"
  using reachable_item(3) [OF assms(1), of dev a] assms(2,3)
    structured_give_up(2) [OF reachable_structured [OF assms(1)], of dev a] by (auto simp: item_at_def)

lemma step_give_up:
  assumes "reachable env n s" "pc_of s = GivingUp dev a pause" "give_up dev a (mgr s) = (r, m)"
  shows "r = Some pt \<Longrightarrow> pending (mgr s) a \<and> m = remove_head False a (mgr s)"
    "r = None \<Longrightarrow> \<not> pending (mgr s) a \<and> m = mgr s"
  using structured_give_up(1) [OF reachable_structured [OF assms(1)], of dev a] assms(2,3)
  by (auto split: if_splits)

lemma step_counted:
  assumes "reachable env n s" "pc_of s = Failed dev a pause" "count_attempt a (mgr s) = (retry, m)"
  shows "m = (mgr s)\<lparr>mgr_store := update_item a (\<lambda>p. p\<lparr>RetryCount := RetryCount p + 1\<rparr>) (mgr_store (mgr s))\<rparr>"
    "retry \<longleftrightarrow> RetryCount (mgr_store (mgr s) ! a) + 1 < maxRetry (mgr s)"
  using reachable_item(1) [OF assms(1)] assms(2,3) by (auto simp: count_attempt_def IncRetry_def Let_def)

subsection \<open>Attempts\<close>

definition sends :: "system \<Rightarrow> nat \<Rightarrow> nat" where
  "sends s a = count_list (map fst (air s)) a"

text \<open>The frames on the air are those of the items, and the attempts of an item that can still be
  sent are counted.\<close>

definition in_flight :: "pc \<Rightarrow> nat \<Rightarrow> bool" where
  "in_flight p a \<longleftrightarrow> p = Ended \<or> (\<exists>dev. p = Await dev a \<or> p = Failed dev a False)"

definition attempts_ok :: "int \<Rightarrow> int \<Rightarrow> nat \<Rightarrow> bool \<Rightarrow> bool \<Rightarrow> bool \<Rightarrow> bool" where
  "attempts_ok n r k active giving flight \<longleftrightarrow> 0 \<le> r \<and> r \<le> max 1 n \<and> int k \<le> r + 1 \<and> int k \<le> max 1 n \<and>
     (active \<and> \<not> giving \<longrightarrow> r < max 1 n) \<and> (active \<and> \<not> flight \<longrightarrow> int k \<le> r)"

definition active :: "system \<Rightarrow> nat \<Rightarrow> bool" where
  "active s a \<longleftrightarrow> pending (mgr s) a \<or> (\<exists>dev. pc_item (pc_of s) = Some (dev, a))"

definition giving :: "pc \<Rightarrow> nat \<Rightarrow> bool" where
  "giving p a \<longleftrightarrow> (\<exists>dev pause. p = GivingUp dev a pause)"

definition accounted :: "int \<Rightarrow> system \<Rightarrow> bool" where
  "accounted n s \<longleftrightarrow> maxRetry (mgr s) = n \<and>
     (\<forall>(a, frame) \<in> set (air s). a < length (mgr_store (mgr s)) \<and> Message (mgr_store (mgr s) ! a) = Some frame) \<and>
     (\<forall>a < length (mgr_store (mgr s)).
        attempts_ok n (RetryCount (mgr_store (mgr s) ! a)) (sends s a) (active s a)
          (giving (pc_of s) a) (in_flight (pc_of s) a))"

lemma sends_fresh: "accounted n s \<Longrightarrow> length (mgr_store (mgr s)) \<le> a \<Longrightarrow> sends s a = 0"
  by (fastforce simp: accounted_def sends_def count_list_0_iff)

lemma accountedD:
  assumes "accounted n s"
  shows "maxRetry (mgr s) = n"
    "(a, frame) \<in> set (air s) \<Longrightarrow> a < length (mgr_store (mgr s))"
    "(a, frame) \<in> set (air s) \<Longrightarrow> Message (mgr_store (mgr s) ! a) = Some frame"
    "a < length (mgr_store (mgr s)) \<Longrightarrow> attempts_ok n (RetryCount (mgr_store (mgr s) ! a)) (sends s a) (active s a)
       (giving (pc_of s) a) (in_flight (pc_of s) a)"
  using assms unfolding accounted_def by auto

text \<open>A step that sends nothing, counts nothing, and revives no item.\<close>

lemma accounted_transfer:
  assumes s: "accounted n s" and m: "maxRetry (mgr t) = maxRetry (mgr s)" "air t = air s"
    and len: "length (mgr_store (mgr t)) = length (mgr_store (mgr s))"
    and same: "\<And>a. a < length (mgr_store (mgr s)) \<Longrightarrow> RetryCount (mgr_store (mgr t) ! a) = RetryCount (mgr_store (mgr s) ! a)
       \<and> (Message (mgr_store (mgr s) ! a) = None \<or> Message (mgr_store (mgr t) ! a) = Message (mgr_store (mgr s) ! a))"
    and act: "\<And>a. active t a \<Longrightarrow> active s a \<and> (giving (pc_of s) a \<longrightarrow> giving (pc_of t) a)
       \<and> (in_flight (pc_of s) a \<longrightarrow> in_flight (pc_of t) a)"
  shows "accounted n t"
  unfolding accounted_def
proof (intro conjI allI impI ballI)
  show "maxRetry (mgr t) = n" using m accountedD(1) [OF s] by simp
next
  fix x assume x: "x \<in> set (air t)"
  obtain a frame where af: "x = (a, frame)" by (cases x)
  then have "(a, frame) \<in> set (air s)" using x m(2) by simp
  note a = accountedD(2,3) [OF s this]
  show "case x of (a, frame) \<Rightarrow> a < length (mgr_store (mgr t)) \<and> Message (mgr_store (mgr t) ! a) = Some frame"
    using a len same [OF a(1)] by (simp add: af)
next
  fix a assume "a < length (mgr_store (mgr t))"
  then show "attempts_ok n (RetryCount (mgr_store (mgr t) ! a)) (sends t a) (active t a) (giving (pc_of t) a) (in_flight (pc_of t) a)"
    using accountedD(4) [OF s, of a] len same [of a] act [of a] m(2) unfolding attempts_ok_def sends_def by auto
qed

lemma accounted_step:
  assumes "sched_step env s t" "reachable env n s" "accounted n s"
  shows "accounted n t"
  using assms(1)
proof cases
  case (append pt q)
  then show ?thesis using assms(3) sends_fresh [OF assms(3), of "length (mgr_store (mgr s))"]
    by (auto simp: accounted_def active_def pending_def sends_def nth_append less_Suc_eq new_item_def attempts_ok_def)
next
  case (response dev i r m)
  then show ?thesis using step_response [OF assms(2) response(2)]
    by (auto intro!: accounted_transfer [OF assms(3)] simp: active_def pending_def nth_update_item split: if_splits)
next
  case (scan_hit i q item)
  have "pending (mgr s) item"
    using queues_ok_mem [OF structuredD(1) [OF reachable_structured [OF assms(2)]] scan_hit(4), of item] scan_hit(5)
    by (auto simp: Peek_def pending_def split: list.splits)
  then show ?thesis using scan_hit
    by (auto intro!: accounted_transfer [OF assms(3)] simp: active_def pending_def giving_def in_flight_def)
next
  case (prepared dev item i st)
  obtain frame where "st = SetMessage item i frame (mgr_store (mgr s))" using prepareMessage_stores [OF prepared(5)] by blast
  then show ?thesis using prepared reachable_item(1) [OF assms(2), of dev item]
    by (auto intro!: accounted_transfer [OF assms(3)]
        simp: active_def pending_def giving_def in_flight_def SetMessage_def nth_update_item item_at_def split: if_splits)
next
  case (undeliverable dev item i err)
  note u = step_undeliverable [OF assms(2) undeliverable(2,4)]
  then show ?thesis using undeliverable
    by (auto intro!: accounted_transfer [OF assms(3)]
        simp: active_def pending_def giving_def in_flight_def nth_update_item split: if_splits)
next
  case (exhausted dev item pause pt m)
  have "pending (mgr s) item \<and> m = remove_head False item (mgr s)"
    using step_give_up(1) [OF assms(2) exhausted(2,3)] by simp
  then show ?thesis using exhausted
    by (auto intro!: accounted_transfer [OF assms(3)]
        simp: active_def pending_def giving_def in_flight_def nth_update_item after_attempt_def split: if_splits)
next
  case (overtaken dev item pause m)
  have "\<not> pending (mgr s) item \<and> m = mgr s" using step_give_up(2) [OF assms(2) overtaken(2,3)] by simp
  then show ?thesis using overtaken
    by (auto intro!: accounted_transfer [OF assms(3)] simp: active_def giving_def in_flight_def after_attempt_def)
next
  case (counted dev item pause retry m)
  note c = step_counted [OF assms(2) counted(2,3)]
  have i: "item < length (mgr_store (mgr s))" "attempts_ok n (RetryCount (mgr_store (mgr s) ! item)) (sends s item) True False (\<not> pause)"
    using reachable_item(1) [OF assms(2), of dev item] accountedD(4) [OF assms(3), of item] counted(2)
    by (auto simp: active_def giving_def in_flight_def)
  have "attempts_ok n (RetryCount (mgr_store (mgr t) ! a)) (sends t a) (active t a) (giving (pc_of t) a) (in_flight (pc_of t) a)"
    if a: "a < length (mgr_store (mgr s))" for a
  proof (cases "a = item")
    case True
    then show ?thesis using i counted c accountedD(1) [OF assms(3)]
      by (auto simp: attempts_ok_def giving_def after_attempt_def sends_def)
  next
    case False
    then show ?thesis using accountedD(4) [OF assms(3) a] counted c
      by (auto simp: attempts_ok_def active_def giving_def in_flight_def pending_def after_attempt_def sends_def split: if_splits)
  qed
  then show ?thesis using counted c i(1) accountedD(1-3) [OF assms(3)]
    by (auto simp: accounted_def nth_update_item)
next
  case (sent dev item frame)
  have i: "item < length (mgr_store (mgr s))" "attempts_ok n (RetryCount (mgr_store (mgr s) ! item)) (sends s item) True False False"
    using reachable_item(1) [OF assms(2), of dev item] accountedD(4) [OF assms(3), of item] sent(2)
    by (auto simp: active_def giving_def in_flight_def)
  have "attempts_ok n (RetryCount (mgr_store (mgr t) ! a)) (sends t a) (active t a) (giving (pc_of t) a) (in_flight (pc_of t) a)"
    if a: "a < length (mgr_store (mgr s))" for a
  proof (cases "a = item")
    case True
    then show ?thesis using i sent
      by (auto simp: attempts_ok_def giving_def in_flight_def sends_def)
  next
    case False
    then show ?thesis using accountedD(4) [OF assms(3) a] sent
      by (auto simp: attempts_ok_def active_def giving_def in_flight_def pending_def sends_def)
  qed
  then show ?thesis using sent i(1) accountedD(1-3) [OF assms(3)]
    by (auto simp: accounted_def item_at_def)
qed (auto intro!: accounted_transfer [OF assms(3)] simp: active_def pending_def giving_def in_flight_def item_at_def)

lemma accounted_start: "accounted n (start n)"
  by (simp add: start_def NewPointWriteQueueManager_def accounted_def)

interpretation account_inv: inductive_invariant "sched_step env" "\<lambda>s. s = start n" "accounted n" for env n
  by unfold_locales (auto simp: accounted_start reachable_def [symmetric] intro: accounted_step)

lemma reachable_accounted: "reachable env n s \<Longrightarrow> accounted n s"
  by (simp add: reachable_def account_inv.holds)

subsection \<open>Outcomes\<close>

definition given_up :: "int \<Rightarrow> pending_write \<Rightarrow> bool" where
  "given_up n p \<longleftrightarrow> done_closed p \<and> \<not> acked p \<and> Message p \<noteq> None \<and> n \<le> RetryCount p"

definition undelivered :: "pending_write \<Rightarrow> bool" where
  "undelivered p \<longleftrightarrow> done_closed p \<and> \<not> acked p \<and> Message p = None"

definition delivered :: "pending_write \<Rightarrow> bool" where
  "delivered p \<longleftrightarrow> done_closed p \<and> acked p \<and> Message p \<noteq> None"

definition settled :: "int \<Rightarrow> system \<Rightarrow> bool" where
  "settled n s \<longleftrightarrow> distinct (gave_up s) \<and> distinct (dropped s) \<and>
     (\<forall>a. a \<in> set (gave_up s) \<longleftrightarrow> a < length (mgr_store (mgr s)) \<and> given_up n (mgr_store (mgr s) ! a)) \<and>
     (\<forall>a. a \<in> set (dropped s) \<longleftrightarrow> a < length (mgr_store (mgr s)) \<and> undelivered (mgr_store (mgr s) ! a)) \<and>
     (\<forall>a < length (mgr_store (mgr s)). let p = mgr_store (mgr s) ! a in
        pending (mgr s) a \<and> \<not> acked p \<or> delivered p \<or> undelivered p \<or> given_up n p) \<and>
     (\<forall>dev a pause. pc_of s = GivingUp dev a pause \<longrightarrow> n \<le> RetryCount (mgr_store (mgr s) ! a))"

lemmas outcome_defs = given_up_def undelivered_def delivered_def

lemma settled_same:
  assumes "settled n s" "mgr_store (mgr t) = mgr_store (mgr s)" "gave_up t = gave_up s" "dropped t = dropped s"
    "\<And>dev a pause. pc_of t = GivingUp dev a pause \<Longrightarrow> n \<le> RetryCount (mgr_store (mgr s) ! a)"
  shows "settled n t"
  using assms unfolding settled_def pending_def by simp

lemma settled_giving: "settled n s \<Longrightarrow> pc_of s = GivingUp dev a pause \<Longrightarrow> n \<le> RetryCount (mgr_store (mgr s) ! a)"
  unfolding settled_def by blast

text \<open>An item in place: only pending ones, or the count of a done one.\<close>

lemma settled_item:
  assumes s: "settled n s" and a: "a < length (mgr_store (mgr s))"
    and t: "mgr_store (mgr t) = (mgr_store (mgr s))[a := p]"
    and p: "\<not> done_closed p \<and> \<not> acked p \<or> delivered p \<or> undelivered p \<or> given_up n p"
    and g: "gave_up t = (if given_up n p \<and> \<not> given_up n (mgr_store (mgr s) ! a) then gave_up s @ [a] else gave_up s)"
      "given_up n (mgr_store (mgr s) ! a) \<Longrightarrow> given_up n p"
    and d: "dropped t = (if undelivered p \<and> \<not> undelivered (mgr_store (mgr s) ! a) then dropped s @ [a] else dropped s)"
      "undelivered (mgr_store (mgr s) ! a) \<Longrightarrow> undelivered p"
    and pc: "\<And>dev a pause. pc_of t = GivingUp dev a pause \<Longrightarrow> n \<le> RetryCount (mgr_store (mgr t) ! a)"
  shows "settled n t"
proof -
  have len: "length (mgr_store (mgr t)) = length (mgr_store (mgr s))" by (simp add: t)
  have nth: "mgr_store (mgr t) ! b = (if b = a then p else mgr_store (mgr s) ! b)" for b
    using a by (simp add: t nth_list_update)
  have "distinct (gave_up t)" "distinct (dropped t)"
    using s g(1) d(1) unfolding settled_def by auto
  moreover have "b \<in> set (gave_up t) \<longleftrightarrow> b < length (mgr_store (mgr t)) \<and> given_up n (mgr_store (mgr t) ! b)" for b
    using s a g unfolding settled_def len nth by auto
  moreover have "b \<in> set (dropped t) \<longleftrightarrow> b < length (mgr_store (mgr t)) \<and> undelivered (mgr_store (mgr t) ! b)" for b
    using s a d unfolding settled_def len nth by auto
  moreover have "pending (mgr t) b \<and> \<not> acked (mgr_store (mgr t) ! b) \<or> delivered (mgr_store (mgr t) ! b) \<or>
      undelivered (mgr_store (mgr t) ! b) \<or> given_up n (mgr_store (mgr t) ! b)" if "b < length (mgr_store (mgr t))" for b
    using s that p unfolding settled_def pending_def len nth Let_def by auto
  ultimately show ?thesis using pc unfolding settled_def Let_def by blast
qed

lemma settled_append:
  assumes s: "settled n s" and t: "mgr_store (mgr t) = mgr_store (mgr s) @ [new_item pt]"
    "gave_up t = gave_up s" "dropped t = dropped s" "pc_of t = pc_of s"
    "structured (mgr s) (pc_of s)"
  shows "settled n t"
proof -
  have new: "\<not> given_up n (new_item pt)" "\<not> undelivered (new_item pt)" "\<not> done_closed (new_item pt)" "\<not> acked (new_item pt)"
    by (simp_all add: outcome_defs new_item_def)
  have pc: "n \<le> RetryCount (mgr_store (mgr t) ! a)" if "pc_of t = GivingUp dev a pause" for dev a pause
  proof -
    have p: "pc_of s = GivingUp dev a pause" using t(4) that by simp
    have "a < length (mgr_store (mgr s))" using structuredD(2) [OF t(5), of dev a] p by simp
    then show ?thesis using settled_giving [OF s p] t(1) by (simp add: nth_append)
  qed
  show ?thesis using s t(1-3) new pc unfolding settled_def
    by (auto simp: nth_append less_Suc_eq pending_def Let_def)
qed

lemma settled_pending: "settled n s \<Longrightarrow> pending (mgr s) a \<Longrightarrow> \<not> acked (mgr_store (mgr s) ! a)"
  by (auto simp: settled_def pending_def outcome_defs Let_def)

lemma settled_step:
  assumes "sched_step env s t" "reachable env n s" "settled n s"
  shows "settled n t"
  using assms(1)
proof cases
  case (append pt q)
  then show ?thesis using reachable_structured [OF assms(2)]
    by (auto intro: settled_append [OF assms(3)])
next
  case (response dev i r m)
  have "m = mgr s \<or> (\<exists>a. pending (mgr s) a \<and> Message (mgr_store (mgr s) ! a) \<noteq> None \<and> m = remove_head True a (mgr s))"
    by (rule step_response [OF assms(2) response(2)])
  then show ?thesis
  proof (elim disjE exE conjE)
    fix a assume a: "pending (mgr s) a" "Message (mgr_store (mgr s) ! a) \<noteq> None" "m = remove_head True a (mgr s)"
    show ?thesis
      by (rule settled_item [OF assms(3), of a _ "markDone True (mgr_store (mgr s) ! a)"])
        (use a assms(3) in \<open>auto simp: response pending_def update_item_def outcome_defs settled_def nth_list_update\<close>)
  qed (use response assms(3) in \<open>auto intro: settled_same\<close>)
next
  case (prepared dev item i st)
  obtain frame where st: "st = SetMessage item i frame (mgr_store (mgr s))" using prepareMessage_stores [OF prepared(5)] by blast
  have p: "pending (mgr s) item" using reachable_item(3) [OF assms(2), of dev item] prepared by (simp add: item_at_def)
  show ?thesis
    by (rule settled_item [OF assms(3), of item _ "(mgr_store (mgr s) ! item)\<lparr>MessageId := i, Message := Some frame\<rparr>"])
      (use p prepared st settled_pending [OF assms(3) p] in \<open>auto simp: SetMessage_def pending_def update_item_def outcome_defs\<close>)
next
  case (undeliverable dev item i err)
  note u = step_undeliverable [OF assms(2) undeliverable(2,4)]
  show ?thesis
    by (rule settled_item [OF assms(3), of item _ "markDone False (mgr_store (mgr s) ! item)"])
      (use u undeliverable in \<open>auto simp: pending_def update_item_def outcome_defs item_at_def\<close>)
next
  case (exhausted dev item pause pt m)
  have e: "pending (mgr s) item" "m = remove_head False item (mgr s)"
    using step_give_up(1) [OF assms(2) exhausted(2,3)] by simp_all
  have "n \<le> RetryCount (mgr_store (mgr s) ! item)" using assms(3) exhausted(2) by (auto simp: settled_def)
  then show ?thesis
    using e exhausted reachable_item(2) [OF assms(2), of dev item]
    by (intro settled_item [OF assms(3), of item _ "markDone False (mgr_store (mgr s) ! item)"])
      (auto simp: pending_def update_item_def outcome_defs)
next
  case (overtaken dev item pause m)
  have "m = mgr s" using step_give_up(2) [OF assms(2) overtaken(2,3)] by simp
  then show ?thesis using overtaken by (auto intro: settled_same [OF assms(3)])
next
  case (counted dev item pause retry m)
  note c = step_counted [OF assms(2) counted(2,3)]
  have i: "item < length (mgr_store (mgr s))" "Message (mgr_store (mgr s) ! item) \<noteq> None" "maxRetry (mgr s) = n"
    using reachable_item(1,2) [OF assms(2), of dev item] counted(2) accountedD(1) [OF reachable_accounted [OF assms(2)]] by auto
  have o: "pending (mgr s) item \<and> \<not> acked (mgr_store (mgr s) ! item) \<or> delivered (mgr_store (mgr s) ! item)
     \<or> undelivered (mgr_store (mgr s) ! item) \<or> given_up n (mgr_store (mgr s) ! item)"
    using assms(3) i(1) by (simp add: settled_def Let_def)
  show ?thesis
    by (rule settled_item [OF assms(3) i(1), of _ "(mgr_store (mgr s) ! item)\<lparr>RetryCount := RetryCount (mgr_store (mgr s) ! item) + 1\<rparr>"])
      (use c counted i o in \<open>auto simp: pending_def update_item_def outcome_defs split: if_splits\<close>)
next
  case (create dev)
  then show ?thesis by (intro settled_same [OF assms(3)]) (use assms(3) in \<open>auto simp: settled_def\<close>)
next
  case (wakes k)
  then show ?thesis by (intro settled_same [OF assms(3)]) (use assms(3) in \<open>auto simp: settled_def\<close>)
next
  case stops
  then show ?thesis by (intro settled_same [OF assms(3)]) (use assms(3) in \<open>auto simp: settled_def\<close>)
qed (auto intro: settled_same [OF assms(3)])

lemma settled_start: "settled n (start n)"
  by (simp add: start_def NewPointWriteQueueManager_def settled_def)

interpretation outcome_inv: inductive_invariant "sched_step env" "\<lambda>s. s = start n" "settled n" for env n
  by unfold_locales (auto simp: settled_start reachable_def [symmetric] intro: settled_step)

lemma reachable_settled: "reachable env n s \<Longrightarrow> settled n s"
  by (simp add: reachable_def outcome_inv.holds)

subsection \<open>Order on the air\<close>

definition line :: "system \<Rightarrow> nat list" where
  "line s = map fst (air s) @ (case pc_item (pc_of s) of None \<Rightarrow> [] | Some (dev, a) \<Rightarrow> [a])"

definition before :: "store \<Rightarrow> nat \<Rightarrow> nat \<Rightarrow> bool" where
  "before st a b \<longleftrightarrow> (device_of st a = device_of st b \<longrightarrow> a \<le> b)"

definition ordered :: "system \<Rightarrow> bool" where
  "ordered s \<longleftrightarrow> sorted_wrt (before (mgr_store (mgr s))) (line s) \<and>
     (\<forall>a \<in> set (line s). a < length (mgr_store (mgr s)) \<and> (\<forall>b. pending (mgr s) b \<longrightarrow> before (mgr_store (mgr s)) a b))"

lemma before_cong: "(\<And>a. device_of st' a = device_of st a) \<Longrightarrow> before st' = before st"
  by (auto simp: before_def fun_eq_iff)

lemma ordered_transfer:
  assumes s: "ordered s" and air: "air t = air s"
    and pc: "pc_item (pc_of t) = None \<or> pc_item (pc_of t) = pc_item (pc_of s)"
    and dev: "\<And>a. device_of (mgr_store (mgr t)) a = device_of (mgr_store (mgr s)) a"
    and len: "length (mgr_store (mgr t)) = length (mgr_store (mgr s))"
    and pend: "\<And>b. pending (mgr t) b \<Longrightarrow> pending (mgr s) b"
  shows "ordered t"
proof -
  have "set (line t) \<subseteq> set (line s)" using air pc by (auto simp: line_def)
  moreover have "sorted_wrt (before (mgr_store (mgr s))) (line t)"
    using s air pc unfolding ordered_def line_def by (auto simp: sorted_wrt_append split: option.splits)
  moreover have "before (mgr_store (mgr t)) = before (mgr_store (mgr s))" by (rule before_cong [OF dev])
  ultimately show ?thesis using s pend len unfolding ordered_def by (simp add: subset_iff)
qed

lemma ordered_step:
  assumes "sched_step env s t" "reachable env n s" "ordered s"
  shows "ordered t"
  using assms(1)
proof cases
  case (append pt q)
  have l: "a < length (mgr_store (mgr s))" if "a \<in> set (line s)" for a using assms(3) that by (simp add: ordered_def)
  have d: "device_of (mgr_store (mgr t)) a = device_of (mgr_store (mgr s)) a" if "a < length (mgr_store (mgr s))" for a
    using that append by (simp add: device_of_def nth_append)
  have "line t = line s" using append by (simp add: line_def)
  moreover have "sorted_wrt (before (mgr_store (mgr t))) (line s)"
    using assms(3) by (rule_tac sorted_wrt_mono_rel [of _ "before (mgr_store (mgr s))"]) (auto simp: before_def d l ordered_def)
  moreover have "before (mgr_store (mgr t)) a b" if "a \<in> set (line s)" "pending (mgr t) b" for a b
  proof (cases "b < length (mgr_store (mgr s))")
    case True
    then have "pending (mgr s) b" using that(2) append by (simp add: pending_def nth_append)
    then have "before (mgr_store (mgr s)) a b" using assms(3) that(1) by (simp add: ordered_def)
    then show ?thesis using d [OF True] d [OF l [OF that(1)]] by (simp add: before_def)
  next
    case False
    then show ?thesis using l [OF that(1)] by (simp add: before_def)
  qed
  ultimately show ?thesis using append l by (auto simp: ordered_def less_Suc_eq)
next
  case (response dev i r m)
  then show ?thesis using step_response [OF assms(2) response(2)]
    by (auto intro!: ordered_transfer [OF assms(3)] simp: pending_def nth_update_item device_of_update split: if_splits)
next
  case (scan_hit i q item)
  obtain rest where q: "q = item # rest" using scan_hit(5) by (auto simp: Peek_def split: list.splits)
  note ok = structuredD(1) [OF reachable_structured [OF assms(2)]]
  have i: "pending (mgr s) item" "device_of (mgr_store (mgr s)) item = scan_device (mgr s) i"
    using queues_ok_mem [OF ok scan_hit(4), of item] q by (auto simp: pending_def)
  have le: "before (mgr_store (mgr s)) item b" if "pending (mgr s) b" for b
  proof -
    have "b = item \<or> item < b" if "device_of (mgr_store (mgr s)) b = scan_device (mgr s) i"
    proof -
      have "b \<in> set q" using queues_ok_mem [OF ok scan_hit(4)] \<open>pending (mgr s) b\<close> that by (simp add: pending_def)
      then show ?thesis using queues_ok_sorted [OF ok scan_hit(4)] q by auto
    qed
    then show ?thesis using i(2) by (auto simp: before_def)
  qed
  have "line t = line s @ [item]" using scan_hit by (simp add: line_def)
  then show ?thesis using assms(3) scan_hit(1) i(1) le
    by (auto simp: ordered_def sorted_wrt_append pending_def)
next
  case (prepared dev item i st)
  obtain frame where "st = SetMessage item i frame (mgr_store (mgr s))" using prepareMessage_stores [OF prepared(5)] by blast
  then show ?thesis using prepared reachable_item(1) [OF assms(2), of dev item]
    by (auto intro!: ordered_transfer [OF assms(3)]
        simp: pending_def SetMessage_def nth_update_item device_of_update split: if_splits)
next
  case (undeliverable dev item i err)
  note u = step_undeliverable [OF assms(2) undeliverable(2,4)]
  then show ?thesis using undeliverable
    by (auto intro!: ordered_transfer [OF assms(3)] simp: pending_def nth_update_item device_of_update split: if_splits)
next
  case (exhausted dev item pause pt m)
  have "pending (mgr s) item \<and> m = remove_head False item (mgr s)"
    using step_give_up(1) [OF assms(2) exhausted(2,3)] by simp
  then show ?thesis using exhausted
    by (auto intro!: ordered_transfer [OF assms(3)] simp: pending_def nth_update_item device_of_update split: if_splits)
next
  case (overtaken dev item pause m)
  have "m = mgr s" using step_give_up(2) [OF assms(2) overtaken(2,3)] by simp
  then show ?thesis using overtaken by (auto intro!: ordered_transfer [OF assms(3)])
next
  case (counted dev item pause retry m)
  note c = step_counted [OF assms(2) counted(2,3)]
  then show ?thesis using counted reachable_item(1) [OF assms(2), of dev item]
    by (auto intro!: ordered_transfer [OF assms(3)] simp: pending_def nth_update_item device_of_update split: if_splits)
next
  case (sent dev item frame)
  have "line t = line s @ [item]" "item \<in> set (line s)" "line s = map fst (air s) @ [item]" using sent by (simp_all add: line_def)
  then show ?thesis using assms(3) sent(1) by (auto simp: ordered_def sorted_wrt_append before_def)
qed (auto intro!: ordered_transfer [OF assms(3)] simp: pending_def)

lemma ordered_start: "ordered (start n)"
  by (simp add: start_def NewPointWriteQueueManager_def ordered_def line_def)

interpretation order_inv: inductive_invariant "sched_step env" "\<lambda>s. s = start n" ordered for env n
  by unfold_locales (auto simp: ordered_start reachable_def [symmetric] intro: ordered_step)

lemma reachable_ordered: "reachable env n s \<Longrightarrow> ordered s"
  by (simp add: reachable_def order_inv.holds [where n = n])

end
