(* ===== verification/Write_Progress.thy ===== *)
theory Write_Progress
  imports Write_Safety
begin

text \<open>
  The write scheduler makes progress: no wake-up is lost between the scan of the queues and the
  wait on the notify channel, the scan never meets a missing queue, the round robin of
  \<^verbatim>\<open>nextPending\<close> serves every device that has a write, and a frame that is built says what the
  point's write asked for.  The properties of the scheduler are at the end.
\<close>

subsection \<open>Wake-ups\<close>

definition roused :: "system \<Rightarrow> bool" where
  "roused s \<longleftrightarrow> notify_full (mgr s) \<or> 0 < waking s"

definition watchful :: "system \<Rightarrow> bool" where
  "watchful s \<longleftrightarrow>
     (\<forall>i. pc_of s = Scan i \<longrightarrow> i \<le> length (mgr_order (mgr s)) \<and>
        (\<forall>j < i. queue_of (mgr s) (scan_device (mgr s) j) = [] \<or> roused s)) \<and>
     (pc_of s = WaitNotify \<longrightarrow> (\<forall>dev. queue_of (mgr s) dev = [] \<or> roused s))"

lemma watchfulD:
  assumes "watchful s"
  shows "pc_of s = Scan i \<Longrightarrow> i \<le> length (mgr_order (mgr s))"
    "pc_of s = Scan i \<Longrightarrow> j < i \<Longrightarrow> queue_of (mgr s) (scan_device (mgr s) j) = [] \<or> roused s"
    "pc_of s = WaitNotify \<Longrightarrow> queue_of (mgr s) dev = [] \<or> roused s"
  using assms unfolding watchful_def by blast+

text \<open>Steps of the others keep the position; what they append rouses the scheduler.\<close>

lemma watchful_transfer:
  assumes "watchful s" "pc_of t = pc_of s" "mgr_order (mgr t) = mgr_order (mgr s)" "rrIndex (mgr t) = rrIndex (mgr s)"
    "roused t \<or> (\<not> roused s \<and> (\<forall>dev. queue_of (mgr s) dev = [] \<longrightarrow> queue_of (mgr t) dev = []))"
  shows "watchful t"
proof -
  have "scan_device (mgr t) j = scan_device (mgr s) j" for j
    using assms(3,4) by (simp add: scan_device_def scan_index_def)
  then show ?thesis using assms unfolding watchful_def by metis
qed

lemma rotation_covers:
  assumes "k < length (mgr_order m)"
  shows "\<exists>j < length (mgr_order m). scan_index m j = k"
proof -
  let ?n = "length (mgr_order m)"
  let ?j = "(k + ?n - rrIndex m mod ?n) mod ?n"
  have n: "0 < ?n" using assms by (rule le_less_trans [OF le0])
  have "rrIndex m mod ?n < ?n" by (rule mod_less_divisor [OF n])
  have "(rrIndex m + ?j) mod ?n = (rrIndex m mod ?n + (k + ?n - rrIndex m mod ?n)) mod ?n"
    by (simp add: mod_add_left_eq mod_add_right_eq)
  also have "\<dots> = (k + ?n) mod ?n" using \<open>rrIndex m mod ?n < ?n\<close> by simp
  finally have "scan_index m ?j = k" using assms by (simp add: scan_index_def)
  moreover have "?j < ?n" by (rule mod_less_divisor [OF n])
  ultimately show ?thesis by blast
qed

lemma scan_covers:
  assumes "manager_ok m" "queues m dev = Some q"
  shows "\<exists>j < length (mgr_order m). scan_device m j = dev"
proof -
  have "dev \<in> set (mgr_order m)" using queues_ok_dom [OF assms(1)] assms(2) by auto
  then obtain k where k: "k < length (mgr_order m)" "mgr_order m ! k = dev" by (auto simp: in_set_conv_nth)
  then show ?thesis using rotation_covers [OF k(1)] by (auto simp: scan_device_def)
qed

lemma scan_device_dom:
  assumes "manager_ok m" "i < length (mgr_order m)"
  shows "\<exists>q. queues m (scan_device m i) = Some q"
proof -
  have "scan_index m i < length (mgr_order m)"
    unfolding scan_index_def by (rule mod_less_divisor [OF le_less_trans [OF le0 assms(2)]])
  then show ?thesis using queues_ok_dom [OF assms(1)] by (force simp: scan_device_def)
qed

lemma watchful_step:
  assumes "sched_step env s t" "reachable env n s" "watchful s"
  shows "watchful t"
proof -
  note ok = structuredD(1) [OF reachable_structured [OF assms(2)]]
  show ?thesis using assms(1)
  proof cases
    case (create dev)
    have "queue_of (snd (getOrCreateQueue dev (mgr s))) = queue_of (mgr s)" "notify_full (snd (getOrCreateQueue dev (mgr s))) = notify_full (mgr s)"
      by (rule create_effect(5,6) [OF ok])+
    then show ?thesis using assms(3) create by (simp add: watchful_def roused_def)
  next
    case (append pt q)
    then show ?thesis
      by (auto intro!: watchful_transfer [OF assms(3)] simp: append_point_def roused_def)
  next
    case (wakes k)
    then show ?thesis
      by (auto intro!: watchful_transfer [OF assms(3)] simp: wake_def roused_def)
  next
    case (response dev i r m)
    then show ?thesis using response_effect [OF ok response(2)]
      by (auto intro!: watchful_transfer [OF assms(3)] simp: remove_head_def roused_def queue_of_def Let_def split: option.splits)
  next
    case stops
    then show ?thesis
      by (auto intro!: watchful_transfer [OF assms(3)] simp: manager_Stop_def roused_def queue_of_def)
  next
    case (scan_miss i q)
    then show ?thesis using watchfulD(2) [OF assms(3)]
      by (auto simp: watchful_def roused_def less_Suc_eq queue_of_def Peek_def split: list.splits)
  next
    case (scan_end i)
    have "queue_of (mgr s) dev = [] \<or> roused s" for dev
    proof (cases "queues (mgr s) dev")
      case (Some q)
      then obtain j where "j < length (mgr_order (mgr s))" "scan_device (mgr s) j = dev" using scan_covers [OF ok] by blast
      then show ?thesis using watchfulD(2) [OF assms(3) scan_end(2), of j] scan_end(3) by auto
    qed (simp add: queue_of_def)
    then show ?thesis using scan_end(1) by (simp add: watchful_def roused_def)
  qed (auto simp: watchful_def after_attempt_def)
qed

lemma watchful_start: "watchful (start n)"
  by (simp add: start_def watchful_def)

interpretation wake_inv: inductive_invariant "sched_step env" "\<lambda>s. s = start n" watchful for env n
  by unfold_locales (auto simp: watchful_start reachable_def [symmetric] intro: watchful_step)

lemma reachable_watchful: "reachable env n s \<Longrightarrow> watchful s"
  by (simp add: reachable_def wake_inv.holds [where n = n])

subsection \<open>Round robin\<close>

definition complete :: "manager \<Rightarrow> bool" where
  "complete m \<longleftrightarrow> dom (queues m) = set (mgr_order m)"

lemma complete_device: "complete m \<Longrightarrow> i < length (mgr_order m) \<Longrightarrow> \<exists>q. queues m (scan_device m i) = Some q"
proof -
  assume "complete m" "i < length (mgr_order m)"
  then have "scan_device m i \<in> set (mgr_order m)"
    unfolding scan_device_def scan_index_def by (intro nth_mem mod_less_divisor) linarith
  then show ?thesis using \<open>complete m\<close> by (auto simp: complete_def dom_def)
qed

text \<open>The loop stops at the first non-empty queue of the rotation.\<close>

lemma next_loop_result:
  assumes "complete m" "i + k = length (mgr_order m)"
  shows "next_loop m i k =
    (if \<forall>j. i \<le> j \<and> j < i + k \<longrightarrow> queue_of m (scan_device m j) = [] then Some (None, m)
     else let j = (LEAST j. i \<le> j \<and> queue_of m (scan_device m j) \<noteq> []) in
       Some (Some (scan_device m j, hd (queue_of m (scan_device m j))), m\<lparr>rrIndex := scan_index m j + 1\<rparr>))"
  using assms(2)
proof (induction k arbitrary: i)
  case (Suc k)
  have i: "i < length (mgr_order m)" using Suc.prems by simp
  obtain q where q: "queues m (scan_device m i) = Some q" using complete_device [OF assms(1) i] by blast
  have step: "next_loop m i (Suc k) = (case q of
      a # rest \<Rightarrow> Some (Some (scan_device m i, a), m\<lparr>rrIndex := scan_index m i + 1\<rparr>) | [] \<Rightarrow> next_loop m (i + 1) k)"
    using q by (simp add: Let_def scan_device_def scan_index_def Peek_def split: list.split)
  show ?case
  proof (cases q)
    case Nil
    have e: "queue_of m (scan_device m i) = []" using q Nil by (simp add: queue_of_def)
    have split: "i \<le> j \<longleftrightarrow> j = i \<or> i + 1 \<le> j" for j by arith
    have all_eq: "(\<forall>j. i \<le> j \<and> j < i + Suc k \<longrightarrow> queue_of m (scan_device m j) = []) \<longleftrightarrow>
        (\<forall>j. i + 1 \<le> j \<and> j < i + 1 + k \<longrightarrow> queue_of m (scan_device m j) = [])"
      unfolding split using e by auto
    have least_eq: "(\<lambda>j. i \<le> j \<and> queue_of m (scan_device m j) \<noteq> []) = (\<lambda>j. i + 1 \<le> j \<and> queue_of m (scan_device m j) \<noteq> [])"
      unfolding split using e by auto
    have "next_loop m i (Suc k) = next_loop m (i + 1) k" using step Nil by (simp only: list.case)
    then show ?thesis unfolding all_eq least_eq by (simp only:) (rule Suc.IH, use Suc.prems in simp)
  next
    case (Cons a rest)
    have "queue_of m (scan_device m i) = a # rest" using q Cons by (simp add: queue_of_def)
    moreover from this have "(LEAST j. i \<le> j \<and> queue_of m (scan_device m j) \<noteq> []) = i"
      by (intro Least_equality) auto
    ultimately show ?thesis using step Cons by (auto simp: Let_def)
  qed
qed auto

lemma nextPending_picks:
  assumes "complete m" "j < length (mgr_order m)" "queue_of m (scan_device m j) \<noteq> []"
  shows "\<exists>i \<le> j. queue_of m (scan_device m i) \<noteq> [] \<and> (\<forall>i' < i. queue_of m (scan_device m i') = []) \<and>
     nextPending m = Some (Some (scan_device m i, hd (queue_of m (scan_device m i))), m\<lparr>rrIndex := scan_index m i + 1\<rparr>)"
proof -
  let ?P = "\<lambda>j. queue_of m (scan_device m j) \<noteq> []"
  define i where "i = (LEAST j. ?P j)"
  have i: "?P i" "i \<le> j" "\<And>i'. i' < i \<Longrightarrow> \<not> ?P i'"
    unfolding i_def by (rule LeastI [of ?P, OF assms(3)], rule Least_le [of ?P, OF assms(3)], drule not_less_Least, simp)
  have "\<not> (\<forall>j. 0 \<le> j \<and> j < 0 + length (mgr_order m) \<longrightarrow> queue_of m (scan_device m j) = [])"
    using assms(2,3) by simp blast
  then have "nextPending m = Some (Some (scan_device m i, hd (queue_of m (scan_device m i))), m\<lparr>rrIndex := scan_index m i + 1\<rparr>)"
    using next_loop_result [OF assms(1), of 0 "length (mgr_order m)"]
    unfolding nextPending_def i_def by (simp only: if_not_P Let_def le0 simp_thms add_0)
  then show ?thesis using i by blast
qed

lemma nextPending_idle:
  assumes "complete m" "\<forall>dev \<in> set (mgr_order m). queue_of m dev = []"
  shows "nextPending m = Some (None, m)"
proof -
  have "scan_device m j \<in> set (mgr_order m)" if "j < length (mgr_order m)" for j
    unfolding scan_device_def scan_index_def using that by (intro nth_mem mod_less_divisor) linarith
  then show ?thesis using assms(2) next_loop_result [OF assms(1), of 0 "length (mgr_order m)"]
    unfolding nextPending_def by auto
qed

text \<open>Successive picks, with the queues changed in any way in between.\<close>

fun picks :: "manager \<Rightarrow> (string \<Rightarrow> write_queue option) list \<Rightarrow> string list" where
  "picks m [] = []"
| "picks m (Q # Qs) =
     (case nextPending (m\<lparr>queues := Q\<rparr>) of
        Some (Some (dev, item), m') \<Rightarrow> dev # picks m' Qs
      | Some (None, m') \<Rightarrow> picks m' Qs
      | None \<Rightarrow> [])"

lemma picked_within:
  assumes "\<forall>Q \<in> set Qs. dom Q = set (mgr_order m) \<and> (\<exists>a rest. Q dev = Some (a # rest))"
    "j < length (mgr_order m)" "scan_device m j = dev" "j < length Qs"
  shows "dev \<in> set (take (j + 1) (picks m Qs))"
  using assms
proof (induction j arbitrary: m Qs rule: less_induct)
  case (less j)
  obtain Q Qs' where Q: "Qs = Q # Qs'" using less.prems(4) by (cases Qs) auto
  let ?m = "m\<lparr>queues := Q\<rparr>" and ?n = "length (mgr_order m)"
  have sd: "scan_device ?m i = scan_device m i" "scan_index ?m i = scan_index m i" for i
    by (simp_all add: scan_device_def scan_index_def)
  have "complete ?m" "queue_of ?m (scan_device ?m j) \<noteq> []"
    using less.prems(1,3) Q sd by (auto simp: complete_def queue_of_def)
  then obtain i where i: "i \<le> j" "nextPending ?m = Some (Some (scan_device m i, hd (queue_of ?m (scan_device m i))), ?m\<lparr>rrIndex := scan_index m i + 1\<rparr>)"
    using nextPending_picks [of ?m j] less.prems(2) unfolding sd by auto
  show ?case
  proof (cases "i = j")
    case True
    then show ?thesis using i Q less.prems(3) by simp
  next
    case False
    let ?m' = "?m\<lparr>rrIndex := scan_index m i + 1\<rparr>"
    let ?j = "j - i - 1"
    have "rrIndex ?m' + ?j = (rrIndex m + i) mod ?n + (j - i)" using False i(1) by (simp add: scan_index_def)
    then have "scan_index ?m' ?j = ((rrIndex m + i) mod ?n + (j - i)) mod ?n" unfolding scan_index_def [of ?m'] by simp
    also have "\<dots> = (rrIndex m + i + (j - i)) mod ?n" by (rule mod_add_left_eq)
    also have "\<dots> = scan_index m j" using i(1) by (simp add: scan_index_def)
    finally have "scan_device ?m' ?j = dev" using less.prems(3) by (simp add: scan_device_def)
    then have "dev \<in> set (take (?j + 1) (picks ?m' Qs'))"
      using less.prems Q False i(1) by (intro less.IH) auto
    moreover have "set (take (?j + 1) (picks ?m' Qs')) \<subseteq> set (take j (picks ?m' Qs'))"
      by (rule set_take_subset_set_take) (use False i(1) in simp)
    ultimately have "dev \<in> set (take j (picks ?m' Qs'))" by blast
    then show ?thesis using i(2) Q by simp
  qed
qed

subsection \<open>Frames\<close>

lemma EncodeRequestMessage_total: "EncodeRequestMessage oor pts \<noteq> None"
  using EncodeRequestMessage_result [of oor pts] by (auto split: list.splits)

lemma Encrypt_total:
  assumes "mac_ok mac"
  shows "Encrypt mac address payload key opts nonce \<noteq> None"
proof (cases "length key \<in> {16, 24, 32}")
  case True
  let ?in = "inner_block payload opts nonce"
  have c: "length (cbc_encrypt (aes_encrypt key) iv ?in) = length ?in"
    by (rule cbc_inner(2) [OF inner_block_bounds(1)])
  have "16 \<le> length (addr @ cbc_encrypt (aes_encrypt key) iv ?in)" for addr
    using inner_block_bounds(2) [of payload opts nonce] c by simp
  from prepareCMAC_ok [OF assms True this] show ?thesis
    using NewCipher_None [OF True] inner_block_bounds(1) [of payload opts nonce]
    by (auto simp: Encrypt_def CryptBlocks_def inner_block_def Let_def split: prod.split option.split)
next
  case False
  then show ?thesis by (auto simp: Encrypt_def NewCipher_def)
qed

lemma prepareMessage_total:
  assumes "mac_ok (se_mac env)" "call_EncodeRequestMessage enc (se_oor env) [Point (st ! a)] = Some r"
    and "EncodeRequestMessage_of (deref_desc (GetDeviceDescription dev LoRaDeviceDescriptions)) = Some enc"
    and "se_getDevice env (pt_DeviceUUID (Point (st ! a))) = Inr dev"
  shows "prepareMessage env i a st \<noteq> None"
proof -
  show ?thesis
  proof (cases "getEncryptionKey (se_DefaultKey env) dev")
    case (Inr key)
    show ?thesis
    proof (cases r)
      case (Inr payload)
      obtain x where "Encrypt (se_mac env) (case pt_AddressUUID (Point (st ! a)) of None \<Rightarrow> '''' | Some a \<Rightarrow> a)
          payload key LORARAW_OPTS_REQUEST i = Some x"
        using Encrypt_total [OF assms(1)] by blast
      then show ?thesis using assms(2-4) Inr \<open>getEncryptionKey (se_DefaultKey env) dev = Inr key\<close>
        by (cases x) (simp_all add: prepareMessage_def Let_def)
    qed (use assms(2-4) Inr in \<open>simp add: prepareMessage_def Let_def\<close>)
  qed (use assms(4) in \<open>simp add: prepareMessage_def Let_def\<close>)
qed

lemma prepareMessage_ok:
  assumes "prepareMessage env i a st = Some (Inr st')" "pt_AddressUUID (Point (st ! a)) = Some address"
  shows "\<exists>dev key payload frame. se_getDevice env (pt_DeviceUUID (Point (st ! a))) = Inr dev
    \<and> getEncryptionKey (se_DefaultKey env) dev = Inr key
    \<and> EncodeRequestMessage (se_oor env) [Point (st ! a)] = Some (Inr payload)
    \<and> Encrypt (se_mac env) address payload key LORARAW_OPTS_REQUEST i = Some (Inr frame) \<and> st' = SetMessage a i frame st"
proof -
  obtain dev key enc payload frame where f: "se_getDevice env (pt_DeviceUUID (Point (st ! a))) = Inr dev"
    "getEncryptionKey (se_DefaultKey env) dev = Inr key"
    "call_EncodeRequestMessage enc (se_oor env) [Point (st ! a)] = Some (Inr payload)"
    "Encrypt (se_mac env) address payload key LORARAW_OPTS_REQUEST i = Some (Inr frame)" "st' = SetMessage a i frame st"
    using assms by (auto simp: prepareMessage_def Let_def split: sum.splits bind_splits)
  then show ?thesis
    by (cases enc) (auto simp: NilLoRaDeviceDescriptionEncodeRequestMessage_def)
qed

lemma call_Encode_total: "\<exists>r. call_EncodeRequestMessage enc oor pts = Some r"
  using EncodeRequestMessage_total by (cases enc) auto

lemma prepare_panic:
  assumes "mac_ok (se_mac env)"
  shows "prepareMessage env i a st = None \<longleftrightarrow>
    (\<exists>dev key d. se_getDevice env (pt_DeviceUUID (Point (st ! a))) = Inr dev \<and> getEncryptionKey (se_DefaultKey env) dev = Inr key
      \<and> GetDeviceDescription dev LoRaDeviceDescriptions = Some d \<and> EncodeRequestMessage_of d = None)"
    (is "?l \<longleftrightarrow> ?r")
proof
  assume l: ?l
  then obtain dev key where dev: "se_getDevice env (pt_DeviceUUID (Point (st ! a))) = Inr dev"
      "getEncryptionKey (se_DefaultKey env) dev = Inr key"
    by (auto simp: prepareMessage_def Let_def split: sum.splits)
  have "EncodeRequestMessage_of (deref_desc (GetDeviceDescription dev LoRaDeviceDescriptions)) = None"
    using l prepareMessage_total [OF assms _ _ dev(1)] call_Encode_total by (metis not_None_eq)
  then show ?r using dev
    by (cases "GetDeviceDescription dev LoRaDeviceDescriptions") (auto simp: deref_desc_def NilLoRaDeviceDescription_def)
next
  assume ?r
  then show ?l by (auto simp: prepareMessage_def Let_def deref_desc_def)
qed

lemma single_request:
  assumes "writable_point pt"
  shows "\<exists>payload r. EncodeRequestMessage oor [pt] = Some (Inr payload) \<and> r < 8 \<and> length payload \<le> 255
    \<and> payload_points payload = (pt_IoNumber pt, sent_value oor pt, None) # padding_points r"
proof -
  obtain v k p where pt: "pt_WriteValue pt = Some v" "atoi (pt_DataType pt) = Inr k" "getPosition (pt_IoNumber pt) = Inr p"
      "decodable k" "k \<noteq> MDK_ERROR"
    using assms by (auto simp: writable_point_def split: option.splits sum.splits)
  obtain d where d: "convertData oor (write_num oor k v) k = Some (d, field_width k)"
    using convert_writable [OF pt(4,5)] by auto
  obtain buf r where b: "EncodeRequestMessage oor [pt] = Some (Inr buf)" "r < 8"
      "bits_of buf = byte_bits 1 @ point_bits oor pt @ replicate r False"
      "payload_points buf = (pt_IoNumber pt, sent_value oor pt, None) # padding_points r"
    using request_stream [of "[pt]" oor] assms by auto
  have "length (point_bits oor pt) \<le> 78"
    using pt d field_width_bounds [OF pt(4)] by (simp add: point_bits_def point_field_def field_bits_def)
  then have "length buf \<le> 255" using arg_cong [OF b(3), of length] b(2) by simp
  then show ?thesis using b by blast
qed

lemma prepared_frame:
  assumes mac: "mac_ok (se_mac env)" and p: "prepareMessage env i a st = Some (Inr st')" and a: "a < length st"
    and pt: "writable_point (Point (st ! a))"
    and addr: "pt_AddressUUID (Point (st ! a)) = Some address" "hex_decode address = (addr, None)" "length addr = 4"
  shows "\<exists>dev key frame dec payload r.
     se_getDevice env (pt_DeviceUUID (Point (st ! a))) = Inr dev \<and> getEncryptionKey (se_DefaultKey env) dev = Inr key
   \<and> st' = update_item a (\<lambda>q. q\<lparr>MessageId := i, Message := Some frame\<rparr>) st
   \<and> Decrypt (se_mac env) frame key = Some (Inr dec)
   \<and> take 4 dec = addr \<and> dec ! 4 = LORARAW_OPTS_REQUEST \<and> dec ! 5 = i
   \<and> StripLoRaRAWPayload dec = Some payload \<and> r < 8
   \<and> payload_points payload = (pt_IoNumber (Point (st ! a)), sent_value (se_oor env) (Point (st ! a)), None) # padding_points r"
proof -
  let ?pt = "Point (st ! a)"
  obtain payload r where pl: "EncodeRequestMessage (se_oor env) [?pt] = Some (Inr payload)" "r < 8" "length payload \<le> 255"
      "payload_points payload = (pt_IoNumber ?pt, sent_value (se_oor env) ?pt, None) # padding_points r"
    using single_request [OF pt] by blast
  obtain dev key frame where f: "se_getDevice env (pt_DeviceUUID ?pt) = Inr dev" "getEncryptionKey (se_DefaultKey env) dev = Inr key"
      "Encrypt (se_mac env) address payload key LORARAW_OPTS_REQUEST i = Some (Inr frame)" "st' = SetMessage a i frame st"
    using prepareMessage_ok [OF p addr(1)] pl(1) by auto
  have key: "length key \<in> {16, 24, 32}"
    using f(3) by (auto simp: Encrypt_def NewCipher_def split: if_splits)
  let ?in = "inner_block payload LORARAW_OPTS_REQUEST i"
  obtain cm where cm: "length cm = 4" "Decrypt (se_mac env) (sealed_frame (se_mac env) key addr ?in) key = Some (Inr (addr @ ?in @ cm))"
    using Decrypt_sealed [OF mac key addr(3) inner_block_bounds(1,2)] by blast
  have fr: "frame = sealed_frame (se_mac env) key addr ?in" using Encrypt_seals [OF mac key addr(2)] f(3) by simp
  have st: "st' = update_item a (\<lambda>q. q\<lparr>MessageId := i, Message := Some frame\<rparr>) st" using f(4) by (simp add: SetMessage_def)
  have "take (length payload mod 256) payload = payload" using pl(3) by simp
  with strip_inner [OF addr(3) refl, of payload LORARAW_OPTS_REQUEST i cm]
  have "StripLoRaRAWPayload (addr @ ?in @ cm) = Some payload" "take 4 (addr @ ?in @ cm) = addr"
    "(addr @ ?in @ cm) ! 4 = LORARAW_OPTS_REQUEST" "(addr @ ?in @ cm) ! 5 = i" by simp_all
  with f(1,2) st cm(2) [folded fr] pl(2,4) show ?thesis by blast
qed

subsection \<open>A run\<close>

text \<open>One write to a device that never answers, with two attempts.\<close>

definition example_sched :: sched_env where
  "example_sched = \<lparr>se_DefaultKey = '''', se_mac = example_mac, se_oor = (\<lambda>_. 0),
     se_getDevice = (\<lambda>_. Inr (example_device\<lparr>dev_Model := ''UART'', dev_Manufacture := wire_hex (replicate 16 7)\<rparr>))\<rparr>"

definition example_write :: point where
  "example_write = (example_point ''UVP-4'' ''38'' (Fin 1))\<lparr>pt_AddressUUID := Some (wire_hex [0xc0, 0xff, 0xee, 1])\<rparr>"

definition example_item :: "byte list option \<Rightarrow> int \<Rightarrow> bool \<Rightarrow> pending_write" where
  "example_item msg k gone = \<lparr>MessageId = (if msg = None then 0 else 42), Message = msg, MessageType = False, Point = example_write,
     RetryCount = k, done_closed = gone, acked = False\<rparr>"

definition example_state :: "pc \<Rightarrow> pending_write \<Rightarrow> nat list \<Rightarrow> nat \<Rightarrow> (nat \<times> byte list) list \<Rightarrow> nat list \<Rightarrow> system" where
  "example_state p item q r sent given =
     \<lparr>mgr = \<lparr>mgr_store = [item], queues = [pt_DeviceUUID example_write \<mapsto> q], mgr_order = [pt_DeviceUUID example_write],
        rrIndex = r, maxRetry = 2, notify_full = False, stop_closed = False\<rparr>,
      pc_of = p, waking = 1, air = sent, gave_up = given, dropped = []\<rparr>"

lemmas example_defs = example_state_def example_item_def item_at_def scan_device_def scan_index_def Peek_def
  count_attempt_def IncRetry_def update_item_def give_up_def RemoveItem_def queue_of_def put_queue_def markDone_def
  SetMessage_def after_attempt_def Let_def

lemma example_writable_point: "writable_point example_write"
proof -
  have "writable_point (example_point ''UVP-4'' ''38'' (Fin 1))"
    using example_writable [of 38 "''38''" "''UVP-4''" 163] by (simp add: example_numbers)
  then show ?thesis by (auto simp: writable_point_def example_write_def split: option.splits sum.splits)
qed

lemma example_prepare_point:
  assumes "writable_point pt" "pt_AddressUUID pt = Some (wire_hex [0xc0, 0xff, 0xee, 1])"
  shows "\<exists>frame. prepareMessage example_sched 42 0 [new_item pt] = Some (Inr [(new_item pt)\<lparr>MessageId := 42, Message := Some frame\<rparr>])"
proof -
  let ?key = "replicate 16 7 :: byte list"
  obtain payload r where pl: "EncodeRequestMessage (\<lambda>_. 0) [pt] = Some (Inr payload)"
    using single_request [OF assms(1)] by blast
  have k: "length ?key \<in> {16, 24, 32}" by simp
  have e: "Encrypt example_mac (wire_hex [0xc0, 0xff, 0xee, 1]) payload ?key LORARAW_OPTS_REQUEST 42
      = Some (Inr (sealed_frame example_mac ?key [0xc0, 0xff, 0xee, 1] (inner_block payload LORARAW_OPTS_REQUEST 42)))"
    by (rule Encrypt_seals [OF example_mac_ok k]) simp
  have d: "GetDeviceDescription (example_device\<lparr>dev_Model := ''UART'', dev_Manufacture := wire_hex ?key\<rparr>) LoRaDeviceDescriptions
      = Some (rubix_desc ''UART'' DeviceModelUART False)"
    by (rule example_found(2))
  show ?thesis
    using pl e d assms(2)
    by (simp add: prepareMessage_def example_sched_def new_item_def deref_desc_def rubix_desc_def SetMessage_def update_item_def Let_def)
qed

lemma example_prepare:
  "\<exists>frame. prepareMessage example_sched 42 0 [example_item None 0 False] = Some (Inr [example_item (Some frame) 0 False])"
  using example_prepare_point [OF example_writable_point]
  by (simp add: example_write_def example_item_def new_item_def)

lemma reachable_step: "reachable env n s \<Longrightarrow> sched_step env s t \<Longrightarrow> reachable env n t"
  unfolding reachable_def by (rule rtranclp.rtrancl_into_rtrancl)

lemma example_enqueue:
  assumes "reachable env 2 ((start 2)\<lparr>pc_of := p\<rparr>)" "\<forall>i. p \<noteq> Scan i"
  shows "reachable env 2 (example_state p (example_item None 0 False) [0] 0 [] [])"
proof -
  let ?dev = "pt_DeviceUUID example_write" and ?s = "(start 2)\<lparr>pc_of := p\<rparr>"
  define s where "s = ?s\<lparr>mgr := snd (getOrCreateQueue ?dev (mgr ?s))\<rparr>"
  have "reachable env 2 s"
    unfolding s_def by (rule reachable_step [OF assms(1) sched_step.create]) (use assms(2) in simp)
  moreover have "sched_step env s (s\<lparr>mgr := append_point example_write [] (mgr s), waking := waking s + 1\<rparr>)"
    by (rule sched_step.append)
      (simp add: s_def start_def NewPointWriteQueueManager_def getOrCreateQueue_def NewPointWriteQueue_def)
  moreover have "s\<lparr>mgr := append_point example_write [] (mgr s), waking := waking s + 1\<rparr>
      = example_state p (example_item None 0 False) [0] 0 [] []"
    by (simp add: s_def start_def NewPointWriteQueueManager_def getOrCreateQueue_def NewPointWriteQueue_def append_point_def
        put_queue_def EnqueueWriteQueue_def new_item_def example_state_def example_item_def)
  ultimately show ?thesis by (metis reachable_step)
qed

lemma example_started: "reachable env 2 ((start 2)\<lparr>pc_of := Top\<rparr>)"
  by (simp add: reachable_def start_def)

lemmas example_queued = example_enqueue [OF example_started, simplified]

lemma example_idle: "reachable env 2 ((start 2)\<lparr>pc_of := WaitNotify\<rparr>)"
proof -
  have "reachable env 2 ((start 2)\<lparr>pc_of := Scan 0\<rparr>)"
    using reachable_step [OF example_started sched_step.scan_start] by (simp add: start_def)
  from reachable_step [OF this sched_step.scan_end [where i = 0]] show ?thesis
    by (simp add: start_def NewPointWriteQueueManager_def)
qed

lemmas example_waiting = example_enqueue [OF example_idle, simplified]

text \<open>From the top of the loop to the frame's turn, and a failed attempt.\<close>

lemma example_pick:
  assumes "reachable env 2 (example_state Top item [0] r sent given)"
  shows "reachable env 2 (example_state (Chosen (pt_DeviceUUID example_write) 0) item [0] 1 sent given)"
proof -
  have "reachable env 2 (example_state (Scan 0) item [0] r sent given)"
    using reachable_step [OF assms sched_step.scan_start] by (simp add: example_state_def)
  from reachable_step [OF this sched_step.scan_hit [where i = 0 and q = "[0]" and item = 0]] show ?thesis
    by (simp add: example_defs)
qed

lemma example_attempt:
  assumes "reachable example_sched 2 (example_state (Ready (pt_DeviceUUID example_write) 0) (example_item (Some f) k False) [0] r sent given)"
  shows "reachable example_sched 2
    (example_state (if k + 1 < 2 then Top else GivingUp (pt_DeviceUUID example_write) 0 False) (example_item (Some f) (k + 1) False)
      [0] r (sent @ [(0, f)]) given)"
proof -
  let ?dev = "pt_DeviceUUID example_write"
  have "reachable example_sched 2 (example_state (Await ?dev 0) (example_item (Some f) k False) [0] r (sent @ [(0, f)]) given)"
    using reachable_step [OF assms sched_step.sent [where dev = ?dev and item = 0 and frame = f]] by (simp add: example_defs)
  from reachable_step [OF this sched_step.timeout [where dev = ?dev and item = 0]]
  have f: "reachable example_sched 2 (example_state (Failed ?dev 0 False) (example_item (Some f) k False) [0] r (sent @ [(0, f)]) given)"
    by (simp add: example_state_def)
  show ?thesis
    using reachable_step [OF f sched_step.counted [where dev = ?dev and item = 0 and pause = False, OF _ surjective_pairing]]
    by (simp add: example_defs split: if_splits)
qed

lemma example_ready:
  "\<exists>f. reachable example_sched 2 (example_state (Ready (pt_DeviceUUID example_write) 0) (example_item (Some f) 0 False) [0] 1 [] [])"
proof -
  let ?dev = "pt_DeviceUUID example_write"
  obtain f where f: "prepareMessage example_sched 42 0 [example_item None 0 False] = Some (Inr [example_item (Some f) 0 False])"
    using example_prepare by blast
  have "reachable example_sched 2 (example_state (Ready ?dev 0) (example_item (Some f) 0 False) [0] 1 [] [])"
    using reachable_step [OF example_pick [OF example_queued]
        sched_step.prepared [where dev = ?dev and item = 0 and messageID = 42 and st = "[example_item (Some f) 0 False]"]] f
    by (simp add: example_state_def item_at_def example_item_def)
  then show ?thesis by blast
qed

text \<open>Two attempts with the same frame; then the write is given up.\<close>

lemma example_given_up:
  "\<exists>f. reachable example_sched 2 (example_state Top (example_item (Some f) 2 True) [] 1 [(0, f), (0, f)] [0])"
proof -
  let ?dev = "pt_DeviceUUID example_write"
  obtain f where "reachable example_sched 2 (example_state (Ready ?dev 0) (example_item (Some f) 0 False) [0] 1 [] [])"
    using example_ready by blast
  from example_pick [OF example_attempt [OF this, simplified]]
  have "reachable example_sched 2 (example_state (Chosen ?dev 0) (example_item (Some f) 1 False) [0] 1 [(0, f)] [])" by simp
  from reachable_step [OF this sched_step.again [where dev = ?dev and item = 0]]
  have "reachable example_sched 2 (example_state (Ready ?dev 0) (example_item (Some f) 1 False) [0] 1 [(0, f)] [])"
    by (simp add: example_state_def item_at_def example_item_def)
  from example_attempt [OF this]
  have g: "reachable example_sched 2 (example_state (GivingUp ?dev 0 False) (example_item (Some f) 2 False) [0] 1 [(0, f), (0, f)] [])" by simp
  let ?m = "mgr (example_state (GivingUp ?dev 0 False) (example_item (Some f) 2 False) [0] 1 [(0, f), (0, f)] [])"
  have "give_up ?dev 0 ?m = (Some example_write, mgr (example_state Top (example_item (Some f) 2 True) [] 1 [(0, f), (0, f)] [0]))"
    by (simp add: example_defs)
  from reachable_step [OF g sched_step.exhausted [OF _ this]]
  show ?thesis by (auto simp: example_state_def after_attempt_def)
qed

subsection \<open>Properties\<close>

text \<open>C8: However the scheduler, the receive path and the callers interleave, a queued write is put
  on the air at most \<open>maxRetry\<close> times (once if that is not positive), each time as the same frame,
  and its attempt counter never exceeds that bound.\<close>

theorem write_attempts_bounded:
  assumes "reachable env n s" "a < length (mgr_store (mgr s))"
  shows "int (count_list (map fst (air s)) a) \<le> max 1 n \<and> RetryCount (mgr_store (mgr s) ! a) \<le> max 1 n
    \<and> (\<forall>frame. (a, frame) \<in> set (air s) \<longrightarrow> Message (mgr_store (mgr s) ! a) = Some frame)"
  using accountedD(3,4) [OF reachable_accounted [OF assms(1)]] assms(2)
  by (auto simp: attempts_ok_def sends_def)

theorem write_attempts_bounded_witness:
  "\<exists>s. reachable example_sched 2 s \<and> count_list (map fst (air s)) 0 = 2
    \<and> int (count_list (map fst (air s)) 0) \<le> max 1 2 \<and> RetryCount (mgr_store (mgr s) ! 0) \<le> max 1 2"
proof -
  obtain f where r: "reachable example_sched 2 (example_state Top (example_item (Some f) 2 True) [] 1 [(0, f), (0, f)] [0])"
    using example_given_up by blast
  from write_attempts_bounded [OF r, of 0] r show ?thesis
    by (intro exI [of _ "example_state Top (example_item (Some f) 2 True) [] 1 [(0, f), (0, f)] [0]"]) (simp add: example_state_def)
qed

text \<open>C9: A write leaves its queue for exactly one reason: it is acknowledged, or given up (one call of
  \<^verbatim>\<open>onWriteExhausted\<close>, only after \<open>maxRetry\<close> counted attempts), or dropped because no frame can be
  built (then it was never sent); and it is still queued otherwise.\<close>

theorem write_outcome_unique:
  assumes "reachable env n s" "a < length (mgr_store (mgr s))"
  shows "(done_closed (mgr_store (mgr s) ! a) \<longleftrightarrow>
      acked (mgr_store (mgr s) ! a) \<or> a \<in> set (gave_up s) \<or> a \<in> set (dropped s))
    \<and> (acked (mgr_store (mgr s) ! a) \<longrightarrow> Message (mgr_store (mgr s) ! a) \<noteq> None \<and> a \<notin> set (gave_up s) \<and> a \<notin> set (dropped s))
    \<and> (a \<in> set (gave_up s) \<longrightarrow> n \<le> RetryCount (mgr_store (mgr s) ! a) \<and> a \<notin> set (dropped s))
    \<and> (a \<in> set (dropped s) \<longrightarrow> a \<notin> fst ` set (air s))
    \<and> distinct (gave_up s) \<and> distinct (dropped s)
    \<and> (\<not> done_closed (mgr_store (mgr s) ! a) \<longleftrightarrow>
         (\<exists>q. queues (mgr s) (device_of (mgr_store (mgr s)) a) = Some q \<and> a \<in> set q))"
proof -
  note ok = structuredD(1) [OF reachable_structured [OF assms(1)]]
  let ?p = "mgr_store (mgr s) ! a"
  note st = reachable_settled [OF assms(1)]
  have g: "a \<in> set (gave_up s) \<longleftrightarrow> given_up n ?p" "a \<in> set (dropped s) \<longleftrightarrow> undelivered ?p"
    using st assms(2) unfolding settled_def by simp_all
  have d: "distinct (gave_up s)" "distinct (dropped s)" using st by (simp_all add: settled_def)
  have o: "\<not> done_closed ?p \<and> \<not> acked ?p \<or> delivered ?p \<or> undelivered ?p \<or> given_up n ?p"
    using st assms(2) by (auto simp: settled_def pending_def Let_def)
  have u: "a \<notin> fst ` set (air s)" if "undelivered ?p"
    using accountedD(3) [OF reachable_accounted [OF assms(1)]] that by (fastforce simp: undelivered_def)
  have q: "\<not> done_closed ?p \<longleftrightarrow> (\<exists>q. queues (mgr s) (device_of (mgr_store (mgr s)) a) = Some q \<and> a \<in> set q)"
    using queues_ok_pending [OF ok assms(2)] queues_ok_mem [OF ok] by blast
  show ?thesis unfolding g using d o u q by (auto simp: outcome_defs)
qed

theorem write_outcome_unique_witness:
  "\<exists>s. reachable example_sched 2 s \<and> 0 \<in> set (gave_up s) \<and> \<not> acked (mgr_store (mgr s) ! 0) \<and> distinct (gave_up s)"
proof -
  obtain f where r: "reachable example_sched 2 (example_state Top (example_item (Some f) 2 True) [] 1 [(0, f), (0, f)] [0])"
    using example_given_up by blast
  from write_outcome_unique [OF r, of 0] r show ?thesis
    by (intro exI [of _ "example_state Top (example_item (Some f) 2 True) [] 1 [(0, f), (0, f)] [0]"]) (simp add: example_state_def)
qed

text \<open>C10: The writes of a device go on the air in the order they were queued: the frames sent for one
  device never go back to an earlier write, and a write is sent only after every earlier write
  of its device has left the queue.\<close>

theorem writes_in_order:
  assumes "reachable env n s" "i \<le> j" "j < length (air s)"
    and "device_of (mgr_store (mgr s)) (fst (air s ! i)) = device_of (mgr_store (mgr s)) (fst (air s ! j))"
  shows "fst (air s ! i) \<le> fst (air s ! j)
    \<and> (\<forall>a < fst (air s ! j). device_of (mgr_store (mgr s)) a = device_of (mgr_store (mgr s)) (fst (air s ! j))
         \<longrightarrow> done_closed (mgr_store (mgr s) ! a))"
proof -
  have o: "ordered s" by (rule reachable_ordered [OF assms(1)])
  then have s: "sorted_wrt (before (mgr_store (mgr s))) (map fst (air s))"
    by (simp add: ordered_def line_def sorted_wrt_append)
  have "fst (air s ! i) \<le> fst (air s ! j)"
  proof (cases "i = j")
    case False
    then have "before (mgr_store (mgr s)) (map fst (air s) ! i) (map fst (air s) ! j)"
      using s assms(2,3) by (simp add: sorted_wrt_iff_nth_less)
    then show ?thesis using assms(2-4) by (simp add: before_def)
  qed simp
  moreover have "fst (air s ! j) \<in> set (line s)" using assms(3) by (simp add: line_def)
  then have "fst (air s ! j) < length (mgr_store (mgr s))"
    "\<And>b. pending (mgr s) b \<Longrightarrow> before (mgr_store (mgr s)) (fst (air s ! j)) b"
    using o unfolding ordered_def by blast+
  moreover have "done_closed (mgr_store (mgr s) ! a)"
    if "a < fst (air s ! j)" "device_of (mgr_store (mgr s)) a = device_of (mgr_store (mgr s)) (fst (air s ! j))" for a
  proof (rule ccontr)
    assume "\<not> done_closed (mgr_store (mgr s) ! a)"
    then have "before (mgr_store (mgr s)) (fst (air s ! j)) a"
      using that(1) \<open>fst (air s ! j) < length (mgr_store (mgr s))\<close>
        \<open>\<And>b. pending (mgr s) b \<Longrightarrow> before (mgr_store (mgr s)) (fst (air s ! j)) b\<close> by (simp add: pending_def)
    then show False using that by (simp add: before_def)
  qed
  ultimately show ?thesis by blast
qed

theorem writes_in_order_witness:
  "\<exists>s. reachable example_sched 2 s \<and> length (air s) = 2 \<and> fst (air s ! 0) \<le> fst (air s ! 1)"
proof -
  obtain f where r: "reachable example_sched 2 (example_state Top (example_item (Some f) 2 True) [] 1 [(0, f), (0, f)] [0])"
    using example_given_up by blast
  from writes_in_order [OF r, of 0 1] r show ?thesis
    by (intro exI [of _ "example_state Top (example_item (Some f) 2 True) [] 1 [(0, f), (0, f)] [0]"]) (simp add: example_state_def)
qed

text \<open>C11: No wake-up is lost: whenever the scheduler waits on the notify channel while a write is
  pending, the channel holds a token, so that the scheduler's next step is back to the top of its
  loop, or a caller of \<^verbatim>\<open>EnqueuePoint\<close> is about to put one there.\<close>

theorem no_lost_wakeup:
  assumes "reachable env n s" "pc_of s = WaitNotify" "a < length (mgr_store (mgr s))" "\<not> done_closed (mgr_store (mgr s) ! a)"
  shows "sched_step env s (s\<lparr>mgr := (mgr s)\<lparr>notify_full := False\<rparr>, pc_of := Top\<rparr>)
    \<or> (\<exists>k. waking s = Suc k \<and> sched_step env s (s\<lparr>mgr := wake (mgr s), waking := k\<rparr>))"
proof -
  obtain q where "queues (mgr s) (device_of (mgr_store (mgr s)) a) = Some q" "a \<in> set q"
    using queues_ok_pending [OF structuredD(1) [OF reachable_structured [OF assms(1)]] assms(3,4)] by blast
  then have "queue_of (mgr s) (device_of (mgr_store (mgr s)) a) \<noteq> []" by (auto simp: queue_of_def)
  then have "roused s" using watchfulD(3) [OF reachable_watchful [OF assms(1)] assms(2)] by blast
  then show ?thesis
    using assms(2) by (auto simp: roused_def gr0_conv_Suc intro: sched_step.notified sched_step.wakes)
qed

theorem no_lost_wakeup_witness:
  "\<exists>s. reachable example_sched 2 s \<and> pc_of s = WaitNotify \<and> \<not> done_closed (mgr_store (mgr s) ! 0)
    \<and> (sched_step example_sched s (s\<lparr>mgr := (mgr s)\<lparr>notify_full := False\<rparr>, pc_of := Top\<rparr>)
       \<or> (\<exists>k. waking s = Suc k \<and> sched_step example_sched s (s\<lparr>mgr := wake (mgr s), waking := k\<rparr>)))"
proof -
  let ?s = "example_state WaitNotify (example_item None 0 False) [0] 0 [] []"
  have s: "pc_of ?s = WaitNotify" "0 < length (mgr_store (mgr ?s))" "\<not> done_closed (mgr_store (mgr ?s) ! 0)"
    by (simp_all add: example_state_def example_item_def)
  show ?thesis by (rule exI [of _ ?s]) (intro conjI example_waiting s no_lost_wakeup [OF example_waiting s])
qed

text \<open>C14: The scheduler goroutine panics in one way only: on a write to a device whose description has
  no request encoder (MicroEdge, Droplet and ZipHydroTap), whose nil function it calls.\<close>

theorem scheduler_panics_only:
  assumes "reachable env n s" "sched_step env s t" "pc_of t = Panicked" "pc_of s \<noteq> Panicked" "mac_ok (se_mac env)"
  shows "\<exists>dev_uuid a dev d. pc_of s = Chosen dev_uuid a \<and> se_getDevice env dev_uuid = Inr dev
    \<and> GetDeviceDescription dev LoRaDeviceDescriptions = Some d
    \<and> (\<not> IsLoRaRAW d \<or> Model d = DeviceModelZiptHydroTap)"
  using assms(2)
proof cases
  case (scan_panic i)
  then show ?thesis using scan_device_dom [OF structuredD(1) [OF reachable_structured [OF assms(1)]]] by fastforce
next
  case (prepare_panic dev item i)
  have "device_of (mgr_store (mgr s)) item = dev"
    using structuredD(3) [OF reachable_structured [OF assms(1)]] prepare_panic(2) by simp
  then have "pt_DeviceUUID (Point (mgr_store (mgr s) ! item)) = dev" by (simp add: device_of_def)
  with prepare_panic(5) obtain d0 d where d: "se_getDevice env dev = Inr d0" "GetDeviceDescription d0 LoRaDeviceDescriptions = Some d"
      "EncodeRequestMessage_of d = None"
    unfolding Write_Progress.prepare_panic [OF assms(5)] by blast
  have "d \<in> set LoRaDeviceDescriptions" using GetDeviceDescription_Some [OF d(2)] by simp
  then have "\<not> IsLoRaRAW d \<or> Model d = DeviceModelZiptHydroTap"
    using d(3) by (auto simp: registered_forms legacy_desc_def zht_desc_def rubix_desc_def)
  then show ?thesis using prepare_panic(2) d by blast
qed (use assms(3,4) in \<open>auto simp: after_attempt_def split: if_splits\<close>)

theorem scheduler_panics_only_witness:
  "\<exists>env s t. reachable env 2 s \<and> sched_step env s t \<and> pc_of t = Panicked
    \<and> (\<exists>dev d. GetDeviceDescription dev LoRaDeviceDescriptions = Some d \<and> (\<not> IsLoRaRAW d \<or> Model d = DeviceModelZiptHydroTap))"
proof -
  let ?dev = "example_device\<lparr>dev_Model := ''ZipHydroTap'', dev_Manufacture := wire_hex (replicate 16 7)\<rparr>"
  let ?env = "example_sched\<lparr>se_getDevice := (\<lambda>_. Inr ?dev)\<rparr>" and ?u = "pt_DeviceUUID example_write"
  let ?s = "example_state (Chosen ?u 0) (example_item None 0 False) [0] 1 [] []"
  have r: "reachable ?env 2 ?s" by (rule example_pick [OF example_queued])
  have mac: "mac_ok (se_mac ?env)" by (simp add: example_sched_def)
  have "prepareMessage ?env 0 0 [example_item None 0 False] = None"
    unfolding prepare_panic [OF mac] using example_found(3) by (auto simp: zht_desc_def)
  then have st: "sched_step ?env ?s (?s\<lparr>pc_of := Panicked\<rparr>)"
    by (intro sched_step.prepare_panic [where dev = ?u and item = 0 and messageID = 0])
      (simp_all add: example_state_def item_at_def example_item_def)
  have "pc_of (?s\<lparr>pc_of := Panicked\<rparr>) = Panicked" "pc_of ?s \<noteq> Panicked" by (simp_all add: example_state_def)
  from scheduler_panics_only [OF r st this mac] show ?thesis using r st by fastforce
qed

text \<open>C12: The round robin is fair: with the queues changing in any way between the picks, a device that
  keeps a pending write is picked within as many picks as there are devices.\<close>

theorem round_robin_fair:
  assumes "dev \<in> set (mgr_order m)" "length (mgr_order m) \<le> length Qs"
    and "\<forall>Q \<in> set Qs. dom Q = set (mgr_order m) \<and> (\<exists>a rest. Q dev = Some (a # rest))"
  shows "dev \<in> set (take (length (mgr_order m)) (picks m Qs))"
proof -
  obtain k where k: "k < length (mgr_order m)" "mgr_order m ! k = dev" using assms(1) by (auto simp: in_set_conv_nth)
  obtain j where j: "j < length (mgr_order m)" "scan_device m j = dev"
    using rotation_covers [OF k(1)] k(2) by (auto simp: scan_device_def)
  have "dev \<in> set (take (j + 1) (picks m Qs))"
    by (rule picked_within [OF assms(3) j]) (use j(1) assms(2) in simp)
  moreover have "set (take (j + 1) (picks m Qs)) \<subseteq> set (take (length (mgr_order m)) (picks m Qs))"
    by (rule set_take_subset_set_take) (use j(1) in simp)
  ultimately show ?thesis by blast
qed

theorem round_robin_fair_witness:
  "''b'' \<in> set (take 2 (picks ((NewPointWriteQueueManager 3)\<lparr>mgr_order := [''a'', ''b'']\<rparr>)
     (replicate 2 [''a'' \<mapsto> [0, 1], ''b'' \<mapsto> [2]])))"
  using round_robin_fair [of "''b''" "(NewPointWriteQueueManager 3)\<lparr>mgr_order := [''a'', ''b'']\<rparr>"
      "replicate 2 [''a'' \<mapsto> [0, 1], ''b'' \<mapsto> [2]]"]
  by (auto simp: eval_nat_numeral)

text \<open>C13: The frame the scheduler builds for a write says what was asked: the device decrypts it, under
  the key the look-up gives, to its own address, the REQUEST option, the message id the
  acknowledgement has to carry, and a payload that decodes to the written point alone (up to the
  padding); nothing else in the queue changes.\<close>

theorem prepared_request:
  assumes "mac_ok (se_mac env)" "prepareMessage env i a st = Some (Inr st')" "a < length st"
    and "writable_point (Point (st ! a))"
    and "pt_AddressUUID (Point (st ! a)) = Some address" "hex_decode address = (addr, None)" "length addr = 4"
  shows "\<exists>dev key frame dec payload r.
     se_getDevice env (pt_DeviceUUID (Point (st ! a))) = Inr dev \<and> getEncryptionKey (se_DefaultKey env) dev = Inr key
   \<and> st' = update_item a (\<lambda>q. q\<lparr>MessageId := i, Message := Some frame\<rparr>) st
   \<and> Decrypt (se_mac env) frame key = Some (Inr dec)
   \<and> take 4 dec = addr \<and> dec ! 4 = LORARAW_OPTS_REQUEST \<and> dec ! 5 = i
   \<and> StripLoRaRAWPayload dec = Some payload \<and> r < 8
   \<and> payload_points payload = (pt_IoNumber (Point (st ! a)), sent_value (se_oor env) (Point (st ! a)), None) # padding_points r"
  by (rule prepared_frame [OF assms])

theorem prepared_request_witness:
  "\<exists>st' frame dec payload (r :: nat). prepareMessage example_sched 42 0 [example_item None 0 False] = Some (Inr st')
    \<and> Message (st' ! 0) = Some frame \<and> Decrypt example_mac frame (replicate 16 7) = Some (Inr dec) \<and> dec ! 5 = 42
    \<and> StripLoRaRAWPayload dec = Some payload
    \<and> payload_points payload = (''UVP-4'', sent_value (\<lambda>_. 0) example_write, None) # padding_points r"
proof -
  obtain f where p: "prepareMessage example_sched 42 0 [example_item None 0 False] = Some (Inr [example_item (Some f) 0 False])"
    using example_prepare by blast
  have pt: "Point ([example_item None 0 False] ! 0) = example_write" by (simp add: example_item_def)
  have w: "writable_point (Point ([example_item None 0 False] ! 0))" unfolding pt by (rule example_writable_point)
  have a: "pt_AddressUUID (Point ([example_item None 0 False] ! 0)) = Some (wire_hex [0xc0, 0xff, 0xee, 1])"
    unfolding pt by (simp add: example_write_def)
  have mac: "mac_ok (se_mac example_sched)" by (simp add: example_sched_def)
  have io: "pt_IoNumber example_write = ''UVP-4''" by (simp add: example_write_def example_point_def)
  from prepared_request [OF mac p _ w a, of "[0xc0, 0xff, 0xee, 1]"] p io pt show ?thesis
    by (auto simp: example_sched_def update_item_def example_item_def)
qed

end
