(* ===== verification/Analog_Inputs.thy ===== *)
theory Analog_Inputs
  imports Device_Registry Rubix_Values
begin

text \<open>
  MicroEdgePointType of microedge.go: a raw MicroEdge input converted to the quantity its I/O type
  names.  The thermistor table is a third-party package and a parameter.  The conversions divide
  two computed values, so subtraction from a constant and IEEE division are added here.
\<close>

fun fl_csub :: "(rat \<Rightarrow> gofloat) \<Rightarrow> rat \<Rightarrow> gofloat \<Rightarrow> gofloat" where
  "fl_csub mk c (Fin x) = mk (c - x)"
| "fl_csub mk c NegZero = mk c"
| "fl_csub mk c (Inf neg) = Inf (\<not> neg)"
| "fl_csub mk c NaN = NaN"

fun fl_div :: "(rat \<Rightarrow> gofloat) \<Rightarrow> gofloat \<Rightarrow> gofloat \<Rightarrow> gofloat" where
  "fl_div mk (Fin x) (Fin y) =
     (if y = 0 then (if x = 0 then NaN else Inf (x < 0))
      else if x = 0 then (if y < 0 then NegZero else Fin 0)
      else mk (x / y))"
| "fl_div mk (Fin x) NegZero = (if x = 0 then NaN else Inf (0 < x))"
| "fl_div mk (Fin x) (Inf neg) = (if (x < 0) \<noteq> neg then NegZero else Fin 0)"
| "fl_div mk NegZero (Fin y) = (if y = 0 then NaN else if y < 0 then Fin 0 else NegZero)"
| "fl_div mk NegZero NegZero = NaN"
| "fl_div mk NegZero (Inf neg) = (if neg then Fin 0 else NegZero)"
| "fl_div mk (Inf neg) (Fin y) = Inf (neg \<noteq> (y < 0))"
| "fl_div mk (Inf neg) NegZero = Inf (\<not> neg)"
| "fl_div mk (Inf neg) (Inf neg') = NaN"
| "fl_div mk NaN v = NaN"
| "fl_div mk v NaN = NaN"

definition thermistor_resistance :: "gofloat \<Rightarrow> string \<Rightarrow> gofloat" where
  "thermistor_resistance value deviceModel =
     (if deviceModel = DeviceModelMicroEdgeV2 then
        (let v = fl_mulc mk_f64 (fl_divc mk_f64 value 1023) (r64 (329 / 100)) in
         fl_div mk_f64 (fl_mulc mk_f64 v 10000) (fl_csub mk_f64 (r64 (329 / 100)) v))
      else
        fl_div mk_f64 (fl_addc mk_f64 (fl_mulc mk_f64 value 16620) (- (1023 * 3300))) (fl_csub mk_f64 1023 value))"

definition MicroEdgePointType :: "(gofloat \<Rightarrow> gofloat) \<Rightarrow> io_type \<Rightarrow> gofloat \<Rightarrow> string \<Rightarrow> gofloat" where
  "MicroEdgePointType resistanceToTemperature pointType value deviceModel =
     (case pointType of
        IOTypeRAW \<Rightarrow> value
      | IOTypeDigital \<Rightarrow> if \<not> fl_ltc value 1000 \<and> value \<noteq> NaN then Fin 0 else Fin 1
      | IOTypeThermistor10K \<Rightarrow> resistanceToTemperature (thermistor_resistance value deviceModel)
      | IOTypeVoltageDC \<Rightarrow> fl_mulc mk_f64 (fl_divc mk_f64 value 1024) 10
      | _ \<Rightarrow> value)"

subsection \<open>Lemmas\<close>

lemma mk_f64_1024:
  assumes "\<bar>n\<bar> < 2 ^ 53"
  shows "mk_f64 (of_int n / 1024) = Fin (of_int n / 1024)"
proof -
  have n: "\<bar>of_int n :: rat\<bar> < 2 ^ 53" using assms by (metis of_int_abs of_int_less_iff of_int_numeral of_int_power)
  have "2 powi (- 10) = (1 / 1024 :: rat)" by (simp add: power_int_def field_simps)
  then have "(of_int n / 1024 :: rat) = of_int n * 2 powi (- 10)" by simp
  then have "rnd 53 (- 1074) (of_int n / 1024) = of_int n / 1024" by (rule rnd_exact [OF _ assms]) simp
  moreover have "\<bar>of_int n / 1024 :: rat\<bar> < 2 powi 1024"
  proof -
    have "\<bar>of_int n / 1024 :: rat\<bar> \<le> \<bar>of_int n\<bar>" by simp
    also note n
    also have "(2 ^ 53 :: rat) = 2 powi int 53" by (simp only: power_int_of_nat)
    also have "\<dots> \<le> 2 powi 1024" by (intro powi_le) simp
    finally show ?thesis .
  qed
  ultimately show ?thesis by (auto simp: mk_f64_def mk_float_def Let_def)
qed

text \<open>A voltage input is scaled exactly: ten volts are 1024 counts.\<close>

lemma microedge_voltage:
  assumes "\<bar>n\<bar> < 2 ^ 40"
  shows "MicroEdgePointType f IOTypeVoltageDC (Fin (of_int n)) m = Fin (of_int (10 * n) / 1024)"
proof -
  have "mk_f64 (of_int n / 1024) = Fin (of_int n / 1024)" "mk_f64 (of_int (10 * n) / 1024) = Fin (of_int (10 * n) / 1024)"
    by (rule mk_f64_1024; use assms in simp)+
  then show ?thesis by (simp add: MicroEdgePointType_def mult.commute)
qed

text \<open>At the top reading of the converter the resistance is infinite.\<close>

lemma thermistor_open_circuit:
  assumes "m \<noteq> DeviceModelMicroEdgeV2"
  shows "MicroEdgePointType f IOTypeThermistor10K (Fin 1023) m = f (Inf False)"
proof -
  have "mk_f64 (of_int 17002260) = Fin (of_int 17002260)" "mk_f64 (of_int 13626360) = Fin (of_int 13626360)" "mk_f64 (of_int 0) = Fin (of_int 0)"
    by (rule mk_f64_of_int; simp)+
  then show ?thesis using assms by (simp add: MicroEdgePointType_def thermistor_resistance_def)
qed

end
