(* ===== verification/Serial_Port.thy ===== *)
theory Serial_Port
  imports Go_Prelude Transitions "HOL-Library.Sublist"
begin

text \<open>
  The way out to the radio: the serial send queue of app.go (\<^verbatim>\<open>initWriteQueue\<close>, \<^verbatim>\<open>stopWriteQueue\<close>,
  \<^verbatim>\<open>getWriteQueue\<close>, \<^verbatim>\<open>processWriteQueue\<close>) and \<^verbatim>\<open>WriteToLoRaRaw\<close> of serial.go.

  A queue is a channel of capacity 100 with a done channel and a draining goroutine of its own; it
  is replaced, never reused, so channels are numbered and the current one is a number.  The port is
  a global that is nil until it is first opened, and whether a write to it succeeds is an argument.
\<close>

record channel =
  waiting :: "byte list list"
  done_chan :: bool
  draining :: bool

record serial_state =
  channels :: "channel list"
  writeQueue :: "nat option"
  Port :: bool
  on_port :: "(nat \<times> byte list) list"

subsection \<open>Operations\<close>

definition initWriteQueue :: "serial_state \<Rightarrow> serial_state" where
  "initWriteQueue s =
     (if writeQueue s \<noteq> None then s
      else s\<lparr>channels := channels s @ [\<lparr>waiting = [], done_chan = False, draining = True\<rparr>],
             writeQueue := Some (length (channels s))\<rparr>)"

definition stopWriteQueue :: "serial_state \<Rightarrow> serial_state" where
  "stopWriteQueue s =
     (case writeQueue s of
        None \<Rightarrow> s
      | Some i \<Rightarrow> s\<lparr>channels := (channels s)[i := (channels s ! i)\<lparr>done_chan := True\<rparr>], writeQueue := None\<rparr>)"

definition getWriteQueue :: "serial_state \<Rightarrow> nat option" where
  "getWriteQueue s = writeQueue s"

text \<open>The send waits up to a second for a free slot; a frame the drainer takes in that second is a
  drain before the call.\<close>

definition WriteToLoRaRaw :: "byte list \<Rightarrow> serial_state \<Rightarrow> goerr option \<times> serial_state" where
  "WriteToLoRaRaw data s =
     (let s = initWriteQueue s in
      if \<not> Port s then (Some (ErrMsg ''serial port not connected''), s)
      else case getWriteQueue s of
             None \<Rightarrow> (Some (ErrMsg ''write queue stopped''), s)
           | Some i \<Rightarrow>
               if length (waiting (channels s ! i)) < 100
               then (None, s\<lparr>channels := (channels s)[i := (channels s ! i)\<lparr>waiting := waiting (channels s ! i) @ [data]\<rparr>]\<rparr>)
               else (Some (ErrMsg ''write queue full, timeout after 1 second''), s))"

text \<open>One turn of \<^verbatim>\<open>processWriteQueue\<close> on channel \<open>i\<close>: a frame is taken and written, or lost when there
  is no port or the port refuses it.  When done is closed as well, either case may be chosen.\<close>

definition processWriteQueue :: "nat \<Rightarrow> bool \<Rightarrow> serial_state \<Rightarrow> serial_state" where
  "processWriteQueue i accepted s =
     (case waiting (channels s ! i) of
        [] \<Rightarrow> s
      | data # rest \<Rightarrow>
          (let s = s\<lparr>channels := (channels s)[i := (channels s ! i)\<lparr>waiting := rest\<rparr>]\<rparr> in
           if \<not> Port s then s
           else if accepted then s\<lparr>on_port := on_port s @ [(i, data)]\<rparr> else s))"

definition drainer_ends :: "nat \<Rightarrow> serial_state \<Rightarrow> serial_state" where
  "drainer_ends i s = s\<lparr>channels := (channels s)[i := (channels s ! i)\<lparr>draining := False\<rparr>]\<rparr>"

text \<open>A call starts a queue when there is none, so a stopped queue is never reported, and a frame that is
  sent after a stop brings the queue back.\<close>

lemma write_never_stopped:
  "fst (WriteToLoRaRaw data s) \<noteq> Some (ErrMsg ''write queue stopped'')" "writeQueue (snd (WriteToLoRaRaw data s)) \<noteq> None"
  by (auto simp: WriteToLoRaRaw_def initWriteQueue_def getWriteQueue_def Let_def split: option.split)

subsection \<open>Interleavings\<close>

text \<open>\<open>accepted\<close> records the frames the queue took, with their channel.\<close>

record serial_run =
  serial :: serial_state
  accepted :: "(nat \<times> byte list) list"

inductive serial_step :: "serial_run \<Rightarrow> serial_run \<Rightarrow> bool" where
  starts: "serial_step r (r\<lparr>serial := initWriteQueue (serial r)\<rparr>)"
| stopped: "serial_step r (r\<lparr>serial := stopWriteQueue (serial r)\<rparr>)"
| opened: "serial_step r (r\<lparr>serial := (serial r)\<lparr>Port := True\<rparr>\<rparr>)"
| taken: "WriteToLoRaRaw data (serial r) = (None, s) \<Longrightarrow> writeQueue s = Some i \<Longrightarrow>
     serial_step r (r\<lparr>serial := s, accepted := accepted r @ [(i, data)]\<rparr>)"
| refused: "WriteToLoRaRaw data (serial r) = (Some err, s) \<Longrightarrow> serial_step r (r\<lparr>serial := s\<rparr>)"
| drained: "i < length (channels (serial r)) \<Longrightarrow> draining (channels (serial r) ! i) \<Longrightarrow>
     serial_step r (r\<lparr>serial := processWriteQueue i ok (serial r)\<rparr>)"
| ended: "i < length (channels (serial r)) \<Longrightarrow> done_chan (channels (serial r) ! i) \<Longrightarrow>
     serial_step r (r\<lparr>serial := drainer_ends i (serial r)\<rparr>)"

definition serial_start :: serial_run where
  "serial_start = \<lparr>serial = \<lparr>channels = [], writeQueue = None, Port = False, on_port = []\<rparr>, accepted = []\<rparr>"

definition of_channel :: "nat \<Rightarrow> (nat \<times> byte list) list \<Rightarrow> byte list list" where
  "of_channel i xs = map snd (filter (\<lambda>x. fst x = i) xs)"

lemma of_channel_append [simp]: "of_channel i (xs @ ys) = of_channel i xs @ of_channel i ys"
  by (simp add: of_channel_def)

lemma of_channel_single: "of_channel i [(j, d)] = (if i = j then [d] else [])"
  by (simp add: of_channel_def)

text \<open>What is on the port and still waiting is, per channel, a subsequence of what was accepted.\<close>

definition serial_ok :: "serial_run \<Rightarrow> bool" where
  "serial_ok r \<longleftrightarrow>
     (\<forall>i. writeQueue (serial r) = Some i \<longrightarrow> i < length (channels (serial r)) \<and> \<not> done_chan (channels (serial r) ! i)
        \<and> draining (channels (serial r) ! i)) \<and>
     (\<forall>i < length (channels (serial r)). length (waiting (channels (serial r) ! i)) \<le> 100 \<and>
        (\<exists>gone. of_channel i (accepted r) = gone @ waiting (channels (serial r) ! i) \<and> subseq (of_channel i (on_port (serial r))) gone) \<and>
        (\<not> draining (channels (serial r) ! i) \<longrightarrow> done_chan (channels (serial r) ! i))) \<and>
     (\<forall>i \<ge> length (channels (serial r)). of_channel i (accepted r) = [] \<and> of_channel i (on_port (serial r)) = [])"

lemma serial_ok_init:
  assumes "serial_ok r"
  shows "serial_ok (r\<lparr>serial := initWriteQueue (serial r)\<rparr>)"
proof (cases "writeQueue (serial r)")
  case None
  then show ?thesis using assms
    by (auto simp: serial_ok_def initWriteQueue_def nth_append less_Suc_eq)
qed (use assms in \<open>simp add: initWriteQueue_def\<close>)

lemma serial_ok_step:
  assumes "serial_step r t" "serial_ok r"
  shows "serial_ok t"
  using assms(1)
proof cases
  case starts
  then show ?thesis using serial_ok_init [OF assms(2)] by simp
next
  case stopped
  then show ?thesis using assms(2)
    by (auto simp: serial_ok_def stopWriteQueue_def nth_list_update split: option.split)
next
  case opened
  then show ?thesis using assms(2) by (simp add: serial_ok_def)
next
  case (taken data s i)
  have s1: "serial_ok (r\<lparr>serial := initWriteQueue (serial r)\<rparr>)" by (rule serial_ok_init [OF assms(2)])
  let ?s = "initWriteQueue (serial r)"
  have i: "writeQueue ?s = Some i" "length (waiting (channels ?s ! i)) < 100"
    "s = ?s\<lparr>channels := (channels ?s)[i := (channels ?s ! i)\<lparr>waiting := waiting (channels ?s ! i) @ [data]\<rparr>]\<rparr>"
    using taken by (auto simp: WriteToLoRaRaw_def Let_def getWriteQueue_def split: if_splits option.splits)
  have "length (waiting (channels ?s ! i)) \<le> 99" using i(2) by simp
  then show ?thesis using s1 unfolding serial_ok_def taken(1) i(3)
    by (auto simp: i(1) nth_list_update of_channel_single)
next
  case (refused data err s)
  have "s = initWriteQueue (serial r)"
    using refused by (auto simp: WriteToLoRaRaw_def Let_def split: if_splits option.splits)
  then show ?thesis using serial_ok_init [OF assms(2)] refused by simp
next
  case (drained i ok)
  show ?thesis
  proof (cases "waiting (channels (serial r) ! i)")
    case Nil
    then show ?thesis using drained assms(2) by (simp add: processWriteQueue_def)
  next
    case (Cons d rest)
    obtain gone where g: "of_channel i (accepted r) = gone @ d # rest" "subseq (of_channel i (on_port (serial r))) gone"
      using assms(2) drained(2) Cons unfolding serial_ok_def by metis
    have "subseq (of_channel i (on_port (serial r))) (gone @ [d])" "subseq (of_channel i (on_port (serial r)) @ [d]) (gone @ [d])"
      using g(2) by (auto intro: subseq_rev_drop_many list_emb_append_mono)
    then show ?thesis using assms(2) drained Cons g(1) unfolding serial_ok_def
      by (auto simp: processWriteQueue_def Let_def nth_list_update of_channel_single)
  qed
next
  case (ended i)
  then show ?thesis using assms(2)
    by (auto simp: serial_ok_def drainer_ends_def nth_list_update)
qed

lemma serial_ok_start: "serial_ok serial_start"
  by (simp add: serial_ok_def serial_start_def of_channel_def)

interpretation serial_inv: inductive_invariant serial_step "\<lambda>r. r = serial_start" serial_ok
  by unfold_locales (auto simp: serial_ok_start intro: serial_ok_step)

subsection \<open>Properties\<close>

text \<open>C19: Through every start and stop of the send queue, the frames of a channel reach the port in the
  order they were accepted, each at most once; at most a hundred of them wait; and the current
  channel is never a closed one.\<close>

theorem serial_frames_in_order:
  assumes "serial_step\<^sup>*\<^sup>* serial_start r"
  shows "subseq (of_channel i (on_port (serial r))) (of_channel i (accepted r))
    \<and> (i < length (channels (serial r)) \<longrightarrow> length (waiting (channels (serial r) ! i)) \<le> 100)
    \<and> (writeQueue (serial r) = Some i \<longrightarrow> \<not> done_chan (channels (serial r) ! i) \<and> draining (channels (serial r) ! i))"
proof -
  have ok: "serial_ok r" by (rule serial_inv.holds [OF assms refl])
  have "subseq (of_channel i (on_port (serial r))) (of_channel i (accepted r))"
  proof (cases "i < length (channels (serial r))")
    case True
    then obtain gone where "of_channel i (accepted r) = gone @ waiting (channels (serial r) ! i)"
        "subseq (of_channel i (on_port (serial r))) gone"
      using ok unfolding serial_ok_def by blast
    then show ?thesis by (simp add: list_emb_prefix)
  qed (use ok in \<open>simp add: serial_ok_def\<close>)
  then show ?thesis using ok unfolding serial_ok_def by blast
qed

theorem serial_frames_in_order_witness:
  "\<exists>r. serial_step\<^sup>*\<^sup>* serial_start r \<and> on_port (serial r) = [(0, [1])] \<and> accepted r = [(0, [1]), (0, [2])]
    \<and> subseq (of_channel 0 (on_port (serial r))) (of_channel 0 (accepted r))"
proof -
  let ?s1 = "serial_start\<lparr>serial := (serial serial_start)\<lparr>Port := True\<rparr>\<rparr>"
  let ?ch = "\<lambda>w. \<lparr>waiting = w, done_chan = False, draining = True\<rparr>"
  let ?s = "\<lambda>w p a. \<lparr>serial = \<lparr>channels = [?ch w], writeQueue = Some 0, Port = True, on_port = p\<rparr>, accepted = a\<rparr>"
  have "serial_step serial_start ?s1" by (rule serial_step.opened)
  moreover have "serial_step ?s1 (?s [[1]] [] [(0, [1])])"
    using serial_step.taken [of "[1]" ?s1 _ 0]
    by (simp add: serial_start_def WriteToLoRaRaw_def initWriteQueue_def getWriteQueue_def Let_def)
  moreover have "serial_step (?s [[1]] [] [(0, [1])]) (?s [[1], [2]] [] [(0, [1]), (0, [2])])"
    using serial_step.taken [of "[2]" "?s [[1]] [] [(0, [1])]" _ 0]
    by (simp add: WriteToLoRaRaw_def initWriteQueue_def getWriteQueue_def Let_def)
  moreover have "serial_step (?s [[1], [2]] [] [(0, [1]), (0, [2])]) (?s [[2]] [(0, [1])] [(0, [1]), (0, [2])])"
    using serial_step.drained [of 0 "?s [[1], [2]] [] [(0, [1]), (0, [2])]" True]
    by (simp add: processWriteQueue_def Let_def)
  ultimately have r: "serial_step\<^sup>*\<^sup>* serial_start (?s [[2]] [(0, [1])] [(0, [1]), (0, [2])])"
    by (meson rtranclp.rtrancl_into_rtrancl rtranclp.rtrancl_refl)
  from serial_frames_in_order [OF r, of 0] r show ?thesis by fastforce
qed

end
