(* ===== verification/Db_Writer.thy ===== *)
theory Db_Writer
  imports Point_Store Write_Progress Analog_Inputs Serial_Port
begin

text \<open>
  dbWriter.go: what the callbacks of the decoders do to the data base and the write queues.  A
  decoded value is written to the point of the device with its I/O number, which is created when it
  is missing; a response takes the write it acknowledges out of its device's queue.
\<close>

text \<open>The state of the module: the data base, the fields of \<^verbatim>\<open>Module\<close> that change, and the values
  \<^verbatim>\<open>handleSerialPayload\<close> collects for MQTT.\<close>

record 'g module =
  md_grpc :: 'g
  md_networkUUID :: string
  md_manager :: "manager option"
  md_serial :: serial_state
  md_mqtt :: "mqtt_client option"
  md_collected :: "string \<rightharpoonup> gofloat"

subsection \<open>The points of UART devices\<close>

record uartPointConfig =
  uc_Name :: string
  uc_DataType :: string
  uc_WriteMode :: write_mode
  uc_HistoryEnable :: bool
  uc_HistoryType :: history_type
  uc_HistoryInterval :: int
  uc_HistoryCOVThreshold :: gofloat

definition uart_config :: "string \<Rightarrow> string \<Rightarrow> write_mode \<Rightarrow> bool \<Rightarrow> history_type \<Rightarrow> int \<Rightarrow> uartPointConfig" where
  "uart_config name dtype mode hist histType interval = \<lparr>uc_Name = name, uc_DataType = dtype, uc_WriteMode = mode,
     uc_HistoryEnable = hist, uc_HistoryType = histType, uc_HistoryInterval = interval,
     uc_HistoryCOVThreshold = mk_f64 (1 / 100)\<rparr>"

definition uart_configs :: "(string \<times> uartPointConfig) list" where
  "uart_configs =
     [(''1'', uart_config ''Communication Status'' ''30'' ReadOnly True HistoryTypeCovAndInterval 60),
      (''2'', uart_config ''Unit Type'' ''30'' ReadOnly False HistoryTypeInterval 15),
      (''3'', uart_config ''Has Economy'' ''38'' ReadOnly False HistoryTypeInterval 15),
      (''10'', uart_config ''Has Mode Cool'' ''38'' ReadOnly False HistoryTypeInterval 15),
      (''11'', uart_config ''Has Mode Dry'' ''38'' ReadOnly False HistoryTypeInterval 15),
      (''12'', uart_config ''Has Mode Fan'' ''38'' ReadOnly False HistoryTypeInterval 15),
      (''13'', uart_config ''Has Mode Heat'' ''38'' ReadOnly False HistoryTypeInterval 15),
      (''14'', uart_config ''Has Mode Auto'' ''38'' ReadOnly False HistoryTypeInterval 15),
      (''15'', uart_config ''Has Fan Auto'' ''38'' ReadOnly False HistoryTypeInterval 15),
      (''16'', uart_config ''Has Fan High'' ''38'' ReadOnly False HistoryTypeInterval 15),
      (''17'', uart_config ''Has Fan Medium'' ''38'' ReadOnly False HistoryTypeInterval 15),
      (''18'', uart_config ''Has Fan Low'' ''38'' ReadOnly False HistoryTypeInterval 15),
      (''19'', uart_config ''Has Fan Quiet'' ''38'' ReadOnly False HistoryTypeInterval 15),
      (''20'', uart_config ''Vertical Louver Step Count'' ''30'' ReadOnly False HistoryTypeInterval 15),
      (''21'', uart_config ''Has Vertical Louver Swing'' ''38'' ReadOnly False HistoryTypeInterval 15),
      (''22'', uart_config ''Vertical Louver 1 Step Count'' ''30'' ReadOnly False HistoryTypeInterval 15),
      (''23'', uart_config ''Has Vertical Louver 1 Swing'' ''38'' ReadOnly False HistoryTypeInterval 15),
      (''24'', uart_config ''Vertical Louver 2 Step Count'' ''30'' ReadOnly False HistoryTypeInterval 15),
      (''25'', uart_config ''Has Vertical Louver 2 Swing'' ''38'' ReadOnly False HistoryTypeInterval 15),
      (''26'', uart_config ''Vertical Louver 3 Step Count'' ''30'' ReadOnly False HistoryTypeInterval 15),
      (''27'', uart_config ''Has Vertical Louver 3 Swing'' ''38'' ReadOnly False HistoryTypeInterval 15),
      (''28'', uart_config ''Vertical Louver 4 Step Count'' ''30'' ReadOnly False HistoryTypeInterval 15),
      (''29'', uart_config ''Has Vertical Louver 4 Swing'' ''38'' ReadOnly False HistoryTypeInterval 15),
      (''30'', uart_config ''Horizontal Louver Step Count'' ''30'' ReadOnly False HistoryTypeInterval 15),
      (''31'', uart_config ''Has Horizontal Louver Swing'' ''38'' ReadOnly False HistoryTypeInterval 15),
      (''32'', uart_config ''Horizontal Louver 1 Step Count'' ''30'' ReadOnly False HistoryTypeInterval 15),
      (''33'', uart_config ''Has Horizontal Louver 1 Swing'' ''38'' ReadOnly False HistoryTypeInterval 15),
      (''34'', uart_config ''Horizontal Louver 2 Step Count'' ''30'' ReadOnly False HistoryTypeInterval 15),
      (''35'', uart_config ''Has Horizontal Louver 2 Swing'' ''38'' ReadOnly False HistoryTypeInterval 15),
      (''36'', uart_config ''Horizontal Louver 3 Step Count'' ''30'' ReadOnly False HistoryTypeInterval 15),
      (''37'', uart_config ''Has Horizontal Louver 3 Swing'' ''38'' ReadOnly False HistoryTypeInterval 15),
      (''38'', uart_config ''Horizontal Louver 4 Step Count'' ''30'' ReadOnly False HistoryTypeInterval 15),
      (''39'', uart_config ''Has Horizontal Louver 4 Swing'' ''38'' ReadOnly False HistoryTypeInterval 15),
      (''40'', uart_config ''Set Operation Status'' ''38'' WriteAlways True HistoryTypeCovAndInterval 15),
      (''41'', uart_config ''Set Operation Mode'' ''30'' WriteAlways True HistoryTypeCovAndInterval 15),
      (''42'', uart_config ''Set Temperature'' ''1'' WriteAlways True HistoryTypeCovAndInterval 15),
      (''43'', uart_config ''Set Fan'' ''30'' WriteAlways True HistoryTypeCovAndInterval 15),
      (''44'', uart_config ''Vertical Louver Current Position'' ''30'' WriteAlways True HistoryTypeCovAndInterval 15),
      (''45'', uart_config ''Vertical Louver Swing'' ''38'' WriteAlways True HistoryTypeCovAndInterval 15),
      (''46'', uart_config ''Vertical Louver 1 Current Position'' ''30'' WriteAlways True HistoryTypeCovAndInterval 15),
      (''47'', uart_config ''Verticle Louver 1 Swing'' ''38'' WriteAlways True HistoryTypeCovAndInterval 15),
      (''48'', uart_config ''Vertical Louver 2 Current Position'' ''30'' WriteAlways True HistoryTypeCovAndInterval 15),
      (''49'', uart_config ''Verticle Louver 2 Swing'' ''38'' WriteAlways True HistoryTypeCovAndInterval 15),
      (''50'', uart_config ''Vertical Louver 3 Current Position'' ''30'' WriteAlways True HistoryTypeCovAndInterval 15),
      (''51'', uart_config ''Verticle Louver 3 Swing'' ''38'' WriteAlways True HistoryTypeCovAndInterval 15),
      (''52'', uart_config ''Vertical Louver 4 Current Position'' ''30'' WriteAlways True HistoryTypeCovAndInterval 15),
      (''53'', uart_config ''Verticle Louver 4 Swing'' ''38'' WriteAlways True HistoryTypeCovAndInterval 15),
      (''54'', uart_config ''Horizontal Louver Current Position'' ''30'' WriteAlways True HistoryTypeCovAndInterval 15),
      (''55'', uart_config ''Horizontal Louver Swing'' ''38'' WriteAlways True HistoryTypeCovAndInterval 15),
      (''56'', uart_config ''Room Temperature'' ''1'' ReadOnly True HistoryTypeInterval 15),
      (''57'', uart_config ''Error State'' ''32'' ReadOnly True HistoryTypeCovAndInterval 60),
      (''58'', uart_config ''Error Code'' ''32'' ReadOnly True HistoryTypeCovAndInterval 60),
      (''59'', uart_config ''Set Economy'' ''38'' WriteAlways True HistoryTypeCovAndInterval 15)]"

definition getUARTPointConfig :: "string \<Rightarrow> uartPointConfig option" where
  "getUARTPointConfig pointID = map_of uart_configs pointID"

definition uart_key :: "string \<Rightarrow> string" where
  "uart_key pointIDStr =
     (let parts = split_on (CHR ''-'') pointIDStr in if length parts = 2 then parts ! 1 else pointIDStr)"

definition setNewPointFieldsUART :: "'g module_env \<Rightarrow> device \<Rightarrow> point \<Rightarrow> string \<Rightarrow> point" where
  "setNewPointFieldsUART env deviceBody pointBody pointIDStr =
     (let configKey = uart_key pointIDStr in
      case getUARTPointConfig configKey of
        None \<Rightarrow>
          (let pt = setNewPointFields env deviceBody pointBody pointIDStr in
           if pointIDStr = RssiField \<or> pointIDStr = SnrField then setUARTCommonHistory pt else pt)
      | Some c \<Rightarrow>
          (let pt = pointBody\<lparr>pt_Enable := Some True, pt_Name := uc_Name c, pt_IoNumber := pointIDStr\<rparr>;
               pt = (case atoi configKey of Inl err \<Rightarrow> pt | Inr i \<Rightarrow> pt\<lparr>pt_AddressID := Some i\<rparr>)
           in pt\<lparr>pt_DataType := uc_DataType c, pt_WriteMode := uc_WriteMode c,
                pt_EnableWriteable := Some (IsWriteable (uc_WriteMode c)), pt_HistoryEnable := Some (uc_HistoryEnable c),
                pt_HistoryType := uc_HistoryType c, pt_HistoryInterval := Some (uc_HistoryInterval c),
                pt_HistoryCOVThreshold := Some (uc_HistoryCOVThreshold c), pt_DeviceUUID := dev_UUID deviceBody,
                pt_AddressUUID := dev_AddressUUID deviceBody, pt_IsOutput := Some False, pt_ThingType := ''point''\<rparr>))"

subsection \<open>Creating a point for a value\<close>

definition savePoint :: "'g module_env \<Rightarrow> point \<Rightarrow> ('g, point) call" where
  "savePoint env pt g = addPoint env (pt\<lparr>pt_EnableWriteable := Some False\<rparr>) g"

definition point_from_name :: "'g module_env \<Rightarrow> device \<Rightarrow> string \<Rightarrow> lora_desc option \<Rightarrow> point" where
  "point_from_name env deviceBody pointIDStr devDesc =
     (if (case devDesc of None \<Rightarrow> False | Some d \<Rightarrow> Model d = DeviceModelUART)
      then setNewPointFieldsUART env deviceBody zero_point pointIDStr
      else setNewPointFields env deviceBody zero_point pointIDStr)"

definition addPointFromName :: "'g module_env \<Rightarrow> device \<Rightarrow> string \<Rightarrow> lora_desc option \<Rightarrow> ('g, point) call" where
  "addPointFromName env deviceBody pointIDStr devDesc g =
     savePoint env ((point_from_name env deviceBody pointIDStr devDesc)\<lparr>pt_EnableWriteable := Some False\<rparr>) g"

definition selectPointByIoNumber :: "string \<Rightarrow> device \<Rightarrow> point option" where
  "selectPointByIoNumber ioNumber device = find (\<lambda>pnt. pt_IoNumber pnt = ioNumber) (dev_Points device)"

subsection \<open>Writing values\<close>

definition error_of :: "(goerr + 'r) \<times> 'g \<Rightarrow> goerr option \<times> 'g" where
  "error_of r = (case r of (Inl err, g) \<Rightarrow> (Some err, g) | (Inr _, g) \<Rightarrow> (None, g))"

definition updatePointValueSuccess :: "'g module_env \<Rightarrow> point \<Rightarrow> gofloat \<Rightarrow> string \<Rightarrow> 'g \<Rightarrow> goerr option \<times> 'g" where
  "updatePointValueSuccess env pnt value deviceModel g =
     (let value = (if pt_IoType pnt \<noteq> IOTypeNone \<and> pt_IoType pnt \<noteq> IOTypeRAW
                   then MicroEdgePointType (me_ResistanceToTemperature env) (pt_IoType pnt) value deviceModel else value)
      in error_of (g_PointWrite (me_grpc env) (pt_UUID pnt)
           (zero_writer\<lparr>pw_OriginalValue := Some value, pw_Priority := Some [(''_16'', value)]\<rparr>) g))"

definition updatePointValueError :: "'g module_env \<Rightarrow> point \<Rightarrow> goerr \<Rightarrow> 'g \<Rightarrow> goerr option \<times> 'g" where
  "updatePointValueError env pnt err g =
     error_of (g_PointWrite (me_grpc env) (pt_UUID pnt) (zero_writer\<lparr>pw_Message := Some err, pw_Fault := True\<rparr>) g)"

text \<open>
  The address of the device is formatted before the point is created, so a device without one is a
  nil pointer panic.  The point that is created is not added to \<open>device.Points\<close>.
\<close>

definition updateDevicePoint ::
  "'g module_env \<Rightarrow> string \<Rightarrow> gofloat \<Rightarrow> goerr option \<Rightarrow> device \<Rightarrow> lora_desc option \<Rightarrow> 'g \<Rightarrow> (goerr option \<times> 'g) option" where
  "updateDevicePoint env pointIDStr value err device devDesc g = do {
     (pnt, g) \<leftarrow>
       (case selectPointByIoNumber pointIDStr device of
          Some pnt \<Rightarrow> Some (Inr pnt, g)
        | None \<Rightarrow> do {
            _ \<leftarrow> dev_AddressUUID device;
            Some (addPointFromName env device pointIDStr devDesc g) });
     (case pnt of
        Inl err \<Rightarrow> Some (Some err, g)
      | Inr pnt \<Rightarrow>
          Some (case err of
                  Some err \<Rightarrow> updatePointValueError env pnt err g
                | None \<Rightarrow> updatePointValueSuccess env pnt value (dev_Model device) g)) }"

definition updateDevicePointSuccess ::
  "'g module_env \<Rightarrow> string \<Rightarrow> gofloat \<Rightarrow> device \<Rightarrow> lora_desc option \<Rightarrow> 'g \<Rightarrow> (goerr option \<times> 'g) option" where
  "updateDevicePointSuccess env pointIDStr value device devDesc g =
     updateDevicePoint env pointIDStr value None device devDesc g"

definition updateDevicePointError ::
  "'g module_env \<Rightarrow> string \<Rightarrow> goerr \<Rightarrow> device \<Rightarrow> lora_desc option \<Rightarrow> 'g \<Rightarrow> (goerr option \<times> 'g) option" where
  "updateDevicePointError env pointIDStr err device devDesc g =
     updateDevicePoint env pointIDStr (Fin 0) (Some err) device devDesc g"

definition updateDeviceMetaTags :: "'g module_env \<Rightarrow> string \<Rightarrow> meta_tag list \<Rightarrow> 'g \<Rightarrow> goerr option \<times> 'g" where
  "updateDeviceMetaTags env uuid metaTags g = g_UpsertDeviceMetaTags (me_grpc env) uuid metaTags g"

definition updateDeviceFault :: "'g module_env \<Rightarrow> string \<Rightarrow> 'g \<Rightarrow> 'g" where
  "updateDeviceFault env deviceUUID g =
     g_UpdateDeviceFault (me_grpc env) deviceUUID \<lparr>InFault = False, fault_Message = None\<rparr> g"

subsection \<open>Responses to writes\<close>

definition updateWrittenPointSuccess :: "'g module_env \<Rightarrow> point \<Rightarrow> 'g \<Rightarrow> goerr option \<times> 'g" where
  "updateWrittenPointSuccess env pt g =
     error_of (g_PointWrite (me_grpc env) (pt_UUID pt)
       (zero_writer\<lparr>pw_OriginalValue := pt_WriteValue pt, pw_PollState := PointStateWriteOk\<rparr>) g)"

definition updateWrittenPointError :: "'g module_env \<Rightarrow> point \<Rightarrow> goerr \<Rightarrow> 'g \<Rightarrow> goerr option \<times> 'g" where
  "updateWrittenPointError env pt err g =
     error_of (g_PointWrite (me_grpc env) (pt_UUID pt)
       (zero_writer\<lparr>pw_OriginalValue := pt_OriginalValue pt, pw_Message := Some err, pw_Fault := True,
          pw_PollState := PointStateApiWriteFailed\<rparr>) g)"

text \<open>The name and value of the response are not looked at; a module that is not enabled has no queue
  manager and panics.\<close>

definition updateDeviceWrittenPoint ::
  "'g module_env \<Rightarrow> string \<Rightarrow> gofloat \<Rightarrow> goerr option \<Rightarrow> byte \<Rightarrow> device \<Rightarrow> 'g module \<Rightarrow> (goerr option \<times> 'g module) option" where
  "updateDeviceWrittenPoint env pointIDStr value err messageId device md =
     (case md_manager md of
        None \<Rightarrow> None
      | Some wm \<Rightarrow>
          (case manager_DequeueUsingMessageId (dev_UUID device) messageId wm of
             (None, wm) \<Rightarrow> Some (None, md\<lparr>md_manager := Some wm\<rparr>)
           | (Some pt, wm) \<Rightarrow>
               (let g = snd (case err of Some err \<Rightarrow> updateWrittenPointError env pt err (md_grpc md)
                                       | None \<Rightarrow> updateWrittenPointSuccess env pt (md_grpc md))
                in Some (None, md\<lparr>md_manager := Some wm, md_grpc := g\<rparr>))))"

definition updateDeviceWrittenPointSuccess ::
  "'g module_env \<Rightarrow> string \<Rightarrow> gofloat \<Rightarrow> byte \<Rightarrow> device \<Rightarrow> 'g module \<Rightarrow> (goerr option \<times> 'g module) option" where
  "updateDeviceWrittenPointSuccess env pointIDStr value messageId device md =
     updateDeviceWrittenPoint env pointIDStr value None messageId device md"

definition updateDeviceWrittenPointError ::
  "'g module_env \<Rightarrow> string \<Rightarrow> goerr \<Rightarrow> byte \<Rightarrow> device \<Rightarrow> 'g module \<Rightarrow> (goerr option \<times> 'g module) option" where
  "updateDeviceWrittenPointError env pointIDStr err messageId device md =
     updateDeviceWrittenPoint env pointIDStr (Fin 0) (Some err) messageId device md"

definition onWriteExhausted :: "'g module_env \<Rightarrow> point \<Rightarrow> 'g \<Rightarrow> 'g" where
  "onWriteExhausted env pt g =
     (if pt_UUID pt = '''' then g
      else snd (updateWrittenPointError env pt
        (ErrMsg (''no response from device after '' @ itoa (me_WriteQueueMaxRetries env) @ '' write attempts'')) g))"

subsection \<open>Lemmas\<close>

text \<open>Every point the module creates as writable for a UART device has a type the encoder can send and
  the decoder can read, with values of at most 16 bits.\<close>

lemma uart_writable_types:
  "list_all (\<lambda>(k, c). IsWriteable (uc_WriteMode c) \<longrightarrow> uc_DataType c \<in> {''1'', ''30'', ''38''}) uart_configs"
  by (simp add: uart_configs_def uart_config_def IsWriteable_def)

lemma uart_writable_decodable:
  assumes "getUARTPointConfig key = Some c" "IsWriteable (uc_WriteMode c)"
  shows "\<exists>k. atoi (uc_DataType c) = Inr k \<and> decodable k \<and> k \<noteq> MDK_ERROR"
proof -
  have "(key, c) \<in> set uart_configs" using assms(1) by (simp add: getUARTPointConfig_def map_of_SomeD)
  then have "uc_DataType c \<in> {''1'', ''30'', ''38''}" using uart_writable_types assms(2) by (auto simp: list_all_iff)
  moreover have "itoa_nat 30 = ''30''" by code_simp
  then have "atoi ''30'' = Inr 30" using atoi_itoa_nat [of 30] by simp
  moreover have "decodable 1" "decodable 30" "decodable 38" by (simp_all add: decodable_def key_target_def)
  ultimately show ?thesis using example_numbers(1,5) by force
qed

end
