(* ===== verification/Uplink_Path.thy ===== *)
theory Uplink_Path
  imports Db_Writer
begin

text \<open>
  \<^verbatim>\<open>handleSerialPayload\<close> of app.go: a frame from the serial port, dispatched with the callbacks of
  dbWriter.go.  The theorems follow a frame from the wire to the data base, the write queues and
  MQTT.
\<close>

definition on_grpc :: "('g \<Rightarrow> (goerr option \<times> 'g) option) \<Rightarrow> 'g module action" where
  "on_grpc f md = map_option (\<lambda>(err, g). (err, md\<lparr>md_grpc := g\<rparr>)) (f (md_grpc md))"

definition successFn :: "'g module_env \<Rightarrow> 'g module point_fn" where
  "successFn env name value dev dd md =
     on_grpc (updateDevicePointSuccess env name value dev dd) (md\<lparr>md_collected := (md_collected md)(name \<mapsto> value)\<rparr>)"

definition module_callbacks :: "'g module_env \<Rightarrow> 'g module callbacks" where
  "module_callbacks env = \<lparr>
     updatePointFn = successFn env,
     updatePointErrFn = (\<lambda>name err dev dd. on_grpc (updateDevicePointError env name err dev dd)),
     updateMetaTagsFn = (\<lambda>uuid tags. on_grpc (\<lambda>g. Some (updateDeviceMetaTags env uuid tags g))),
     updateWrittenFn = (\<lambda>name value i dev. updateDeviceWrittenPointSuccess env name value i dev),
     updateWrittenErrFn = (\<lambda>name err i dev. updateDeviceWrittenPointError env name err i dev)\<rparr>"

definition module_dispatch :: "'g module_env \<Rightarrow> 'g module dispatch_env" where
  "module_dispatch env = \<lparr>
     env_DefaultKey = me_DefaultKey env, env_mac = me_mac env, env_order = me_order env,
     env_getDevice = (\<lambda>address md. getDeviceByLoRaAddress env address (md_grpc md)),
     env_writeToLoRaRaw = (\<lambda>data md. case WriteToLoRaRaw data (md_serial md) of
        (err, s) \<Rightarrow> Some (err, md\<lparr>md_serial := s\<rparr>))\<rparr>"

text \<open>After a frame was decoded: RSSI and SNR, the fault flag, and MQTT.\<close>

definition publish_frame :: "dispatch_result \<Rightarrow> device \<Rightarrow> 'g module \<Rightarrow> 'g module" where
  "publish_frame res dev md =
     (let mqtt = PublishRaw (dr_PublishRawHex res) (md_mqtt md);
          mqtt = (case dev_AddressUUID dev of
                    None \<Rightarrow> mqtt
                  | Some address \<Rightarrow> PublishValues address (dev_Name dev) (md_collected md) mqtt)
      in md\<lparr>md_mqtt := mqtt\<rparr>)"

definition finish_frame :: "'g module_env \<Rightarrow> dispatch_result \<Rightarrow> 'g module \<Rightarrow> 'g module option" where
  "finish_frame env res md = do {
     dev \<leftarrow> dr_Device res;
     md \<leftarrow> perform (successFn env RssiField (f64_of_int (dr_RSSI res)) dev (dr_DevDesc res)) md;
     md \<leftarrow> perform (successFn env SnrField (dr_SNR res) dev (dr_DevDesc res)) md;
     let md = md\<lparr>md_grpc := updateDeviceFault env (dev_UUID dev) (md_grpc md)\<rparr>;
     Some (publish_frame res dev md) }"

definition handleSerialPayload :: "'g module_env \<Rightarrow> string \<Rightarrow> 'g module \<Rightarrow> 'g module option" where
  "handleSerialPayload env dataHex md =
     (if md_networkUUID md = '''' then Some md
      else do {
        (res, md) \<leftarrow> dispatchFrame (module_dispatch env) dataHex (module_callbacks env) (md\<lparr>md_collected := Map.empty\<rparr>);
        if \<not> dr_OK res then Some md else finish_frame env res md })"

subsection \<open>Values\<close>

text \<open>What writing one value does to the data base; it cannot panic for a device with an address.\<close>

definition put_value :: "'g module_env \<Rightarrow> device \<Rightarrow> lora_desc option \<Rightarrow> string \<times> gofloat \<Rightarrow> 'g \<Rightarrow> 'g" where
  "put_value env dev dd x g =
     (case x of (name, value) \<Rightarrow>
        (case updateDevicePointSuccess env name value dev dd g of None \<Rightarrow> g | Some (_, g) \<Rightarrow> g))"

lemma updateDevicePointSuccess_put:
  assumes "dev_AddressUUID dev = Some a"
  shows "\<exists>err. updateDevicePointSuccess env n v dev dd g = Some (err, put_value env dev dd (n, v) g)"
  using assms
  by (auto simp: put_value_def updateDevicePointSuccess_def updateDevicePoint_def error_of_def
      split: option.split sum.split prod.split)

lemma successFn_put:
  assumes "dev_AddressUUID dev = Some a"
  shows "perform (successFn env n v dev dd) md =
     Some (md\<lparr>md_grpc := put_value env dev dd (n, v) (md_grpc md), md_collected := (md_collected md)(n \<mapsto> v)\<rparr>)"
  using updateDevicePointSuccess_put [OF assms, of env n v dd "md_grpc md"]
  by (auto simp: perform_def successFn_def on_grpc_def)

definition put_values :: "'g module_env \<Rightarrow> device \<Rightarrow> lora_desc option \<Rightarrow> (string \<times> gofloat) list \<Rightarrow> 'g module \<Rightarrow> 'g module" where
  "put_values env dev dd xs md =
     md\<lparr>md_grpc := fold (put_value env dev dd) xs (md_grpc md), md_collected := fold (\<lambda>(n, v) m. m(n \<mapsto> v)) xs (md_collected md)\<rparr>"

lemma put_values_simps [simp]:
  "put_values env dev dd [] md = md"
  "put_values env dev dd (x # xs) md = put_values env dev dd xs
     (md\<lparr>md_grpc := put_value env dev dd x (md_grpc md), md_collected := (md_collected md)(fst x \<mapsto> snd x)\<rparr>)"
  by (simp_all add: put_values_def split: prod.split)

abbreviation uplink_fns :: "'g module_env \<Rightarrow> 'g module rubix_fns" where
  "uplink_fns env \<equiv> \<lparr>fnPoint = Some (updatePointFn (module_callbacks env)),
     fnPointErr = Some (updatePointErrFn (module_callbacks env)), fnWritten = None, fnWrittenErr = None\<rparr>"

lemma report_value:
  "dev_AddressUUID dev = Some a \<Longrightarrow>
     report (uplink_fns env) dev dd msgId (n, v, None) md = Some (put_values env dev dd [(n, v)] md)"
  by (simp add: report_def successFn_put, simp add: module_callbacks_def successFn_put)

lemma report_values:
  assumes "dev_AddressUUID dev = Some a"
  shows "foldM (report (uplink_fns env) dev dd msgId) (map (\<lambda>(n, v). (n, v, None)) xs) md = Some (put_values env dev dd xs md)"
proof (induction xs arbitrary: md)
  case (Cons x xs)
  obtain n v where x: "x = (n, v)" by (cases x)
  have "foldM (report (uplink_fns env) dev dd msgId) (map (\<lambda>(n, v). (n, v, None)) (x # xs)) md
      = foldM (report (uplink_fns env) dev dd msgId) (map (\<lambda>(n, v). (n, v, None)) xs) (put_values env dev dd [(n, v)] md)"
    by (simp only: list.map foldM.simps x prod.case report_value [OF assms] option.case)
  then show ?case by (simp only: Cons.IH) (simp add: x)
qed simp

lemma fold_map_of: "fold (\<lambda>(n, v) m. m(n \<mapsto> v)) xs m = m ++ map_of (rev xs)"
  by (induction xs arbitrary: m) auto

lemma uplink_values:
  assumes "dev_AddressUUID dev = Some a" "payload \<noteq> []" "payload_points payload = map (\<lambda>(n, v). (n, v, None)) xs"
  shows "DecodeRubixUplink payload dd dev (module_callbacks env) md = Some (None, put_values env dev dd xs md)"
  unfolding DecodeRubixUplink_def DecodeRubix_fold [OF assms(2)] using report_values [OF assms(1)] assms(3)
  by (simp add: payload_points_def)

text \<open>RSSI and SNR are written like the decoded values, after them.\<close>

definition frame_values :: "byte \<Rightarrow> byte \<Rightarrow> (string \<times> gofloat) list" where
  "frame_values r q = [(RssiField, f64_of_int (- uint r)), (SnrField, Fin (of_int (sint q) / 4))]"

lemma finish_frame_values:
  assumes "dr_Device res = Some dev" "dev_AddressUUID dev = Some a" "dr_RSSI res = - uint r" "dr_SNR res = Fin (of_int (sint q) / 4)"
  shows "finish_frame env res md =
    (let md = put_values env dev (dr_DevDesc res) (frame_values r q) md in
     Some (publish_frame res dev (md\<lparr>md_grpc := updateDeviceFault env (dev_UUID dev) (md_grpc md)\<rparr>)))"
  using assms by (simp add: finish_frame_def successFn_put frame_values_def)

lemma module_dispatch_simps [simp]:
  "env_DefaultKey (module_dispatch env) = me_DefaultKey env" "env_mac (module_dispatch env) = me_mac env"
  "env_getDevice (module_dispatch env) address md = getDeviceByLoRaAddress env address (md_grpc md)"
  by (simp_all add: module_dispatch_def)

text \<open>The end of a frame that was delivered to the module's state \<open>md\<close>.\<close>

definition frame_done ::
  "'g module_env \<Rightarrow> device \<Rightarrow> lora_desc \<Rightarrow> string \<Rightarrow> byte \<Rightarrow> byte \<Rightarrow> byte list \<Rightarrow> 'g module \<Rightarrow> 'g module" where
  "frame_done env dev d a r q plain md =
    (let md' = put_values env dev (Some d) (frame_values r q) md
     in md'\<lparr>md_grpc := updateDeviceFault env (dev_UUID dev) (md_grpc md'),
            md_mqtt := PublishValues a (dev_Name dev) (md_collected md') (PublishRaw (to_upper (hex_encode plain)) (md_mqtt md'))\<rparr>)"

lemma handle_sealed_payload:
  assumes "md_networkUUID md \<noteq> ''''" "mac_ok (me_mac env)" "getEncryptionKey (me_DefaultKey env) dev = Inr key"
    and "length key \<in> {16, 24, 32}" "hex_decode address = (addr, None)" "length addr = 4" "length payload \<le> 255"
    and "Encrypt (me_mac env) address payload key opts nonce = Some (Inr frame)" "hex_frame dataHex (frame @ [r, q])"
    and "getDeviceByLoRaAddress env (take 8 dataHex) (md_grpc md) = Some dev" "dev_AddressUUID dev = Some a"
    and "GetDeviceDescription dev LoRaDeviceDescriptions = Some d" "IsLoRaRAW d"
    and "deliver (module_dispatch env) dev d key addr opts nonce dataHex payload (module_callbacks env) (md\<lparr>md_collected := Map.empty\<rparr>)
      = Some md'"
  shows "handleSerialPayload env dataHex md = Some
    (frame_done env dev d a r q (addr @ [opts, nonce, word_of_nat (length payload)] @ payload @ [r, q]) md')"
proof -
  let ?res = "\<lparr>dr_Address = take 8 dataHex, dr_Device = Some dev, dr_DevDesc = Some d, dr_DataHex = dataHex,
        dr_PublishRawHex = to_upper (hex_encode (addr @ [opts, nonce, word_of_nat (length payload)] @ payload @ [r, q])),
        dr_RSSI = - uint r, dr_SNR = Fin (of_int (sint q) / 4), dr_LegacyDevice = False, dr_OK = True\<rparr>"
  have "dispatchFrame (module_dispatch env) dataHex (module_callbacks env) (md\<lparr>md_collected := Map.empty\<rparr>) = Some (?res, md')"
    using dispatch_sealed [of "module_dispatch env" dev key address addr payload opts nonce frame dataHex r q
        "md\<lparr>md_collected := Map.empty\<rparr>" d "module_callbacks env"] assms by simp
  then show ?thesis using assms(1,11) finish_frame_values [of ?res dev a r q env md']
    by (simp add: handleSerialPayload_def publish_frame_def frame_done_def Let_def)
qed

subsection \<open>Responses\<close>

lemma dequeue_none:
  assumes "\<And>a rest. queues m dev = Some (a # rest) \<Longrightarrow> Message (mgr_store m ! a) = None \<or> MessageId (mgr_store m ! a) \<noteq> i"
  shows "manager_DequeueUsingMessageId dev i m = (None, m)"
proof (cases "queues m dev")
  case (Some q)
  then show ?thesis using assms put_queue_same [OF Some]
    by (cases q) (auto simp: manager_DequeueUsingMessageId_def dequeue_ack)
qed (simp add: manager_DequeueUsingMessageId_def)

lemma dequeue_head:
  assumes "queues m (device_of (mgr_store m) a) = Some (a # rest)" "a < length (mgr_store m)"
    "Message (mgr_store m ! a) \<noteq> None" "MessageId (mgr_store m ! a) = i"
  shows "manager_DequeueUsingMessageId (device_of (mgr_store m) a) i m = (Some (Point (mgr_store m ! a)), remove_head True a m)"
  using assms by (simp add: manager_DequeueUsingMessageId_def dequeue_ack remove_head_def queue_of_def Let_def)

text \<open>In a well-formed manager the head behind an acknowledged one has no frame yet.\<close>

lemma next_head_unframed:
  assumes "structured m p" "queues m (device_of (mgr_store m) a) = Some (a # b # rest)"
  shows "Message (mgr_store m ! b) = None"
proof (rule ccontr)
  assume msg: "Message (mgr_store m ! b) \<noteq> None"
  note ok = structuredD(1) [OF assms(1)]
  have b: "b < length (mgr_store m)" "\<not> done_closed (mgr_store m ! b)" "device_of (mgr_store m) b = device_of (mgr_store m) a" "a < b"
    using queues_ok_mem [OF ok assms(2), of b] queues_ok_sorted [OF ok assms(2)] by auto
  then have "at_head m b" using structuredD(8) [OF assms(1), of b] msg by (simp add: pending_def)
  then show False using assms(2) b(3,4) by (auto simp: at_head_def)
qed

definition acknowledges :: "device \<Rightarrow> byte \<Rightarrow> manager \<Rightarrow> nat \<Rightarrow> bool" where
  "acknowledges dev i m a \<longleftrightarrow> queues m (dev_UUID dev) \<noteq> None \<and> queue_of m (dev_UUID dev) \<noteq> [] \<and> hd (queue_of m (dev_UUID dev)) = a
     \<and> Message (mgr_store m ! a) \<noteq> None \<and> MessageId (mgr_store m ! a) = i"

text \<open>The first field of a response takes the acknowledged write; the others find nothing.\<close>

abbreviation response_fns :: "'g module_env \<Rightarrow> 'g module rubix_fns" where
  "response_fns env \<equiv> \<lparr>fnPoint = None, fnPointErr = None,
     fnWritten = Some (updateWrittenFn (module_callbacks env)), fnWrittenErr = Some (updateWrittenErrFn (module_callbacks env))\<rparr>"

lemma report_response:
  "report (response_fns env) dev dd i (n, v, err) md =
     map_option snd (updateDeviceWrittenPoint env n (if err = None then v else Fin 0) err i dev md)"
  by (cases err) (simp_all add: report_def module_callbacks_def perform_def
      updateDeviceWrittenPointSuccess_def updateDeviceWrittenPointError_def)

lemma responses_ignored:
  assumes "md_manager md = Some m" "\<And>a. \<not> acknowledges dev i m a"
  shows "foldM (report (response_fns env) dev dd i) xs md = Some md"
proof -
  have "manager_DequeueUsingMessageId (dev_UUID dev) i m = (None, m)"
    by (rule dequeue_none) (use assms(2) in \<open>auto simp: acknowledges_def queue_of_def\<close>)
  then have "report (response_fns env) dev dd i x md = Some md" for x
    using assms(1) by (cases x) (simp add: report_response updateDeviceWrittenPoint_def)
  then show ?thesis by (induction xs) auto
qed

definition ack_write :: "'g module_env \<Rightarrow> goerr option \<Rightarrow> nat \<Rightarrow> manager \<Rightarrow> 'g module \<Rightarrow> 'g module" where
  "ack_write env err a m md =
     md\<lparr>md_manager := Some (remove_head True a m),
        md_grpc := snd (case err of Some e \<Rightarrow> updateWrittenPointError env (Point (mgr_store m ! a)) e (md_grpc md)
                                  | None \<Rightarrow> updateWrittenPointSuccess env (Point (mgr_store m ! a)) (md_grpc md))\<rparr>"

lemma response_acknowledged:
  assumes "md_manager md = Some m" "structured m p" "acknowledges dev i m a"
  shows "foldM (report (response_fns env) dev dd i) ((n, v, err) # xs) md = Some (ack_write env err a m md)"
proof -
  note ok = structuredD(1) [OF assms(2)]
  obtain rest where q: "queues m (dev_UUID dev) = Some (a # rest)" "Message (mgr_store m ! a) \<noteq> None" "MessageId (mgr_store m ! a) = i"
    using assms(3) by (auto simp: acknowledges_def queue_of_def neq_Nil_conv)
  have a: "a < length (mgr_store m)" "device_of (mgr_store m) a = dev_UUID dev" "\<not> done_closed (mgr_store m ! a)"
    using queues_ok_mem [OF ok q(1), of a] by auto
  have first: "report (response_fns env) dev dd i (n, v, err) md = Some (ack_write env err a m md)"
    using dequeue_head [of m a rest i] q a assms(1)
    by (auto simp: report_response updateDeviceWrittenPoint_def ack_write_def split: option.split)
  have "\<not> acknowledges dev i (remove_head True a m) b" for b
  proof
    assume b: "acknowledges dev i (remove_head True a m) b"
    then obtain rest' where r: "rest = b # rest'"
      using q(1) a(2) by (cases rest) (auto simp: acknowledges_def remove_head_def queue_of_def Let_def)
    have "a \<noteq> b" using queues_ok_sorted [OF ok q(1)] r by auto
    then show False using b next_head_unframed [OF assms(2), of a b rest'] q(1) a r
      by (simp add: acknowledges_def nth_update_item)
  qed
  then have "foldM (report (response_fns env) dev dd i) xs (ack_write env err a m md) = Some (ack_write env err a m md)"
    by (intro responses_ignored) (simp_all add: ack_write_def)
  then show ?thesis using first by simp
qed

lemma acknowledged_step:
  assumes "structured (mgr s) p" "acknowledges dev i (mgr s) item"
  shows "sched_step senv s (s\<lparr>mgr := remove_head True item (mgr s)\<rparr>)"
proof -
  obtain rest where q: "queues (mgr s) (dev_UUID dev) = Some (item # rest)" "Message (mgr_store (mgr s) ! item) \<noteq> None"
    "MessageId (mgr_store (mgr s) ! item) = i"
    using assms(2) by (auto simp: acknowledges_def queue_of_def neq_Nil_conv)
  have "item < length (mgr_store (mgr s))" "device_of (mgr_store (mgr s)) item = dev_UUID dev"
    using queues_ok_mem [OF structuredD(1) [OF assms(1)] q(1), of item] by auto
  then show ?thesis using dequeue_head [of "mgr s" item rest i] q by (intro sched_step.response) auto
qed

subsection \<open>Example runs\<close>

text \<open>A data base that logs what is written, on a network with one device.\<close>

type_synonym log = "(string \<times> point_writer) list"

definition home :: network where
  "home = \<lparr>net_UUID = ''net'', net_PluginName = ''module-core-loraraw'', net_TransportType = ''serial'',
     net_SerialPort = Some ''/dev/ttyUSB0'', net_SerialBaudRate = Some 38400, net_Devices = []\<rparr>"

definition log_grpc :: "device \<Rightarrow> log grpc" where
  "log_grpc dev = \<lparr>
     g_GetNetworksByPluginName = (\<lambda>_ _. Inr [home]), g_GetNetwork = (\<lambda>_ _. Inr (home\<lparr>net_Devices := [dev]\<rparr>)),
     g_GetDevice = (\<lambda>_ _. Inr dev), g_GetOneDeviceByArgs = (\<lambda>_ _. Inr dev),
     g_CreateNetwork = (\<lambda>n g. (Inr n, g)), g_CreateDevice = (\<lambda>d g. (Inr d, g)), g_DeleteDevice = (\<lambda>_ g. (None, g)),
     g_UpdateNetwork = (\<lambda>_ _ g. (Inr home, g)), g_DeleteNetwork = (\<lambda>_ g. (None, g)),
     g_UpdateDevice = (\<lambda>_ d g. (Inr (case d of None \<Rightarrow> dev | Some d \<Rightarrow> d), g)), g_DeletePoint = (\<lambda>_ g. (None, g)),
     g_CreatePoint = (\<lambda>pt g. (Inr pt, g)), g_UpdatePoint = (\<lambda>_ pt g. (Inr pt, g)),
     g_PointWrite = (\<lambda>u w g. (Inr zero_point, g @ [(u, w)])),
     g_UpdateDeviceFault = (\<lambda>_ _ g. g), g_UpdateNetworkFault = (\<lambda>_ _ g. g),
     g_UpdatePluginMessage = (\<lambda>_ _ _ g. (None, g)), g_UpsertDeviceMetaTags = (\<lambda>_ _ g. (None, g))\<rparr>"

definition node :: device where
  "node = example_device\<lparr>dev_Model := ''UART'', dev_Manufacture := wire_hex (replicate 16 7)\<rparr>"

definition node_env :: "log module_env" where
  "node_env = \<lparr>me_moduleName = ''module-core-loraraw'', me_DefaultKey = '''', me_WriteQueueMaxRetries = 2, me_grpc = log_grpc node,
     me_Title = id, me_ResistanceToTemperature = id, me_mac = example_mac, me_oor = (\<lambda>_. 0), me_order = id\<rparr>"

definition node_module :: "manager option \<Rightarrow> log module" where
  "node_module m = \<lparr>md_grpc = [], md_networkUUID = ''net'', md_manager = m, md_serial = serial serial_start,
     md_mqtt = None, md_collected = Map.empty\<rparr>"

lemma node_simps [simp]:
  "me_mac node_env = example_mac" "getEncryptionKey (me_DefaultKey node_env) node = Inr (replicate 16 7)"
  "getDeviceByLoRaAddress node_env address g = Some node" "dev_AddressUUID node = Some ''C0FFEE01''"
  "md_networkUUID (node_module m) = ''net''" "md_manager (node_module m) = m" "md_collected (node_module m) = Map.empty"
  by (simp_all add: node_env_def node_def getDeviceByLoRaAddress_def log_grpc_def node_module_def)
     (simp add: example_device_def)

lemma node_facts:
  "md_networkUUID (node_module m) \<noteq> ''''" "mac_ok (me_mac node_env)" "length (replicate 16 (7 :: byte)) \<in> {16, 24, 32}"
  "hex_decode (wire_hex [0xc0, 0xff, 0xee, 1]) = ([0xc0, 0xff, 0xee, 1], None)" "length [0xc0, 0xff, 0xee, 1 :: byte] = 4"
  by simp_all

lemma node_description: "GetDeviceDescription node LoRaDeviceDescriptions = Some (rubix_desc ''UART'' DeviceModelUART False)"
  unfolding node_def by (rule example_found(2))

lemma node_seal:
  "length payload \<le> 255 \<Longrightarrow>
   \<exists>frame. Encrypt (me_mac node_env) (wire_hex [0xc0, 0xff, 0xee, 1]) payload (replicate 16 7) opts nonce = Some (Inr frame)"
  using Encrypt_seals [OF example_mac_ok, where key = "replicate 16 7"] by auto

lemma ping_points:
  "\<exists>payload v xs. length payload = 3 \<and> payload_points payload = map (\<lambda>(n, v). (n, v, None)) ((''UVP-4'', v) # xs)"
proof -
  let ?pt = "example_point ''UVP-4'' ''38'' (Fin 1)" and ?oor = "\<lambda>_ :: gofloat. 0 :: int"
  obtain payload where p: "EncodeRequestMessage ?oor [?pt] = Some (Inr payload)" "length payload = 3"
    using ping_message by blast
  have "\<forall>pt \<in> set [?pt]. writable_point pt"
    using example_writable [of 38 "''38''" "''UVP-4''" 163] by (simp add: example_numbers)
  from request_decodes [OF this, of ?oor] obtain buf k where b: "EncodeRequestMessage ?oor [?pt] = Some (Inr buf)" "k < 8"
    "payload_points buf = map (\<lambda>pt. (pt_IoNumber pt, sent_value ?oor pt, None)) [?pt] @ padding_points k"
    by blast
  have "payload_points payload = map (\<lambda>(n, v). (n, v, None))
      ((''UVP-4'', sent_value ?oor ?pt) # (if k = 7 then [(''unknown-1'', Fin 0)] else []))"
    using b p(1) by (simp add: padding_points_values) (simp add: example_point_def)
  then show ?thesis using p(2) by blast
qed

subsection \<open>Properties\<close>

text \<open>C15: An authentic uplink of a Rubix device, end to end: every decoded value is written to the data
  base in stream order, to the point of its name (created when missing), then RSSI and SNR; the
  fault of the device is cleared; and MQTT gets the plaintext frame and all values at once.\<close>

theorem uplink_end_to_end:
  assumes "md_networkUUID md \<noteq> ''''" "mac_ok (me_mac env)" "getEncryptionKey (me_DefaultKey env) dev = Inr key"
    and "length key \<in> {16, 24, 32}" "hex_decode address = (addr, None)" "length addr = 4" "length payload \<le> 255"
    and "Encrypt (me_mac env) address payload key LORARAW_OPTS_UNCONFIRMED_UPLINK nonce = Some (Inr frame)"
    and "hex_frame dataHex (frame @ [r, q])"
    and "getDeviceByLoRaAddress env (take 8 dataHex) (md_grpc md) = Some dev" "dev_AddressUUID dev = Some a"
    and "GetDeviceDescription dev LoRaDeviceDescriptions = Some (rubix_desc name m allow)"
    and "payload \<noteq> []" "payload_points payload = map (\<lambda>(n, v). (n, v, None)) xs"
  shows "handleSerialPayload env dataHex md = Some
    (let d = rubix_desc name m allow; values = xs @ frame_values r q;
         raw = to_upper (hex_encode (addr @ [LORARAW_OPTS_UNCONFIRMED_UPLINK, nonce, word_of_nat (length payload)] @ payload @ [r, q]))
     in md\<lparr>md_grpc := updateDeviceFault env (dev_UUID dev) (fold (put_value env dev (Some d)) values (md_grpc md)),
           md_collected := map_of (rev values),
           md_mqtt := PublishValues a (dev_Name dev) (map_of (rev values)) (PublishRaw raw (md_mqtt md))\<rparr>)"
proof -
  let ?d = "rubix_desc name m allow"
  have "deliver (module_dispatch env) dev ?d key addr LORARAW_OPTS_UNCONFIRMED_UPLINK nonce dataHex payload (module_callbacks env)
      (md\<lparr>md_collected := Map.empty\<rparr>) = Some (put_values env dev (Some ?d) xs (md\<lparr>md_collected := Map.empty\<rparr>))"
  proof -
    have "DecodeUplink ?d = Some DecodeRubixUplink_fn" by (simp add: rubix_desc_def)
    then show ?thesis
      by (simp add: deliver_def perform_def uplink_values [OF assms(11,13,14)] del: fun_upd_apply)
  qed
  from handle_sealed_payload [OF assms(1-12) _ this] show ?thesis
    by (simp add: rubix_desc_def put_values_def fold_map_of frame_done_def Let_def)
qed

theorem uplink_end_to_end_witness:
  "\<exists>dataHex md. handleSerialPayload node_env dataHex (node_module None) = Some md
    \<and> {''UVP-4'', RssiField, SnrField} \<subseteq> dom (md_collected md)"
proof -
  obtain payload v xs where p: "length payload = 3" "payload_points payload = map (\<lambda>(n, v). (n, v, None)) ((''UVP-4'', v) # xs)"
    using ping_points by blast
  obtain frame where e: "Encrypt (me_mac node_env) (wire_hex [0xc0, 0xff, 0xee, 1]) payload (replicate 16 7)
      LORARAW_OPTS_UNCONFIRMED_UPLINK 42 = Some (Inr frame)"
    using node_seal [of payload LORARAW_OPTS_UNCONFIRMED_UPLINK 42] p(1) by auto
  have nz: "payload \<noteq> []" "length payload \<le> 255" using p(1) by auto
  have "\<exists>md. handleSerialPayload node_env (wire_hex (frame @ [60, 40])) (node_module None) = Some md
      \<and> {''UVP-4'', RssiField, SnrField} \<subseteq> dom (md_collected md)"
    by (rule exI, rule conjI, rule uplink_end_to_end [where addr = "[0xc0, 0xff, 0xee, 1]" and md = "node_module None",
          OF node_facts(1,2) node_simps(2) node_facts(3-5) nz(2) e wire_hex_frame(1) node_simps(3,4) node_description nz(1) p(2), unfolded Let_def])
       (simp add: frame_values_def)
  then show ?thesis by blast
qed

lemma DecodeRubixResponse_fold:
  assumes "payload \<noteq> []" "foldM (report (response_fns env) dev dd i) (payload_points payload) md = Some md'"
  shows "DecodeRubixResponse payload i dd dev (module_callbacks env) md = Some (None, md')"
  unfolding DecodeRubixResponse_def DecodeRubix_fold [OF assms(1)] using assms(2) by (simp add: payload_points_def)

text \<open>C16: A response, end to end: when its nonce is the message id of the write its device waits
  for, that write is acknowledged (a step of the scheduler's transition system), leaves the queue
  and its point is written exactly once, as written or as failed after the first field of the
  response, however many fields follow; any other response changes neither queues nor point.\<close>

theorem one_response_one_write:
  assumes "md_networkUUID md \<noteq> ''''" "mac_ok (me_mac env)" "getEncryptionKey (me_DefaultKey env) dev = Inr key"
    and "length key \<in> {16, 24, 32}" "hex_decode address = (addr, None)" "length addr = 4" "length payload \<le> 255"
    and "Encrypt (me_mac env) address payload key LORARAW_OPTS_RESPONSE nonce = Some (Inr frame)"
    and "hex_frame dataHex (frame @ [r, q])"
    and "getDeviceByLoRaAddress env (take 8 dataHex) (md_grpc md) = Some dev" "dev_AddressUUID dev = Some a"
    and "GetDeviceDescription dev LoRaDeviceDescriptions = Some (rubix_desc name m allow)"
    and "payload \<noteq> []" "payload_points payload = (n, v, err) # xs"
    and "reachable senv k s" "md_manager md = Some (mgr s)"
  shows "let finish = frame_done env dev (rubix_desc name m allow) a r q
              (addr @ [LORARAW_OPTS_RESPONSE, nonce, word_of_nat (length payload)] @ payload @ [r, q]);
             md = md\<lparr>md_collected := Map.empty\<rparr>
    in (\<forall>item. acknowledges dev nonce (mgr s) item \<longrightarrow>
          handleSerialPayload env dataHex md = Some (finish (ack_write env err item (mgr s) md))
          \<and> sched_step senv s (s\<lparr>mgr := remove_head True item (mgr s)\<rparr>))
     \<and> ((\<forall>item. \<not> acknowledges dev nonce (mgr s) item) \<longrightarrow> handleSerialPayload env dataHex md = Some (finish md))"
proof -
  let ?d = "rubix_desc name m allow" and ?md = "md\<lparr>md_collected := Map.empty\<rparr>"
  have dr: "DecodeResponse ?d = Some DecodeRubixResponse_fn" "IsLoRaRAW ?d" by (simp_all add: rubix_desc_def)
  have run: "handleSerialPayload env dataHex ?md = Some (frame_done env dev ?d a r q
      (addr @ [LORARAW_OPTS_RESPONSE, nonce, word_of_nat (length payload)] @ payload @ [r, q]) md')"
    if "foldM (report (response_fns env) dev (Some ?d) nonce) ((n, v, err) # xs) ?md = Some md'" for md'
  proof -
    have "deliver (module_dispatch env) dev ?d key addr LORARAW_OPTS_RESPONSE nonce dataHex payload (module_callbacks env)
        (?md\<lparr>md_collected := Map.empty\<rparr>) = Some md'"
      using DecodeRubixResponse_fold [OF assms(13), of env dev "Some ?d" nonce ?md md'] that dr(1) assms(14)
      by (simp add: deliver_def perform_def)
    from handle_sealed_payload [OF _ assms(2-9) _ assms(11,12) dr(2) this] show ?thesis using assms(1,10) by simp
  qed
  have st: "structured (mgr s) (pc_of s)" using reachable_structured [OF assms(15)] by simp
  show ?thesis
    unfolding Let_def
  proof (intro conjI allI impI)
    fix item assume ack: "acknowledges dev nonce (mgr s) item"
    show "handleSerialPayload env dataHex ?md = Some (frame_done env dev ?d a r q
      (addr @ [LORARAW_OPTS_RESPONSE, nonce, word_of_nat (length payload)] @ payload @ [r, q]) (ack_write env err item (mgr s) ?md))"
      by (rule run, rule response_acknowledged [OF _ st ack]) (use assms(16) in simp)
    show "sched_step senv s (s\<lparr>mgr := remove_head True item (mgr s)\<rparr>)"
      by (rule acknowledged_step [OF st ack])
  next
    assume "\<forall>item. \<not> acknowledges dev nonce (mgr s) item"
    then show "handleSerialPayload env dataHex ?md = Some (frame_done env dev ?d a r q
      (addr @ [LORARAW_OPTS_RESPONSE, nonce, word_of_nat (length payload)] @ payload @ [r, q]) ?md)"
      using assms(16) by (intro run responses_ignored [where m = "mgr s"]) simp_all
  qed
qed

theorem one_response_one_write_witness:
  "\<exists>s dataHex md. reachable example_sched 2 s \<and> \<not> acked (item_at s 0)
    \<and> handleSerialPayload node_env dataHex (node_module (Some (mgr s))) = Some md
    \<and> (\<exists>m. md_manager md = Some m \<and> acked (mgr_store m ! 0) \<and> queue_of m ''dev'' = [])"
proof -
  obtain f where s: "reachable example_sched 2
      (example_state (Ready (pt_DeviceUUID example_write) 0) (example_item (Some f) 0 False) [0] 1 [] [])" (is "reachable _ _ ?s")
    using example_ready by blast
  obtain payload v xs where p: "length payload = 3" "payload_points payload = map (\<lambda>(n, v). (n, v, None)) ((''UVP-4'', v) # xs)"
    using ping_points by blast
  obtain frame where e: "Encrypt (me_mac node_env) (wire_hex [0xc0, 0xff, 0xee, 1]) payload (replicate 16 7)
      LORARAW_OPTS_RESPONSE 42 = Some (Inr frame)"
    using node_seal [of payload LORARAW_OPTS_RESPONSE 42] p(1) by auto
  have nz: "payload \<noteq> []" "length payload \<le> 255" using p(1) by auto
  have dev: "pt_DeviceUUID example_write = ''dev''" "dev_UUID node = ''dev''"
    by (simp_all add: example_write_def example_point_def node_def example_device_def)
  have ack: "acknowledges node 42 (mgr ?s) 0"
    by (simp add: acknowledges_def queue_of_def example_state_def example_item_def dev)
  have pp: "payload_points payload = (''UVP-4'', v, None) # map (\<lambda>(n, v). (n, v, None)) xs" using p(2) by simp
  let ?m = "remove_head True 0 (mgr ?s)"
  have m: "acked (mgr_store ?m ! 0)" "queue_of ?m ''dev'' = []" "\<not> acked (item_at ?s 0)"
    by (simp_all add: remove_head_def queue_of_def example_state_def example_item_def dev put_queue_def markDone_def update_item_def
        item_at_def device_of_def Let_def)
  have fin: "md_manager (frame_done e' d' u' a' r' q' plain' (ack_write node_env None 0 (mgr ?s) md')) = Some ?m"
    for e' d' u' a' r' q' plain' and md' :: "log module"
    by (simp add: frame_done_def put_values_def ack_write_def Let_def)
  have same: "(node_module (Some (mgr ?s)))\<lparr>md_collected := Map.empty\<rparr> = node_module (Some (mgr ?s))"
    by (simp add: node_module_def)
  note run = one_response_one_write [where addr = "[0xc0, 0xff, 0xee, 1]" and md = "node_module (Some (mgr ?s))",
      OF node_facts(1,2) node_simps(2) node_facts(3-5) nz(2) e wire_hex_frame(1) node_simps(3,4) node_description nz(1) pp s node_simps(6),
      unfolded Let_def same, THEN conjunct1, rule_format, OF ack, THEN conjunct1]
  show ?thesis
    by (intro exI conjI, rule s, rule m(3), rule run, rule fin, rule m(1), rule m(2))
qed

end
