(* ===== verification/Module_Loop.thy ===== *)
theory Module_Loop
  imports Uplink_Path
begin

text \<open>
  run.go and the port of serial.go: the goroutine that opens the serial port, waits for lines of the
  scanner goroutine (\<^verbatim>\<open>Loop\<close>) and handles them.  The two goroutines and their channels, each of
  capacity one, are a transition system; whether the port opens, what it delivers and how the
  scan ends come from outside.
\<close>

subsection \<open>Opening and closing the port\<close>

record serial_setting =
  ss_SerialPort :: string
  ss_BaudRate :: nat
  ss_Connected :: bool
  ss_Error :: bool

text \<open>The port variable is not cleared when the port is closed.\<close>

definition disconnect :: "goerr option \<Rightarrow> serial_state \<Rightarrow> goerr option" where
  "disconnect closeErr st = (if Port st then closeErr else None)"

definition port_open ::
  "goerr option \<Rightarrow> goerr option \<Rightarrow> serial_setting \<Rightarrow> serial_state \<Rightarrow> goerr option \<times> serial_setting \<times> serial_state" where
  "port_open closeErr openErr s st =
     (case (if ss_Connected s then disconnect closeErr st else None) of
        Some err \<Rightarrow> (Some err, s\<lparr>ss_Error := True\<rparr>, st)
      | None \<Rightarrow>
          (case openErr of
             Some err \<Rightarrow> (Some err, s\<lparr>ss_Error := True\<rparr>, st)
           | None \<Rightarrow> (None, s\<lparr>ss_Connected := True\<rparr>, st\<lparr>Port := True\<rparr>)))"

definition network_fault :: "'g module_env \<Rightarrow> string \<Rightarrow> goerr option \<Rightarrow> 'g module \<Rightarrow> 'g module" where
  "network_fault env uuid message md =
     md\<lparr>md_grpc := g_UpdateNetworkFault (me_grpc env) uuid \<lparr>InFault = (message \<noteq> None), fault_Message = message\<rparr> (md_grpc md)\<rparr>"

text \<open>\<open>closeErr\<close> and \<open>openErr\<close> are the answers of the serial library.  The setting that comes with an
  error is not used.\<close>

definition SerialOpen ::
  "'g module_env \<Rightarrow> goerr option \<Rightarrow> goerr option \<Rightarrow> 'g module \<Rightarrow> (goerr + serial_setting) \<times> 'g module" where
  "SerialOpen env closeErr openErr md =
     (case g_GetNetworksByPluginName (me_grpc env) (me_moduleName env) (md_grpc md) of
        Inl err \<Rightarrow> (Inl err, md)
      | Inr networks \<Rightarrow>
          if networks = [] then (Inl (ErrMsg (''we don'' @ [CHR 0x27] @ ''t have network of module '' @ me_moduleName env)), md)
          else if length networks > 1
          then (Inl (ErrMsg (''we have '' @ itoa (int (length networks)) @ '' networks of module '' @ me_moduleName env)), md)
          else
            (let net = hd networks; md = md\<lparr>md_networkUUID := net_UUID net\<rparr> in
             case (net_SerialPort net, net_SerialBaudRate net) of
               (Some port, Some baud) \<Rightarrow>
                 (let s = \<lparr>ss_SerialPort = port, ss_BaudRate = baud, ss_Connected = False, ss_Error = False\<rparr> in
                  case port_open closeErr openErr s (md_serial md) of
                    (Some err, s, st) \<Rightarrow>
                      (Inl err, network_fault env (net_UUID net) (Some (ErrWrap (''port: '' @ ss_SerialPort s @ '', message: '') err)) (md\<lparr>md_serial := st\<rparr>))
                  | (None, s, st) \<Rightarrow> (Inr s, network_fault env (net_UUID net) None (md\<lparr>md_serial := st\<rparr>)))
             | _ \<Rightarrow> (Inl (ErrMsg ''lora-serial: serial_port & serial_baud_rate required to open''), md)))"

subsection \<open>The run loop\<close>

text \<open>\<open>Checking\<close> is the outer \<^verbatim>\<open>select\<close> with the error of \<^verbatim>\<open>SerialOpen\<close>; \<open>Listening\<close> is the inner loop.
  The deferred \<^verbatim>\<open>SerialClose\<close> of a loop that has returned closes the port but changes no variable.\<close>

datatype loop_pc = Opening | Checking "goerr option" | Sleeping | Listening | Returned | Crashed

text \<open>The scanner goroutine: reading, sending a line, at its end with the scanner's error, finished.\<close>

datatype scanner = NoScanner | Scanning | Sending string | ScanEnded "goerr option" | ScanDone

text \<open>\<open>lp_opens\<close>, \<open>lp_scanned\<close> and \<open>lp_handled\<close> record what happened: calls of \<^verbatim>\<open>SerialOpen\<close>, lines
  scanned, and lines passed to \<^verbatim>\<open>handleSerialPayload\<close>.\<close>

record 'g run_loop =
  lp_module :: "'g module"
  lp_pc :: loop_pc
  lp_interrupt :: bool
  lp_payload :: "string option"
  lp_close :: "goerr option option"
  lp_scanner :: scanner
  lp_opens :: nat
  lp_scanned :: "string list"
  lp_handled :: "string list"

definition loop_fault :: "'g module_env \<Rightarrow> goerr option \<Rightarrow> 'g run_loop \<Rightarrow> 'g run_loop" where
  "loop_fault env message l = l\<lparr>lp_module := network_fault env (md_networkUUID (lp_module l)) message (lp_module l)\<rparr>"

inductive run_step :: "'g module_env \<Rightarrow> 'g run_loop \<Rightarrow> 'g run_loop \<Rightarrow> bool" for env where
  opens: "\<lbrakk>lp_pc l = Opening; SerialOpen env closeErr openErr (lp_module l) = (r, md)\<rbrakk> \<Longrightarrow>
     run_step env l (l\<lparr>lp_module := md, lp_pc := Checking (case r of Inl err \<Rightarrow> Some err | Inr _ \<Rightarrow> None), lp_opens := lp_opens l + 1\<rparr>)"
| interrupted: "\<lbrakk>lp_pc l = Checking r; lp_interrupt l\<rbrakk> \<Longrightarrow>
     run_step env l (l\<lparr>lp_pc := Returned, lp_interrupt := False\<rparr>)"
| open_failed: "\<lbrakk>lp_pc l = Checking (Some err); \<not> lp_interrupt l\<rbrakk> \<Longrightarrow>
     run_step env l ((loop_fault env (Some (ErrWrap ''error opening serial: '' err)) l)\<lparr>lp_pc := Sleeping\<rparr>)"
| slept: "lp_pc l = Sleeping \<Longrightarrow> run_step env l (l\<lparr>lp_pc := Opening\<rparr>)"
| opened: "\<lbrakk>lp_pc l = Checking None; \<not> lp_interrupt l\<rbrakk> \<Longrightarrow>
     run_step env l ((loop_fault env None l)\<lparr>lp_pc := Listening, lp_payload := None, lp_close := None, lp_scanner := Scanning\<rparr>)"
| stop: "\<lbrakk>lp_pc l = Listening; lp_interrupt l\<rbrakk> \<Longrightarrow>
     run_step env l (l\<lparr>lp_pc := Returned, lp_interrupt := False\<rparr>)"
| connection_error: "\<lbrakk>lp_pc l = Listening; lp_close l = Some (Some err)\<rbrakk> \<Longrightarrow>
     run_step env l ((loop_fault env (Some (ErrWrap ''serial connection error: '' err)) l)\<lparr>lp_close := None\<rparr>)"
| end_of_file: "\<lbrakk>lp_pc l = Listening; lp_close l = Some None\<rbrakk> \<Longrightarrow>
     run_step env l (l\<lparr>lp_pc := Crashed, lp_close := None\<rparr>)"
| payload: "\<lbrakk>lp_pc l = Listening; lp_payload l = Some data; handleSerialPayload env data (lp_module l) = Some md\<rbrakk> \<Longrightarrow>
     run_step env l (l\<lparr>lp_module := md, lp_payload := None, lp_handled := lp_handled l @ [data]\<rparr>)"
| payload_panic: "\<lbrakk>lp_pc l = Listening; lp_payload l = Some data; handleSerialPayload env data (lp_module l) = None\<rbrakk> \<Longrightarrow>
     run_step env l (l\<lparr>lp_pc := Crashed, lp_payload := None, lp_handled := lp_handled l @ [data]\<rparr>)"
| scan: "lp_scanner l = Scanning \<Longrightarrow>
     run_step env l (l\<lparr>lp_scanner := Sending data, lp_scanned := lp_scanned l @ [data]\<rparr>)"
| scan_send: "\<lbrakk>lp_scanner l = Sending data; lp_payload l = None\<rbrakk> \<Longrightarrow>
     run_step env l (l\<lparr>lp_scanner := Scanning, lp_payload := Some data\<rparr>)"
| scan_end: "lp_scanner l = Scanning \<Longrightarrow> run_step env l (l\<lparr>lp_scanner := ScanEnded err\<rparr>)"
| scan_report: "\<lbrakk>lp_scanner l = ScanEnded err; lp_close l = None\<rbrakk> \<Longrightarrow>
     run_step env l (l\<lparr>lp_scanner := ScanDone, lp_close := Some err\<rparr>)"
| interrupt: "\<not> lp_interrupt l \<Longrightarrow> run_step env l (l\<lparr>lp_interrupt := True\<rparr>)"
| others: "run_step env l (l\<lparr>lp_module := md\<rparr>)"

definition loop_start :: "'g module \<Rightarrow> 'g run_loop" where
  "loop_start md = \<lparr>lp_module = md, lp_pc = Opening, lp_interrupt = False, lp_payload = None, lp_close = None,
     lp_scanner = NoScanner, lp_opens = 0, lp_scanned = [], lp_handled = []\<rparr>"

lemma loop_fault_simps [simp]:
  "lp_pc (loop_fault env m l) = lp_pc l" "lp_payload (loop_fault env m l) = lp_payload l" "lp_close (loop_fault env m l) = lp_close l"
  "lp_scanner (loop_fault env m l) = lp_scanner l" "lp_opens (loop_fault env m l) = lp_opens l"
  "lp_scanned (loop_fault env m l) = lp_scanned l" "lp_handled (loop_fault env m l) = lp_handled l"
  by (simp_all add: loop_fault_def)

subsection \<open>Invariants\<close>

definition in_flight :: "'g run_loop \<Rightarrow> string list" where
  "in_flight l = (case lp_payload l of None \<Rightarrow> [] | Some data \<Rightarrow> [data]) @ (case lp_scanner l of Sending data \<Rightarrow> [data] | _ \<Rightarrow> [])"

definition loop_ok :: "'g run_loop \<Rightarrow> bool" where
  "loop_ok l \<longleftrightarrow> lp_scanned l = lp_handled l @ in_flight l
     \<and> (lp_pc l \<in> {Opening, Sleeping} \<or> (\<exists>r. lp_pc l = Checking r) \<longrightarrow> lp_scanner l = NoScanner \<and> lp_payload l = None)
     \<and> (lp_close l \<noteq> None \<longrightarrow> lp_scanner l = ScanDone)"

lemma loop_ok_step: "run_step env l t \<Longrightarrow> loop_ok l \<Longrightarrow> loop_ok t"
  by (induction rule: run_step.cases) (auto simp: loop_ok_def in_flight_def)

lemma loop_ok_start: "loop_ok (loop_start md)"
  by (simp add: loop_ok_def loop_start_def in_flight_def)

interpretation loop_inv: inductive_invariant "run_step env" "\<lambda>l. l = loop_start md" loop_ok for env md
  by unfold_locales (use loop_ok_start loop_ok_step in auto)

text \<open>The scan is over, its end reported to the loop or not yet: no line can come any more.\<close>

definition scan_over :: "'g run_loop \<Rightarrow> bool" where
  "scan_over l \<longleftrightarrow> lp_scanner l = ScanDone \<or> (\<exists>err. lp_scanner l = ScanEnded err)"

definition deaf_since :: "'g run_loop \<Rightarrow> 'g run_loop \<Rightarrow> bool" where
  "deaf_since l t \<longleftrightarrow> scan_over t \<and> lp_opens t = lp_opens l \<and> lp_scanned t = lp_scanned l
     \<and> lp_pc t \<in> {Listening, Returned, Crashed}"

lemma deaf_since_step: "run_step env s t \<Longrightarrow> deaf_since l s \<Longrightarrow> deaf_since l t"
  by (induction rule: run_step.cases) (auto simp: deaf_since_def scan_over_def)

lemma scan_over_listened: "loop_ok l \<Longrightarrow> scan_over l \<Longrightarrow> lp_pc l \<in> {Listening, Returned, Crashed}"
  by (cases "lp_pc l") (auto simp: loop_ok_def scan_over_def)

interpretation deaf: inductive_invariant "run_step env" "\<lambda>s. s = l \<and> loop_ok l \<and> scan_over l" "deaf_since l" for env l
  by unfold_locales (simp add: deaf_since_def scan_over_listened del: insert_iff, use deaf_since_step in blast)

text \<open>A port that ends without an error (it is unplugged) takes the program down: the error that is
  printed is nil.\<close>

lemma unplugged_port_crashes:
  assumes "lp_pc l = Listening" "lp_close l = Some None" "run_step env l t" "lp_close t \<noteq> lp_close l"
  shows "lp_pc t = Crashed"
  using assms(3) by cases (use assms in \<open>auto simp: loop_fault_def\<close>)

text \<open>An example: the port opens.\<close>

lemma loop_step: "(run_step env)\<^sup>*\<^sup>* l s \<Longrightarrow> run_step env s t \<Longrightarrow> (run_step env)\<^sup>*\<^sup>* l t"
  by (rule rtranclp.rtrancl_into_rtrancl)

lemma example_listening:
  "\<exists>md. (run_step node_env)\<^sup>*\<^sup>* (loop_start (node_module None))
     \<lparr>lp_module = md, lp_pc = Listening, lp_interrupt = False, lp_payload = None, lp_close = None,
      lp_scanner = Scanning, lp_opens = 1, lp_scanned = [], lp_handled = []\<rparr>"
proof -
  let ?l = "loop_start (node_module None)"
  obtain r md where o: "SerialOpen node_env None None (node_module None) = (Inr r, md)"
    by (simp add: SerialOpen_def node_env_def log_grpc_def home_def port_open_def Let_def)
  have "(run_step node_env)\<^sup>*\<^sup>* ?l (?l\<lparr>lp_module := md, lp_pc := Checking None, lp_opens := 1\<rparr>)"
    using run_step.opens [where l = ?l and closeErr = None and openErr = None and env = node_env and r = "Inr r" and md = md] o
    by (intro r_into_rtranclp) (simp add: loop_start_def)
  from loop_step [OF this run_step.opened] show ?thesis
    by (intro exI) (simp add: loop_start_def loop_fault_def)
qed

subsection \<open>Properties\<close>

text \<open>C18: The lines of the serial port are handled in the order they are read, none lost, repeated or
  invented: what was scanned is what was handled, then what waits in the channel, then what the
  scanner holds.\<close>

theorem serial_lines_in_order:
  assumes "(run_step env)\<^sup>*\<^sup>* (loop_start md) l"
  shows "lp_scanned l = lp_handled l
    @ (case lp_payload l of None \<Rightarrow> [] | Some data \<Rightarrow> [data])
    @ (case lp_scanner l of Sending data \<Rightarrow> [data] | _ \<Rightarrow> [])"
  using loop_inv.holds [OF assms refl] by (simp add: loop_ok_def in_flight_def)

theorem serial_lines_in_order_witness:
  "\<exists>l. (run_step node_env)\<^sup>*\<^sup>* (loop_start (node_module None)) l \<and> lp_scanned l = [''C0FFEE'']
    \<and> lp_scanned l = lp_handled l @ [''C0FFEE'']"
proof -
  obtain md where "(run_step node_env)\<^sup>*\<^sup>* (loop_start (node_module None))
     \<lparr>lp_module = md, lp_pc = Listening, lp_interrupt = False, lp_payload = None, lp_close = None,
      lp_scanner = Scanning, lp_opens = 1, lp_scanned = [], lp_handled = []\<rparr>"
    using example_listening by blast
  from loop_step [OF this run_step.scan [where data = "''C0FFEE''"]]
  have r: "(run_step node_env)\<^sup>*\<^sup>* (loop_start (node_module None))
     \<lparr>lp_module = md, lp_pc = Listening, lp_interrupt = False, lp_payload = None, lp_close = None,
      lp_scanner = Sending ''C0FFEE'', lp_opens = 1, lp_scanned = [''C0FFEE''], lp_handled = []\<rparr>" by simp
  show ?thesis by (intro exI conjI, rule r) (use serial_lines_in_order [OF r] in simp_all)
qed

text \<open>C17: The end of a serial line is final.  Once the scanner goroutine has stopped, with the error of a
  lost port or at the end of the input, reported to the run loop or not yet, every run keeps the number of
  times the port was opened and the lines that were read: the loop handles the error, a line that
  is still waiting, or the interrupt, and never goes back to opening the port (the log says that
  it is attempting to reconnect).\<close>

theorem serial_error_final:
  assumes "(run_step env)\<^sup>*\<^sup>* (loop_start md) l"
    and "lp_scanner l = ScanDone \<or> (\<exists>err. lp_scanner l = ScanEnded err)"
    and "(run_step env)\<^sup>*\<^sup>* l t"
  shows "lp_opens t = lp_opens l \<and> lp_scanned t = lp_scanned l \<and> lp_pc t \<in> {Listening, Returned, Crashed}"
  using deaf.holds [OF assms(3), of l] loop_inv.holds [OF assms(1) refl] assms(2)
  by (simp add: deaf_since_def scan_over_def)

theorem serial_error_final_witness:
  "\<exists>l t. (run_step node_env)\<^sup>*\<^sup>* (loop_start (node_module None)) l \<and> lp_scanner l = ScanEnded (Some (ErrMsg ''port lost''))
    \<and> (run_step node_env)\<^sup>*\<^sup>* l t \<and> lp_close t = None \<and> lp_scanner t = ScanDone \<and> lp_pc t = Listening
    \<and> lp_opens t = 1 \<and> (\<forall>u. (run_step node_env)\<^sup>*\<^sup>* l u \<longrightarrow> lp_opens u = 1)"
proof -
  obtain md where "(run_step node_env)\<^sup>*\<^sup>* (loop_start (node_module None))
     \<lparr>lp_module = md, lp_pc = Listening, lp_interrupt = False, lp_payload = None, lp_close = None,
      lp_scanner = Scanning, lp_opens = 1, lp_scanned = [], lp_handled = []\<rparr>"
    using example_listening by blast
  from loop_step [OF this run_step.scan_end [where err = "Some (ErrMsg ''port lost'')"]]
  have e: "(run_step node_env)\<^sup>*\<^sup>* (loop_start (node_module None))
     \<lparr>lp_module = md, lp_pc = Listening, lp_interrupt = False, lp_payload = None, lp_close = None,
      lp_scanner = ScanEnded (Some (ErrMsg ''port lost'')), lp_opens = 1, lp_scanned = [], lp_handled = []\<rparr>" by simp
  let ?e = "\<lparr>lp_module = md, lp_pc = Listening, lp_interrupt = False, lp_payload = None, lp_close = None,
      lp_scanner = ScanEnded (Some (ErrMsg ''port lost'')), lp_opens = 1, lp_scanned = [], lp_handled = []\<rparr>"
  have "run_step node_env ?e (?e\<lparr>lp_scanner := ScanDone, lp_close := Some (Some (ErrMsg ''port lost''))\<rparr>)"
    by (rule run_step.scan_report) simp_all
  then have "(run_step node_env)\<^sup>*\<^sup>* ?e (?e\<lparr>lp_scanner := ScanDone, lp_close := Some (Some (ErrMsg ''port lost''))\<rparr>)"
    by (rule r_into_rtranclp)
  from loop_step [OF this run_step.connection_error [where err = "ErrMsg ''port lost''"]]
  have r: "(run_step node_env)\<^sup>*\<^sup>* ?e (loop_fault node_env (Some (ErrWrap ''serial connection error: '' (ErrMsg ''port lost'')))
      (?e\<lparr>lp_scanner := ScanDone, lp_close := Some (Some (ErrMsg ''port lost''))\<rparr>)\<lparr>lp_close := None\<rparr>)" by simp
  show ?thesis
    by (intro exI conjI allI impI, rule e, simp, rule r) (use serial_error_final [OF e] in simp_all)
qed

end
