(* ===== verification/Module_Config.thy ===== *)
theory Module_Config
  imports Frame_Dispatch
begin

text \<open>
  config.go: the configuration of the module and how a new one is checked.  Parsing and printing
  YAML and log levels are library calls and parameters of the model; durations are nanoseconds.
\<close>

record config =
  cfg_ReIterationTime :: int
  cfg_LogLevel :: string
  cfg_DefaultKey :: string
  cfg_WriteQueueMaxRetries :: int
  cfg_MQTTEnable :: bool
  cfg_MQTTBroker :: string
  cfg_MQTTClientID :: string
  cfg_MQTTUsername :: string
  cfg_MQTTPassword :: string
  cfg_MQTTTopicPrefix :: string
  cfg_WriteResponseTimeout :: int

abbreviation (input) Second :: int where "Second \<equiv> 1000000000"

definition DefaultDeviceKey :: string where
  "DefaultDeviceKey = ''0301021604050f07e6095a0b0c12630f''"

definition DefaultConfig :: config where
  "DefaultConfig = \<lparr>cfg_ReIterationTime = 5 * Second, cfg_LogLevel = ''ERROR'', cfg_DefaultKey = DefaultDeviceKey,
     cfg_WriteQueueMaxRetries = 5, cfg_MQTTEnable = True, cfg_MQTTBroker = ''tcp://127.0.0.1:1883'',
     cfg_MQTTClientID = ''module-core-loraraw'', cfg_MQTTUsername = '''', cfg_MQTTPassword = '''',
     cfg_MQTTTopicPrefix = ''module-core-loraraw'', cfg_WriteResponseTimeout = 5 * Second\<rparr>"

text \<open>The libraries: YAML written over a configuration (an error leaves what was read so far), YAML
  out, and the levels of logrus.\<close>

record 'l config_lib =
  yaml_Unmarshal :: "string \<Rightarrow> config \<Rightarrow> config"
  yaml_Marshal :: "config \<Rightarrow> goerr + string"
  log_ParseLevel :: "string \<Rightarrow> goerr + 'l"
  log_String :: "'l \<Rightarrow> string"
  log_ErrorLevel :: 'l

text \<open>The level of the logger and the configuration of the module.\<close>

record 'l config_state =
  logger_level :: 'l
  module_config :: "config option"

definition SetLogger :: "'l \<Rightarrow> 'l config_state \<Rightarrow> 'l config_state" where
  "SetLogger level s = s\<lparr>logger_level := level\<rparr>"

definition ValidateAndSetConfig ::
  "'l config_lib \<Rightarrow> string \<Rightarrow> 'l config_state \<Rightarrow> (goerr + string) \<times> 'l config_state" where
  "ValidateAndSetConfig lib config s =
     (let newConfig = yaml_Unmarshal lib config DefaultConfig;
          logLevel = (case log_ParseLevel lib (cfg_LogLevel newConfig) of Inl err \<Rightarrow> log_ErrorLevel lib | Inr level \<Rightarrow> level);
          s = SetLogger logLevel s;
          newConfig = newConfig\<lparr>cfg_LogLevel := to_upper (log_String lib logLevel)\<rparr>;
          newConfig = (if cfg_WriteResponseTimeout newConfig \<le> 0 then newConfig\<lparr>cfg_WriteResponseTimeout := 5 * Second\<rparr> else newConfig);
          newConfig = (if cfg_WriteQueueMaxRetries newConfig \<le> 0 then newConfig\<lparr>cfg_WriteQueueMaxRetries := 1\<rparr> else newConfig)
      in case hex_decode (cfg_DefaultKey newConfig) of
           (_, Some err) \<Rightarrow> (Inl err, s)
         | (keyBytes, None) \<Rightarrow>
             if keyBytes \<noteq> [] \<and> length keyBytes \<noteq> 16
             then (Inl (ErrMsg ''invalid default key: must be exactly 16 bytes''), s)
             else
               (let newConfig = (if keyBytes = [] then newConfig\<lparr>cfg_DefaultKey := DefaultDeviceKey\<rparr> else newConfig) in
                case yaml_Marshal lib newConfig of
                  Inl err \<Rightarrow> (Inl err, s)
                | Inr newConfValid \<Rightarrow> (Inr newConfValid, s\<lparr>module_config := Some newConfig\<rparr>)))"

subsection \<open>Accepted configurations\<close>

definition config_ok :: "config \<Rightarrow> bool" where
  "config_ok c \<longleftrightarrow> 1 \<le> cfg_WriteQueueMaxRetries c \<and> 0 < cfg_WriteResponseTimeout c
     \<and> (\<exists>key. hex_decode (cfg_DefaultKey c) = (key, None) \<and> length key = 16)"

lemma default_key: "hex_decode DefaultDeviceKey = ([3, 1, 2, 22, 4, 5, 15, 7, 230, 9, 90, 11, 12, 18, 99, 15], None)"
  by code_simp

text \<open>What an accepted configuration is: the parsed one with its level, bounds and key mended.\<close>

definition mended :: "'l config_lib \<Rightarrow> config \<Rightarrow> config" where
  "mended lib c = c\<lparr>
     cfg_LogLevel := to_upper (log_String lib (case log_ParseLevel lib (cfg_LogLevel c) of Inl err \<Rightarrow> log_ErrorLevel lib | Inr l \<Rightarrow> l)),
     cfg_WriteResponseTimeout := (if cfg_WriteResponseTimeout c \<le> 0 then 5 * Second else cfg_WriteResponseTimeout c),
     cfg_WriteQueueMaxRetries := max 1 (cfg_WriteQueueMaxRetries c),
     cfg_DefaultKey := (if fst (hex_decode (cfg_DefaultKey c)) = [] then DefaultDeviceKey else cfg_DefaultKey c)\<rparr>"

lemma ValidateAndSetConfig_ok:
  assumes "ValidateAndSetConfig lib yaml s = (Inr out, s')"
  shows "module_config s' = Some (mended lib (yaml_Unmarshal lib yaml DefaultConfig))
    \<and> yaml_Marshal lib (mended lib (yaml_Unmarshal lib yaml DefaultConfig)) = Inr out
    \<and> config_ok (mended lib (yaml_Unmarshal lib yaml DefaultConfig))"
proof -
  let ?c = "yaml_Unmarshal lib yaml DefaultConfig"
  obtain key e where k: "hex_decode (cfg_DefaultKey ?c) = (key, e)" by fastforce
  have k2: "e = None" "key = [] \<or> length key = 16"
    using assms k by (auto simp: ValidateAndSetConfig_def Let_def split: option.splits if_splits)
  obtain e where n: "hex_decode (cfg_DefaultKey (mended lib ?c)) = (e, None)" "length e = 16"
    using k k2 default_key by (cases "key = []") (auto simp: mended_def)
  then have "config_ok (mended lib ?c)" by (auto simp: config_ok_def mended_def)
  moreover have "module_config s' = Some (mended lib ?c) \<and> yaml_Marshal lib (mended lib ?c) = Inr out"
    using assms k k2
    by (cases "yaml_Marshal lib (mended lib ?c)")
       (auto simp: ValidateAndSetConfig_def Let_def mended_def max_def split: if_splits sum.splits)
  ultimately show ?thesis by blast
qed

lemma mended_idem:
  assumes "\<And>l. log_ParseLevel lib (to_upper (log_String lib l)) = Inr l" "config_ok (mended lib c)"
  shows "mended lib (mended lib c) = mended lib c"
proof -
  obtain key where k: "hex_decode (cfg_DefaultKey (mended lib c)) = (key, None)" "key \<noteq> []"
    using assms(2) unfolding config_ok_def by (metis list.size(3) zero_neq_numeral)
  have f: "cfg_LogLevel (mended lib c) = to_upper (log_String lib
      (case log_ParseLevel lib (cfg_LogLevel c) of Inl err \<Rightarrow> log_ErrorLevel lib | Inr l \<Rightarrow> l))"
    "0 < cfg_WriteResponseTimeout (mended lib c)" "1 \<le> cfg_WriteQueueMaxRetries (mended lib c)"
    using assms(2) by (simp_all add: mended_def config_ok_def)
  have "mended lib d = d" if "fst (hex_decode (cfg_DefaultKey d)) \<noteq> []" "0 < cfg_WriteResponseTimeout d"
    "1 \<le> cfg_WriteQueueMaxRetries d" "log_ParseLevel lib (cfg_LogLevel d) = Inr l" "cfg_LogLevel d = to_upper (log_String lib l)" for d l
    unfolding mended_def using that by (intro config.equality) simp_all
  then show ?thesis using k f assms(1) by (metis fst_conv)
qed

lemma ValidateAndSetConfig_accepts:
  assumes "hex_decode (cfg_DefaultKey (yaml_Unmarshal lib yaml DefaultConfig)) = (key, None)" "key = [] \<or> length key = 16"
    and "yaml_Marshal lib (mended lib (yaml_Unmarshal lib yaml DefaultConfig)) = Inr out"
  shows "ValidateAndSetConfig lib yaml s = (Inr out,
    \<lparr>logger_level = (case log_ParseLevel lib (cfg_LogLevel (yaml_Unmarshal lib yaml DefaultConfig)) of Inl err \<Rightarrow> log_ErrorLevel lib | Inr l \<Rightarrow> l),
     module_config = Some (mended lib (yaml_Unmarshal lib yaml DefaultConfig))\<rparr>)"
proof -
  let ?c = "yaml_Unmarshal lib yaml DefaultConfig"
  have "mended lib ?c = (let c = ?c\<lparr>cfg_LogLevel := to_upper (log_String lib
          (case log_ParseLevel lib (cfg_LogLevel ?c) of Inl err \<Rightarrow> log_ErrorLevel lib | Inr l \<Rightarrow> l))\<rparr>;
        c = (if cfg_WriteResponseTimeout c \<le> 0 then c\<lparr>cfg_WriteResponseTimeout := 5 * Second\<rparr> else c);
        c = (if cfg_WriteQueueMaxRetries c \<le> 0 then c\<lparr>cfg_WriteQueueMaxRetries := 1\<rparr> else c)
      in if key = [] then c\<lparr>cfg_DefaultKey := DefaultDeviceKey\<rparr> else c)"
    unfolding mended_def Let_def assms(1) fst_conv by (intro config.equality) (simp_all add: max_def)
  then show ?thesis using assms unfolding ValidateAndSetConfig_def Let_def
    by (auto simp: SetLogger_def)
qed

text \<open>The log level is set first, whatever becomes of the configuration; a bad key rejects it.\<close>

lemma ValidateAndSetConfig_level:
  "logger_level (snd (ValidateAndSetConfig lib yaml s))
    = (case log_ParseLevel lib (cfg_LogLevel (yaml_Unmarshal lib yaml DefaultConfig)) of
         Inl err \<Rightarrow> log_ErrorLevel lib | Inr level \<Rightarrow> level)"
proof -
  obtain level where l: "(case log_ParseLevel lib (cfg_LogLevel (yaml_Unmarshal lib yaml DefaultConfig)) of
      Inl err \<Rightarrow> log_ErrorLevel lib | Inr level \<Rightarrow> level) = level" by blast
  obtain r s' where v: "ValidateAndSetConfig lib yaml s = (r, s')" by fastforce
  then have "logger_level s' = level"
    unfolding ValidateAndSetConfig_def Let_def SetLogger_def l
    by (auto split: option.splits if_splits sum.splits prod.splits)
  then show ?thesis using v l by simp
qed

lemma ValidateAndSetConfig_key:
  assumes "hex_decode (cfg_DefaultKey (yaml_Unmarshal lib yaml DefaultConfig)) = (key, err)"
    and "err \<noteq> None \<or> (key \<noteq> [] \<and> length key \<noteq> 16)"
  shows "\<exists>e. fst (ValidateAndSetConfig lib yaml s) = Inl e"
  using assms by (cases err) (auto simp: ValidateAndSetConfig_def Let_def)

subsection \<open>Properties\<close>

text \<open>C24: Checking a configuration, in full.  An accepted one has at least one attempt per write, a positive
  response timeout and a default key of sixteen bytes, so that every device without a key of its own
  can be written to and heard, and it is the one that is printed.  A rejected one leaves the
  module's configuration as it was, but not the logger: accepted or rejected, the log level that the
  configuration asks for (or the error level) is in force afterwards, since it is set before the
  key is looked at.  A configuration whose default key is no hex string, or neither empty nor sixteen
  bytes long, is rejected.\<close>

theorem config_validated:
  shows "(case ValidateAndSetConfig lib yaml s of
      (Inl err, s') \<Rightarrow> module_config s' = module_config s
    | (Inr out, s') \<Rightarrow> \<exists>c. module_config s' = Some c \<and> yaml_Marshal lib c = Inr out
        \<and> 1 \<le> cfg_WriteQueueMaxRetries c \<and> 0 < cfg_WriteResponseTimeout c
        \<and> (\<forall>dev. dev_Manufacture dev = [] \<longrightarrow> (\<exists>key. getEncryptionKey (cfg_DefaultKey c) dev = Inr key \<and> length key = 16)))
    \<and> logger_level (snd (ValidateAndSetConfig lib yaml s))
      = (case log_ParseLevel lib (cfg_LogLevel (yaml_Unmarshal lib yaml DefaultConfig)) of
           Inl err \<Rightarrow> log_ErrorLevel lib | Inr level \<Rightarrow> level)
    \<and> (case hex_decode (cfg_DefaultKey (yaml_Unmarshal lib yaml DefaultConfig)) of
         (key, err) \<Rightarrow> err \<noteq> None \<or> (key \<noteq> [] \<and> length key \<noteq> 16)
           \<longrightarrow> (\<exists>e. fst (ValidateAndSetConfig lib yaml s) = Inl e))"
proof (intro conjI)
  show "case ValidateAndSetConfig lib yaml s of
      (Inl err, s') \<Rightarrow> module_config s' = module_config s
    | (Inr out, s') \<Rightarrow> \<exists>c. module_config s' = Some c \<and> yaml_Marshal lib c = Inr out
        \<and> 1 \<le> cfg_WriteQueueMaxRetries c \<and> 0 < cfg_WriteResponseTimeout c
        \<and> (\<forall>dev. dev_Manufacture dev = [] \<longrightarrow> (\<exists>key. getEncryptionKey (cfg_DefaultKey c) dev = Inr key \<and> length key = 16))"
  proof (cases "ValidateAndSetConfig lib yaml s")
    case (Pair r s')
    show ?thesis
    proof (cases r)
      case (Inl err)
      then show ?thesis using Pair
        by (auto simp: ValidateAndSetConfig_def SetLogger_def Let_def split: option.splits if_splits sum.splits prod.splits)
    next
      case (Inr out)
      from ValidateAndSetConfig_ok [OF Pair [unfolded Inr]] Pair Inr show ?thesis
        by (auto simp: config_ok_def getEncryptionKey_def)
    qed
  qed
qed (auto simp: ValidateAndSetConfig_level ValidateAndSetConfig_key)

definition example_lib :: "unit config_lib" where
  "example_lib = \<lparr>yaml_Unmarshal = (\<lambda>_ _. DefaultConfig\<lparr>cfg_WriteQueueMaxRetries := 1\<rparr>),
     yaml_Marshal = (\<lambda>c. if c = DefaultConfig\<lparr>cfg_WriteQueueMaxRetries := 1\<rparr> then Inr ''write_queue_max_retries: 1'' else Inl (ErrMsg ''other'')),
     log_ParseLevel = (\<lambda>s. if s = ''ERROR'' then Inr () else Inl (ErrMsg ''level'')), log_String = (\<lambda>_. ''error''),
     log_ErrorLevel = ()\<rparr>"

lemma upper_error: "to_upper ''error'' = ''ERROR''"
  by code_simp

lemma example_lib_run:
  "ValidateAndSetConfig example_lib ''write_queue_max_retries: 1'' \<lparr>logger_level = (), module_config = None\<rparr>
    = (Inr ''write_queue_max_retries: 1'',
       \<lparr>logger_level = (), module_config = Some (DefaultConfig\<lparr>cfg_WriteQueueMaxRetries := 1\<rparr>)\<rparr>)"
  by (simp add: ValidateAndSetConfig_def example_lib_def SetLogger_def DefaultConfig_def default_key upper_error)

theorem config_validated_witness:
  "\<exists>key. getEncryptionKey DefaultDeviceKey example_device = Inr key \<and> length key = 16"
  using config_validated [where lib = example_lib and yaml = "''write_queue_max_retries: 1''"
      and s = "\<lparr>logger_level = (), module_config = None\<rparr>"] example_lib_run
  by (auto simp: example_device_def DefaultConfig_def)

text \<open>Checking is stable: when YAML and log levels can be read back as they are printed, the
  configuration that is returned for an accepted one is itself accepted, with the same result and
  the same effect.\<close>

theorem config_stable:
  assumes "\<And>c out d. yaml_Marshal lib c = Inr out \<Longrightarrow> yaml_Unmarshal lib out d = c"
    and "\<And>l. log_ParseLevel lib (to_upper (log_String lib l)) = Inr l"
    and "ValidateAndSetConfig lib yaml s = (Inr out, s')"
  shows "ValidateAndSetConfig lib out s' = (Inr out, s')"
proof -
  let ?c = "mended lib (yaml_Unmarshal lib yaml DefaultConfig)"
  note ok = ValidateAndSetConfig_ok [OF assms(3)]
  have u: "yaml_Unmarshal lib out DefaultConfig = ?c" using assms(1) ok by blast
  have i: "mended lib ?c = ?c" using mended_idem [OF assms(2)] ok by blast
  obtain key where k: "hex_decode (cfg_DefaultKey ?c) = (key, None)" "length key = 16" using ok by (auto simp: config_ok_def)
  obtain key2 e where k2: "hex_decode (cfg_DefaultKey (yaml_Unmarshal lib yaml DefaultConfig)) = (key2, e)" by fastforce
  have k3: "e = None" "key2 = [] \<or> length key2 = 16"
    using assms(3) k2 by (auto simp: ValidateAndSetConfig_def Let_def split: option.splits if_splits)
  have l: "log_ParseLevel lib (cfg_LogLevel ?c) =
      Inr (case log_ParseLevel lib (cfg_LogLevel (yaml_Unmarshal lib yaml DefaultConfig)) of Inl err \<Rightarrow> log_ErrorLevel lib | Inr l \<Rightarrow> l)"
    by (simp add: mended_def assms(2))
  have "ValidateAndSetConfig lib out s' = (Inr out,
      \<lparr>logger_level = (case log_ParseLevel lib (cfg_LogLevel ?c) of Inl err \<Rightarrow> log_ErrorLevel lib | Inr l \<Rightarrow> l), module_config = Some ?c\<rparr>)"
    using ValidateAndSetConfig_accepts [of lib out key out s'] k ok u i by simp
  moreover have "ValidateAndSetConfig lib yaml s = (Inr out,
      \<lparr>logger_level = (case log_ParseLevel lib (cfg_LogLevel ?c) of Inl err \<Rightarrow> log_ErrorLevel lib | Inr l \<Rightarrow> l), module_config = Some ?c\<rparr>)"
    using ValidateAndSetConfig_accepts [of lib yaml key2 out s] k2 k3 ok l by simp
  ultimately show ?thesis using assms(3) by simp
qed

theorem config_stable_witness:
  "ValidateAndSetConfig example_lib ''write_queue_max_retries: 1''
      \<lparr>logger_level = (), module_config = Some (DefaultConfig\<lparr>cfg_WriteQueueMaxRetries := 1\<rparr>)\<rparr>
    = (Inr ''write_queue_max_retries: 1'',
       \<lparr>logger_level = (), module_config = Some (DefaultConfig\<lparr>cfg_WriteQueueMaxRetries := 1\<rparr>)\<rparr>)"
  by (rule config_stable [OF _ _ example_lib_run])
     (simp_all add: example_lib_def upper_error DefaultConfig_def split: if_splits)

end
