(* ===== verification/Module_Lifecycle.thy ===== *)
theory Module_Lifecycle
  imports Module_Loop Module_Config
begin

text \<open>
  enable.go: starting and stopping the module.  \<^verbatim>\<open>Enable\<close> makes a new queue manager, fills it with the
  writes that were pending when the module went down, and starts a run loop; the property says
  that what it leaves is a state of the write scheduler's transition system with exactly those
  writes queued, in the order of the data base.
\<close>

text \<open>\<open>lc_interrupt\<close> is the interrupt channel (nil, or whether it is full), \<open>lc_loops\<close> the number of run
  loops that were started; \<open>lc_retired\<close> and \<open>lc_clients\<close> are the queue managers and MQTT clients that were
  replaced.\<close>

record 'g lifecycle =
  lc_module :: "'g module"
  lc_interrupt :: "bool option"
  lc_loops :: nat
  lc_retired :: "manager list"
  lc_clients :: "mqtt_client list"

subsection \<open>Enable\<close>

definition write_pending :: "point \<Rightarrow> bool" where
  "write_pending pt \<longleftrightarrow> pt_PointState pt \<in> {PointStateApiWritePending, PointStateApiWriteFailed}"

text \<open>The two nested loops over the devices of the network and their points.\<close>

definition enqueue_pending :: "network \<Rightarrow> manager \<Rightarrow> manager" where
  "enqueue_pending net m =
     fold (\<lambda>dev m. fold (\<lambda>pt m. if write_pending pt then EnqueuePoint pt m else m) (dev_Points dev) m) (net_Devices net) m"

definition Enable :: "'g module_env \<Rightarrow> config \<Rightarrow> 'g lifecycle \<Rightarrow> goerr option \<times> 'g lifecycle" where
  "Enable env cfg lc =
     (let md = lc_module lc;
          (networks, g) = (case g_GetNetworksByPluginName (me_grpc env) (me_moduleName env) (md_grpc md) of
                             Inl err \<Rightarrow> ([], snd (updatePluginMessage env MessageLevelFail (Some err) (md_grpc md)))
                           | Inr networks \<Rightarrow> (networks, md_grpc md));
          retired = (case md_manager md of None \<Rightarrow> [] | Some m \<Rightarrow> [manager_Stop m]);
          manager = NewPointWriteQueueManager (cfg_WriteQueueMaxRetries cfg);
          mqtt = (if cfg_MQTTEnable cfg \<and> md_mqtt md = None
                  then NewMQTTClient (cfg_MQTTBroker cfg) (cfg_MQTTClientID cfg) (cfg_MQTTUsername cfg) (cfg_MQTTPassword cfg)
                    (cfg_MQTTTopicPrefix cfg)
                  else md_mqtt md);
          (manager, g) =
            (case networks of
               [] \<Rightarrow> (manager, snd (updatePluginMessage env MessageLevelWarning (Some (ErrMsg ''no LoRaRAW networks exist'')) g))
             | network # _ \<Rightarrow>
                 (case g_GetNetwork (me_grpc env) (net_UUID network) g of
                    Inl err \<Rightarrow> (manager, g)
                  | Inr net \<Rightarrow> (enqueue_pending net manager, g)));
          g = snd (updatePluginMessage env MessageLevelInfo None g)
      in (None, lc\<lparr>lc_module := md\<lparr>md_grpc := g, md_serial := initWriteQueue (md_serial md), md_manager := Some manager, md_mqtt := mqtt\<rparr>,
            lc_interrupt := Some False, lc_loops := lc_loops lc + 1, lc_retired := lc_retired lc @ retired\<rparr>))"

text \<open>\<^verbatim>\<open>Disable\<close> blocks, with the module's mutex held, when the interrupt channel is nil or full.\<close>

definition Disable :: "'g lifecycle \<Rightarrow> (goerr option \<times> 'g lifecycle) option" where
  "Disable lc =
     (if lc_interrupt lc = Some False
      then (let md = lc_module lc in
        Some (None, lc\<lparr>lc_interrupt := Some True,
          lc_clients := lc_clients lc @ (case Disconnect (md_mqtt md) of None \<Rightarrow> [] | Some c \<Rightarrow> [c]),
          lc_module := md\<lparr>md_manager := map_option manager_Stop (md_manager md), md_serial := stopWriteQueue (md_serial md),
            md_mqtt := None\<rparr>\<rparr>))
      else None)"

text \<open>A network that is created starts a run loop of its own.\<close>

definition module_addNetwork :: "'g module_env \<Rightarrow> network \<Rightarrow> 'g lifecycle \<Rightarrow> (goerr + network) \<times> 'g lifecycle" where
  "module_addNetwork env body lc =
     (case addNetwork env body (md_grpc (lc_module lc)) of
        (Inl err, g) \<Rightarrow> (Inl err, lc\<lparr>lc_module := (lc_module lc)\<lparr>md_grpc := g\<rparr>\<rparr>)
      | (Inr network, g) \<Rightarrow>
          (Inr network, lc\<lparr>lc_module := (lc_module lc)\<lparr>md_grpc := g, md_networkUUID := net_UUID network\<rparr>, lc_loops := lc_loops lc + 1\<rparr>))"

subsection \<open>Enqueueing as steps\<close>

lemma enqueue_pending_fold:
  "enqueue_pending net m = fold EnqueuePoint (filter write_pending (concat (map dev_Points (net_Devices net)))) m"
proof -
  have "fold (\<lambda>pt m. if write_pending pt then EnqueuePoint pt m else m) pts m = fold EnqueuePoint (filter write_pending pts) m" for pts m
    by (induction pts arbitrary: m) auto
  then have "fold (\<lambda>dev m. fold (\<lambda>pt m. if write_pending pt then EnqueuePoint pt m else m) (dev_Points dev) m) devs m
      = fold EnqueuePoint (filter write_pending (concat (map dev_Points devs))) m" for devs m
    by (induction devs arbitrary: m) (simp_all add: fold_append)
  then show ?thesis by (simp add: enqueue_pending_def)
qed

text \<open>A call of \<^verbatim>\<open>EnqueuePoint\<close> is a create, an append and a wake of the transition system.\<close>

lemma EnqueuePoint_steps:
  assumes "reachable env k s" "\<forall>i. pc_of s \<noteq> Scan i"
  shows "reachable env k (s\<lparr>mgr := EnqueuePoint pt (mgr s)\<rparr>)"
proof -
  obtain q m where c: "getOrCreateQueue (pt_DeviceUUID pt) (mgr s) = (q, m)" by fastforce
  have q: "queues m (pt_DeviceUUID pt) = Some q" using c by (auto simp: getOrCreateQueue_def Let_def split: option.splits)
  let ?s = "s\<lparr>mgr := m\<rparr>"
  have "reachable env k ?s" using reachable_step [OF assms(1) sched_step.create [OF assms(2)], of "pt_DeviceUUID pt"] c by simp
  from reachable_step [OF this sched_step.append [where pt = pt and q = q]] q
  have "reachable env k (?s\<lparr>mgr := append_point pt q m, waking := waking s + 1\<rparr>)" by simp
  from reachable_step [OF this sched_step.wakes [where k = "waking s"]]
  show ?thesis using c by (simp add: EnqueuePoint_def)
qed

lemma EnqueuePoints_steps:
  assumes "reachable env k s" "\<forall>i. pc_of s \<noteq> Scan i"
  shows "reachable env k (s\<lparr>mgr := fold EnqueuePoint pts (mgr s)\<rparr>)"
  using assms
proof (induction pts arbitrary: s)
  case (Cons pt pts)
  from Cons.IH [OF EnqueuePoint_steps [OF Cons.prems, of pt]] Cons.prems show ?case by simp
qed simp

definition fresh_item :: "point \<Rightarrow> pending_write" where
  "fresh_item pt = \<lparr>MessageId = 0, Message = None, MessageType = False, Point = pt, RetryCount = 0, done_closed = False, acked = False\<rparr>"

lemma EnqueuePoint_store: "mgr_store (EnqueuePoint pt m) = mgr_store m @ [fresh_item pt]"
  by (auto simp: EnqueuePoint_def getOrCreateQueue_def append_point_def put_queue_def EnqueueWriteQueue_def new_item_def
      wake_def fresh_item_def split: option.split)

lemma EnqueuePoints_store: "mgr_store (fold EnqueuePoint pts m) = mgr_store m @ map fresh_item pts"
  by (induction pts arbitrary: m) (simp_all add: EnqueuePoint_store)

lemma EnqueuePoint_queue:
  "queue_of (EnqueuePoint pt m) dev =
     (if pt_DeviceUUID pt = dev then queue_of m dev @ [length (mgr_store m)] else queue_of m dev)"
  by (auto simp: queue_of_def EnqueuePoint_def getOrCreateQueue_def append_point_def put_queue_def EnqueueWriteQueue_def
      NewPointWriteQueue_def wake_def split: option.split)

lemma EnqueuePoints_queue:
  assumes "\<And>d. queue_of m d = filter (\<lambda>a. device_of (mgr_store m) a = d) [0..<length (mgr_store m)]"
  shows "queue_of (fold EnqueuePoint pts m) dev
    = filter (\<lambda>a. device_of (mgr_store (fold EnqueuePoint pts m)) a = dev) [0..<length (mgr_store (fold EnqueuePoint pts m))]"
  using assms
proof (induction pts arbitrary: m)
  case (Cons pt pts)
  let ?m = "EnqueuePoint pt m"
  have "queue_of ?m d = filter (\<lambda>a. device_of (mgr_store ?m) a = d) [0..<length (mgr_store ?m)]" for d
    using Cons.prems [of d] by (auto simp: EnqueuePoint_queue EnqueuePoint_store device_of_def nth_append fresh_item_def
        intro!: filter_cong)
  from Cons.IH [OF this] show ?case by simp
qed simp

lemma points_of_device:
  "map (\<lambda>a. Point (st ! a)) (filter (\<lambda>a. device_of st a = dev) [0..<length st]) = filter (\<lambda>pt. pt_DeviceUUID pt = dev) (map Point st)"
proof -
  have "map Point st = map (\<lambda>a. Point (st ! a)) [0..<length st]" by (rule nth_equalityI) simp_all
  then show ?thesis by (simp only: filter_map comp_def device_of_def)
qed

subsection \<open>After a stop\<close>

definition ready_to_send :: "system \<Rightarrow> bool" where
  "ready_to_send s = (case pc_of s of Ready _ _ \<Rightarrow> True | _ \<Rightarrow> False)"

definition quiet_since :: "system \<Rightarrow> system \<Rightarrow> bool" where
  "quiet_since s t \<longleftrightarrow> stop_closed (mgr t) \<and> prefix (air s) (air t) \<and> (ready_to_send t \<longrightarrow> ready_to_send s \<and> air t = air s)
     \<and> length (air t) \<le> length (air s) + (if ready_to_send s then 1 else 0)"

lemma stop_closed_kept:
  "stop_closed (put_queue dev sq m) = stop_closed m" "stop_closed (snd (getOrCreateQueue dev m)) = stop_closed m"
  "stop_closed (append_point pt q m) = stop_closed m" "stop_closed (wake m) = stop_closed m"
  "manager_DequeueUsingMessageId dev i m = (r, m') \<Longrightarrow> stop_closed m' = stop_closed m"
  "count_attempt item m = (again, m') \<Longrightarrow> stop_closed m' = stop_closed m"
  "give_up dev item m = (gone, m') \<Longrightarrow> stop_closed m' = stop_closed m"
  "stop_closed (drop_item dev item m) = stop_closed m"
  by (auto simp: put_queue_def getOrCreateQueue_def append_point_def wake_def manager_DequeueUsingMessageId_def
      count_attempt_def give_up_def drop_item_def Let_def split: option.splits prod.splits bool.splits)

lemma quiet_transfer:
  assumes "quiet_since s t" "stop_closed (mgr u)" "air u = air t" "ready_to_send u \<longrightarrow> ready_to_send t"
  shows "quiet_since s u"
  using assms by (auto simp: quiet_since_def)

lemma quiet_since_step:
  assumes "sched_step env t u" "quiet_since s t"
  shows "quiet_since s u"
proof -
  have st: "stop_closed (mgr t)" using assms(2) by (simp add: quiet_since_def)
  note keep = quiet_transfer [OF assms(2)]
  show ?thesis
    using assms(1)
  proof cases
    case (response dev messageId r m)
    then show ?thesis using stop_closed_kept(5) [OF response(2)] st by (intro keep) (simp_all add: ready_to_send_def)
  next
    case (counted dev item pause retry m)
    then show ?thesis using stop_closed_kept(6) [OF counted(3)] st by (intro keep) (simp_all add: ready_to_send_def after_attempt_def)
  next
    case (exhausted dev item pause pt m)
    then show ?thesis using stop_closed_kept(7) [OF exhausted(3)] st by (intro keep) (simp_all add: ready_to_send_def after_attempt_def)
  next
    case (overtaken dev item pause m)
    then show ?thesis using stop_closed_kept(7) [OF overtaken(3)] st by (intro keep) (simp_all add: ready_to_send_def after_attempt_def)
  next
    case (sent dev item frame)
    have "ready_to_send t" using sent by (simp add: ready_to_send_def)
    then have "ready_to_send s" "air t = air s" using assms(2) by (simp_all add: quiet_since_def)
    then show ?thesis using sent st by (simp add: quiet_since_def ready_to_send_def)
  qed ((rule keep; insert st; simp add: ready_to_send_def after_attempt_def stop_closed_kept(1-4,8) manager_Stop_def)+)
qed

lemma quiet_since_start: "stop_closed (mgr s) \<Longrightarrow> quiet_since s s"
  by (simp add: quiet_since_def)

interpretation quiet: inductive_invariant "sched_step env" "\<lambda>t. t = s \<and> stop_closed (mgr s)" "quiet_since s" for env s
  by unfold_locales (simp_all add: quiet_since_start quiet_since_step)

subsection \<open>Properties\<close>

text \<open>C20: \<^verbatim>\<open>Enable\<close> hands the scheduler every write that was pending or had failed when the module went
  down, and nothing else: each device's queue holds them in the order of the data base, none tried
  yet, and the state is one the scheduler's transition system can start from.\<close>

theorem enable_requeues:
  assumes "g_GetNetworksByPluginName (me_grpc env) (me_moduleName env) (md_grpc (lc_module lc)) = Inr (network # rest)"
    and "g_GetNetwork (me_grpc env) (net_UUID network) (md_grpc (lc_module lc)) = Inr net"
  shows "\<exists>m. md_manager (lc_module (snd (Enable env cfg lc))) = Some m
    \<and> reachable senv (cfg_WriteQueueMaxRetries cfg) ((start (cfg_WriteQueueMaxRetries cfg))\<lparr>mgr := m\<rparr>)
    \<and> (\<forall>dev. map (\<lambda>a. Point (mgr_store m ! a)) (queue_of m dev)
          = filter (\<lambda>pt. write_pending pt \<and> pt_DeviceUUID pt = dev) (concat (map dev_Points (net_Devices net))))
    \<and> (\<forall>w \<in> set (mgr_store m). RetryCount w = 0 \<and> Message w = None \<and> \<not> done_closed w)"
proof -
  let ?pts = "filter write_pending (concat (map dev_Points (net_Devices net)))"
  let ?m0 = "NewPointWriteQueueManager (cfg_WriteQueueMaxRetries cfg)"
  define m where "m = fold EnqueuePoint ?pts ?m0"
  have "md_manager (lc_module (snd (Enable env cfg lc))) = Some m"
    using assms by (simp add: Enable_def Let_def enqueue_pending_fold m_def)
  moreover have "reachable senv (cfg_WriteQueueMaxRetries cfg) (start (cfg_WriteQueueMaxRetries cfg))"
    by (simp add: reachable_def)
  from EnqueuePoints_steps [OF this, of ?pts]
  have "reachable senv (cfg_WriteQueueMaxRetries cfg) ((start (cfg_WriteQueueMaxRetries cfg))\<lparr>mgr := m\<rparr>)"
    by (simp add: start_def m_def)
  moreover have st: "mgr_store m = map fresh_item ?pts"
    by (simp add: m_def EnqueuePoints_store NewPointWriteQueueManager_def)
  have "queue_of m dev = filter (\<lambda>a. device_of (mgr_store m) a = dev) [0..<length (mgr_store m)]" for dev
    unfolding m_def by (rule EnqueuePoints_queue) (simp add: queue_of_def NewPointWriteQueueManager_def)
  then have "map (\<lambda>a. Point (mgr_store m ! a)) (queue_of m dev) = filter (\<lambda>pt. write_pending pt \<and> pt_DeviceUUID pt = dev) (concat (map dev_Points (net_Devices net)))" for dev
    using points_of_device [of "mgr_store m" dev] by (simp add: st comp_def fresh_item_def conj_commute)
  moreover have "\<forall>w \<in> set (mgr_store m). RetryCount w = 0 \<and> Message w = None \<and> \<not> done_closed w"
    by (simp add: st fresh_item_def)
  ultimately show ?thesis by blast
qed

theorem enable_requeues_witness:
  "\<exists>env m. md_manager (lc_module (snd (Enable env DefaultConfig
      \<lparr>lc_module = node_module None, lc_interrupt = None, lc_loops = 0, lc_retired = [], lc_clients = []\<rparr>))) = Some m
    \<and> map (\<lambda>a. Point (mgr_store m ! a)) (queue_of m ''dev'') = [example_write\<lparr>pt_PointState := PointStateApiWritePending\<rparr>]"
proof -
  let ?pt = "example_write\<lparr>pt_PointState := PointStateApiWritePending\<rparr>"
  let ?env = "node_env\<lparr>me_grpc := log_grpc (node\<lparr>dev_Points := [example_write, ?pt]\<rparr>)\<rparr>"
  let ?lc = "\<lparr>lc_module = node_module None, lc_interrupt = None, lc_loops = 0, lc_retired = [], lc_clients = []\<rparr>"
  have n: "g_GetNetworksByPluginName (me_grpc ?env) (me_moduleName ?env) (md_grpc (lc_module ?lc)) = Inr [home]"
    "g_GetNetwork (me_grpc ?env) (net_UUID home) (md_grpc (lc_module ?lc)) = Inr (home\<lparr>net_Devices := [node\<lparr>dev_Points := [example_write, ?pt]\<rparr>]\<rparr>)"
    by (simp_all add: log_grpc_def)
  have p: "\<not> write_pending example_write" "write_pending ?pt" "pt_DeviceUUID ?pt = ''dev''"
    by (simp_all add: write_pending_def example_write_def example_point_def zero_point_def)
  have f: "filter (\<lambda>pt. write_pending pt \<and> pt_DeviceUUID pt = ''dev'')
      (concat (map dev_Points (net_Devices (home\<lparr>net_Devices := [node\<lparr>dev_Points := [example_write, ?pt]\<rparr>]\<rparr>)))) = [?pt]"
    using p by simp
  from enable_requeues [OF n, of DefaultConfig] obtain m where
    "md_manager (lc_module (snd (Enable ?env DefaultConfig ?lc))) = Some m"
    and q: "\<forall>dev. map (\<lambda>a. Point (mgr_store m ! a)) (queue_of m dev) = filter (\<lambda>pt. write_pending pt \<and> pt_DeviceUUID pt = dev)
      (concat (map dev_Points (net_Devices (home\<lparr>net_Devices := [node\<lparr>dev_Points := [example_write, ?pt]\<rparr>]\<rparr>))))"
    by blast
  moreover from q have "map (\<lambda>a. Point (mgr_store m ! a)) (queue_of m ''dev'') = [?pt]" by (simp only: f)
  ultimately show ?thesis by (intro exI conjI)
qed

text \<open>C21: A stopped scheduler is quiet: after the manager is stopped at most one more frame goes on the air,
  and only if that frame was about to be sent when it was stopped.\<close>

theorem stopped_scheduler_quiet:
  assumes "stop_closed (mgr s)" "(sched_step env)\<^sup>*\<^sup>* s t"
  shows "prefix (air s) (air t) \<and> length (air t) \<le> length (air s) + (if \<exists>dev item. pc_of s = Ready dev item then 1 else 0)"
proof -
  have "ready_to_send s \<longleftrightarrow> (\<exists>dev item. pc_of s = Ready dev item)" by (simp add: ready_to_send_def split: pc.split)
  then show ?thesis using quiet.holds [OF assms(2), of s] assms(1) by (simp add: quiet_since_def)
qed

theorem stopped_scheduler_quiet_witness:
  "\<exists>s f. reachable example_sched 2 s \<and> stop_closed (mgr s)
    \<and> (\<forall>t. (sched_step example_sched)\<^sup>*\<^sup>* s t \<longrightarrow> length (air t) \<le> 1)
    \<and> (\<exists>t. sched_step example_sched s t \<and> air t = [(0, f)])"
proof -
  obtain f where r: "reachable example_sched 2
      (example_state (Ready (pt_DeviceUUID example_write) 0) (example_item (Some f) 0 False) [0] 1 [] [])" (is "reachable _ _ ?s")
    using example_ready by blast
  let ?t = "?s\<lparr>mgr := manager_Stop (mgr ?s)\<rparr>"
  have r2: "reachable example_sched 2 ?t" by (rule reachable_step [OF r sched_step.stops])
  have c: "stop_closed (mgr ?t)" by (simp add: manager_Stop_def)
  have "\<forall>u. (sched_step example_sched)\<^sup>*\<^sup>* ?t u \<longrightarrow> length (air u) \<le> 1"
    using stopped_scheduler_quiet [OF c] by (fastforce simp: example_state_def)
  moreover have "sched_step example_sched ?t (?t\<lparr>pc_of := Await (pt_DeviceUUID example_write) 0, air := air ?t @ [(0, f)]\<rparr>)"
    by (rule sched_step.sent) (simp_all add: example_state_def example_item_def item_at_def manager_Stop_def)
  moreover have "air (?t\<lparr>pc_of := Await (pt_DeviceUUID example_write) 0, air := air ?t @ [(0, f)]\<rparr>) = [(0, f)]"
    by (simp add: example_state_def)
  ultimately show ?thesis using r2 c by blast
qed

end
