(* ===== verification/Module_Schema.thy ===== *)
theory Module_Schema
  imports Device_Registry Rubix_Wire
begin

text \<open>
  schema/: what the module tells the user interface about its networks, devices and points.  The
  values are the struct tags of the module's own types; the types of the schema library are left out,
  and its \<^verbatim>\<open>Set\<close>, which copies the tags into the fields that are still zero, is a parameter.
\<close>

subsection \<open>The tags\<close>

record enum_schema =
  en_Type :: string
  en_Title :: string
  en_Options :: "string list"
  en_EnumName :: "string list"
  en_Default :: string
  en_ReadOnly :: bool

definition DataType_tags :: enum_schema where
  "DataType_tags = \<lparr>en_Type = ''string'', en_Title = ''Data Type'',
     en_Options = [''1'', ''2'', ''3'', ''4'', ''5'', ''6'', ''7'', ''8'', ''10'', ''11'', ''12'', ''13'', ''16'', ''17'',
       ''18'', ''19'', ''20'', ''30'', ''31'', ''32'', ''33'', ''34'', ''35'', ''36'', ''37'', ''38'', ''39'', ''40'', ''41'',
       ''42'', ''61'', ''62''],
     en_EnumName = [''MDK_TEMP'', ''MDK_RH'', ''MDK_LUX'', ''MDK_MOVEMENT'', ''MDK_COUNTER'', ''MDK_DIGITAL'',
       ''MDK_VOLTAGE_0_10'', ''MDK_MILLIAMPS_4_20'', ''MDK_OHM'', ''MDK_CO2'', ''MDK_BATTERY_VOLTAGE'', ''MDK_PUSH_FREQUENCY'',
       ''MDK_RAW'', ''MDK_UO'', ''MDK_UI'', ''MDK_DO'', ''MDK_DI'', ''MDK_UINT_8'', ''MDK_INT_8'', ''MDK_UINT_16'', ''MDK_INT_16'',
       ''MDK_UINT_32'', ''MDK_INT_32'', ''MDK_UINT_64'', ''MDK_INT_64'', ''MDK_BOOL'', ''MDK_CHAR'', ''MDK_FLOAT'', ''MDK_DOUBLE'',
       ''MDK_STRING'', ''MDK_FIRMWARE_VERSION'', ''MDK_HARDWARE_VERSION''],
     en_Default = ''40'', en_ReadOnly = False\<rparr>"

definition serial_ports :: "string list" where
  "serial_ports = [''/dev/ttyAMA0'', ''/dev/ttyRS485-1'', ''/dev/ttyRS485-2'', ''/data/socat/loRa1'', ''/dev/ttyUSB0'',
     ''/dev/ttyUSB1'', ''/dev/ttyUSB2'', ''/dev/ttyUSB3'', ''/dev/ttyUSB4'', ''/data/socat/serialBridge1'', ''/dev/ttyACM0'']"

definition SerialPortLora_tags :: enum_schema where
  "SerialPortLora_tags = \<lparr>en_Type = ''string'', en_Title = ''Serial Port'', en_Options = serial_ports, en_EnumName = serial_ports,
     en_Default = ''/data/socat/LoRa1'', en_ReadOnly = False\<rparr>"

record number_schema =
  nu_Type :: string
  nu_Title :: string
  nu_Default :: int
  nu_Minimum :: int
  nu_Maximum :: int
  nu_ReadOnly :: bool
  nu_Description :: string

definition AddressId_tags :: number_schema where
  "AddressId_tags = \<lparr>nu_Type = ''number'', nu_Title = ''Point ID'', nu_Default = 1, nu_Minimum = 1, nu_Maximum = 256,
     nu_ReadOnly = False, nu_Description = ''Decimal format: 1-256''\<rparr>"

record key_schema =
  ks_Type :: string
  ks_Title :: string
  ks_Min :: nat
  ks_Max :: nat

definition DeviceKey_tags :: key_schema where
  "DeviceKey_tags = \<lparr>ks_Type = ''string'', ks_Title = ''Device Key'', ks_Min = 32, ks_Max = 32\<rparr>"

subsection \<open>The schemas\<close>

text \<open>The fields the code itself writes; those left to \<^verbatim>\<open>Set\<close> are zero before it.\<close>

record device_schema =
  ds_AddressMin :: nat
  ds_AddressMax :: nat
  ds_ModelNames :: "string list"
  ds_ModelOptions :: "string list"
  ds_DeviceKey :: key_schema

record network_schema =
  ns_SerialPort :: enum_schema

record point_schema =
  ps_AddressId :: number_schema
  ps_DataType :: enum_schema
  ps_UnitNames :: "string list"
  ps_UnitOptions :: "string list"

definition zero_enum :: enum_schema where
  "zero_enum = \<lparr>en_Type = '''', en_Title = '''', en_Options = [], en_EnumName = [], en_Default = '''', en_ReadOnly = False\<rparr>"

definition zero_number :: number_schema where
  "zero_number = \<lparr>nu_Type = '''', nu_Title = '''', nu_Default = 0, nu_Minimum = 0, nu_Maximum = 0, nu_ReadOnly = False,
     nu_Description = ''''\<rparr>"

definition zero_key :: key_schema where
  "zero_key = \<lparr>ks_Type = '''', ks_Title = '''', ks_Min = 0, ks_Max = 0\<rparr>"

text \<open>\<^verbatim>\<open>schema.Set\<close> at the three types, and the unit tables of a library.\<close>

record schema_lib =
  set_network :: "network_schema \<Rightarrow> network_schema"
  set_device :: "device_schema \<Rightarrow> device_schema"
  set_point :: "point_schema \<Rightarrow> point_schema"
  SupportedUnitsNames :: "string list \<times> string list"

definition schema_GetNetworkSchema :: "schema_lib \<Rightarrow> network_schema" where
  "schema_GetNetworkSchema sl = set_network sl \<lparr>ns_SerialPort = zero_enum\<rparr>"

definition schema_GetDeviceSchema :: "schema_lib \<Rightarrow> device_schema" where
  "schema_GetDeviceSchema sl = set_device sl \<lparr>ds_AddressMin = 8, ds_AddressMax = 8, ds_ModelNames = device_models,
     ds_ModelOptions = device_models, ds_DeviceKey = zero_key\<rparr>"

definition schema_GetPointSchema :: "schema_lib \<Rightarrow> point_schema" where
  "schema_GetPointSchema sl = (case SupportedUnitsNames sl of (names, options) \<Rightarrow>
     set_point sl \<lparr>ps_AddressId = zero_number, ps_DataType = zero_enum, ps_UnitNames = names, ps_UnitOptions = options\<rparr>)"

subsection \<open>Lemmas\<close>

text \<open>The default serial port is not one of the options (it differs in one letter's case).\<close>

lemma default_port_not_offered: "en_Default SerialPortLora_tags \<notin> set (en_Options SerialPortLora_tags)"
  by (simp add: SerialPortLora_tags_def serial_ports_def)

lemma models_described:
  "m \<in> set device_models \<longleftrightarrow> (\<exists>d \<in> set LoRaDeviceDescriptions. Model d = m)"
  unfolding registered_forms by (auto simp: device_models_def legacy_desc_def zht_desc_def rubix_desc_def)

text \<open>The offered data types as numbers; the last five have no entry in the table of the wire format.\<close>

definition sendable_types :: "nat list" where
  "sendable_types = [1, 2, 3, 4, 5, 6, 7, 8, 10, 11, 12, 13, 16, 30, 31, 32, 33, 34, 35, 36, 37, 38, 39, 40, 41, 61, 62]"

definition unsendable_types :: "nat list" where
  "unsendable_types = [17, 18, 19, 20, 42]"

lemma offered_numbers: "set (en_Options DataType_tags) = itoa_nat ` (set sendable_types \<union> set unsendable_types)"
  by code_simp

lemma unsendable_drops:
  assumes "k \<in> set unsendable_types" "pt_WriteValue pt = Some v" "atoi (pt_DataType pt) = Inr (int k)" "getPosition (pt_IoNumber pt) = Inr pos"
  shows "EncodeRequestMessage oor [pt] = Some (Inr [1])"
proof -
  have c: "convertData oor n (int k) = None" for n
    using assms(1) by (auto simp: unsendable_types_def convertData_def getMetaData_def serialMap_def Let_def)
  have "setPositionalData NewSerialData True = Some (NewSerialData\<lparr>Buffer := [1]\<rparr>)"
    by (simp add: setPositionalData_def NewSerialData_def BIT_SET_def)
  then show ?thesis using assms(2-4)
    by (simp add: EncodeRequestMessage_def encode_point_def EncodeData_def hasPositionalData_def c Let_def)
qed

subsection \<open>What is sent\<close>

text \<open>The number of data bits and the code a write of the value \<open>x\<close> (the float \<open>v\<close>) to a point of type \<open>k\<close> is sent
  with.  A fixed-point value is clamped to the range of its type and sent as the number of steps above the lowest
  value, rounded, and cut to the bits of the type (only the top of the two counters of 20 bits does not fit); an
  integer is truncated (one that is out of range depends on the machine and is left open); the floats
  are sent as their bits.\<close>

definition sent_bits :: "nat \<Rightarrow> nat" where
  "sent_bits k = (if k = 41 then 64 else wire_bits k)"

definition clamped :: "nat \<Rightarrow> rat \<Rightarrow> rat" where
  "clamped k x = max (of_int (lowValue (getMetaData (int k)))) (min (of_int (highValue (getMetaData (int k)))) x)"

definition sent_code :: "nat \<Rightarrow> gofloat \<Rightarrow> rat \<Rightarrow> nat \<Rightarrow> bool" where
  "sent_code k v x c \<longleftrightarrow>
     (case fixed_format k of
        Some (n, low, decimals) \<Rightarrow>
          (\<exists>steps. c = steps mod 2 ^ n \<and> \<bar>of_nat steps - (clamped k x - of_int low) * 10 ^ decimals\<bar> \<le> 1 / 2 + 1 / 2 ^ 22)
      | None \<Rightarrow>
          if k = 40 then c = unat (f32_bits (f32_of_f64 v))
          else if k = 41 then c = unat (f64_bits v)
          else (\<forall>lo hi. int_range (int k) = Some (lo, hi) \<and> lo \<le> trunc x \<and> trunc x \<le> hi
                  \<longrightarrow> int c = trunc x mod 2 ^ wire_bits k))"

lemma bits_num_val_bits: "n \<le> 64 \<Longrightarrow> bits_num (val_bits n d) = take_bit n (unat (d :: 64 word))"
proof -
  assume n: "n \<le> 64"
  have "bits_val (val_bits n d) = take_bit n d" using n by (simp add: bits_val_val_bits)
  then have "of_nat (bits_num (val_bits n d)) = take_bit n d" by (simp add: bits_val_num)
  moreover have "bits_num (val_bits n d) < 2 ^ n" using bits_num_less [of "val_bits n d"] by simp
  moreover have "(2 :: nat) ^ n \<le> 2 ^ 64" using n by (rule power_increasing) simp
  moreover from calculation(2,3) have "unat (of_nat (bits_num (val_bits n d)) :: 64 word) = bits_num (val_bits n d)"
    by (simp add: unsigned_of_nat take_bit_nat_eq_self)
  ultimately have "bits_num (val_bits n d) = unat (take_bit n d)" by metis
  then show ?thesis by (simp add: unsigned_take_bit_eq)
qed

text \<open>The fixed-point types.\<close>

lemma fixed_format_table:
  assumes "fixed_format k = Some (n, low, decimals)"
  shows "dataType (getMetaData (int k)) = FIXEDPOINT" "lowValue (getMetaData (int k)) = low"
    "decimalPoint (getMetaData (int k)) = decimals" "field_width (int k) = n"
    "write_num oor (int k) v = F64 v"
proof -
  have "k \<in> {1, 2, 3, 4, 5, 6, 7, 8, 10, 11, 12, 13, 16, 38, 61, 62}"
    using map_of_SomeD [OF assms [unfolded fixed_format_def]] by auto
  note ks = this
  have "decodable (int k)" using ks by (elim insertE emptyE) (simp_all add: decodable_def key_target_def)
  from field_width_format [OF this] show "field_width (int k) = n" using assms by (simp add: wire_bits_def)
  show "dataType (getMetaData (int k)) = FIXEDPOINT" "lowValue (getMetaData (int k)) = low"
    "decimalPoint (getMetaData (int k)) = decimals" "write_num oor (int k) v = F64 v"
    using ks assms by (elim insertE emptyE; simp add: getMetaData_def serialMap_def fixed_format_def write_num_def)+
qed

lemma fixed_point_clamped:
  "fl_value v = Some x \<Longrightarrow> lowValue m \<le> highValue m \<Longrightarrow>
   fixedPointToBits oor False v m = fixedPointToBits oor False (clamp v (of_int (lowValue m)) (of_int (highValue m))) m
   \<and> near (clamp v (of_int (lowValue m)) (of_int (highValue m)))
       (max (of_int (lowValue m)) (min (of_int (highValue m)) x)) 0"
  by (cases v) (auto simp: fixedPointToBits_def clamp_def near_def Let_def)

lemma fixed_point_sent:
  assumes "fixed_format k = Some (n, low, decimals)" "fl_value v = Some x"
  shows "\<exists>d. convertData oor (write_num oor (int k) v) (int k) = Some (d, sent_bits k) \<and> n = sent_bits k
    \<and> sent_code k v x (take_bit n (unat d))"
proof -
  let ?m = "getMetaData (int k)"
  note t = fixed_format_table [OF assms(1)]
  have fp: "fp_entry ?m" using fp_entry_table t(1) by simp
  then have lh: "lowValue ?m \<le> highValue ?m" by (simp add: fp_entry_def)
  note cl = fixed_point_clamped [OF assms(2) lh]
  obtain c where c: "fixedPointToBits oor False v ?m = (word_of_int c, getBitCount (lowValue ?m) (highValue ?m) (decimalPoint ?m))"
    "0 \<le> c" "c \<le> top_code ?m"
    "\<bar>of_int c - (clamped k x - of_int (lowValue ?m)) * resolution ?m\<bar> \<le> 1 / 2 + (0 * resolution ?m + 1 / 2 ^ 22)"
  proof (rule fixedPointToBits_near [OF fp cl [THEN conjunct2], of oor])
    show "of_int (lowValue ?m) \<le> max (of_int (lowValue ?m)) (min (of_int (highValue ?m)) x)" by simp
    show "max (of_int (lowValue ?m)) (min (of_int (highValue ?m)) x) \<le> of_int (highValue ?m)" using lh by simp
  qed (use cl that in \<open>auto simp: clamped_def\<close>)
  have "top_code ?m \<le> 2 ^ 20" using fp by (simp add: fp_entry_def)
  then have "uint (word_of_int c :: 64 word) = c" using c(2,3) by (intro uint_code) simp_all
  then have u: "unat (word_of_int c :: 64 word) = nat c" by (metis of_nat_unat nat_int)
  have n: "getBitCount (lowValue ?m) (highValue ?m) (decimalPoint ?m) = n"
    using t(1,4) by (simp add: field_width_def Let_def)
  have k: "k \<noteq> 41" "sent_bits k = n" using assms(1) by (auto simp: fixed_format_def sent_bits_def wire_bits_def split: if_splits)
  have "\<bar>of_nat (nat c) - (clamped k x - of_int low) * 10 ^ decimals\<bar> \<le> 1 / 2 + 1 / 2 ^ 22"
    using c(2,4) t(2,3) by (simp add: resolution_def)
  then have "sent_code k v x (take_bit n (nat c))"
    using assms(1) by (auto simp: sent_code_def take_bit_eq_mod)
  then show ?thesis using c(1) u t(1,5) n k by (simp add: convertData_def)
qed

text \<open>The integer and float types.\<close>

lemma narrow_code:
  assumes "LENGTH('a) \<le> 64"
  shows "int (take_bit LENGTH('a) (unat (ucast (word_of_int z :: 'a::len word) :: 64 word))) = z mod 2 ^ LENGTH('a)"
proof -
  have "uint (ucast (word_of_int z :: 'a word) :: 64 word) = take_bit LENGTH('a) z"
    using assms by (simp add: unsigned_ucast_eq unsigned_of_int)
  then have "take_bit LENGTH('a) (int (unat (ucast (word_of_int z :: 'a word) :: 64 word))) = take_bit LENGTH('a) z" by simp
  then show ?thesis by (simp only: of_nat_take_bit) (simp add: take_bit_eq_mod)
qed

lemma integer_sent:
  assumes "k \<in> {30, 31, 32, 33, 34, 35, 36, 37, 39}" "fl_value v = Some x"
  shows "\<exists>d. convertData oor (write_num oor (int k) v) (int k) = Some (d, sent_bits k)
    \<and> sent_code k v x (take_bit (sent_bits k) (unat d))"
proof -
  have t: "fl_to_int oor lo hi v = trunc x" if "lo \<le> trunc x" "trunc x \<le> hi" for lo hi
    using assms(2) that by (simp add: fl_to_int_def)
  show ?thesis using assms(1)
    by (elim insertE emptyE)
      (simp_all add: convertData_def write_num_def dataTypeToBits_def getMetaData_def serialMap_def sent_code_def
        sent_bits_def wire_bits_def fixed_format_def int_range_def t narrow_code [where 'a = 8, simplified]
        narrow_code [where 'a = 16, simplified] narrow_code [where 'a = 32, simplified] narrow_code [where 'a = 64, simplified])
qed

lemma float_sent:
  assumes "k \<in> {40, 41}"
  shows "\<exists>d. convertData oor (write_num oor (int k) v) (int k) = Some (d, sent_bits k)
    \<and> sent_code k v x (take_bit (sent_bits k) (unat d))"
proof -
  have "take_bit 64 (unat (w :: 64 word)) = unat w" "take_bit 32 (unat (ucast (u :: 32 word) :: 64 word)) = unat u" for w u
  proof -
    have "unat w < 2 ^ LENGTH(64)" "unat u < 2 ^ LENGTH(32)" by (rule unsigned_less)+
    then show "take_bit 64 (unat w) = unat w" "take_bit 32 (unat (ucast u :: 64 word)) = unat u"
      by (simp_all add: unsigned_ucast_eq take_bit_nat_eq_self)
  qed
  then show ?thesis using assms
    by (elim insertE emptyE)
      (simp_all add: convertData_def write_num_def dataTypeToBits_def getMetaData_def serialMap_def sent_code_def
        sent_bits_def wire_bits_def fixed_format_def)
qed

lemma sendable_kinds:
  "k \<in> set sendable_types \<Longrightarrow> fixed_format k \<noteq> None \<or> k \<in> {40, 41} \<or> k \<in> {30, 31, 32, 33, 34, 35, 36, 37, 39}"
  unfolding sendable_types_def set_simps by (elim insertE emptyE; simp add: fixed_format_def)

lemma sendable_small: "k \<in> set sendable_types \<Longrightarrow> k < 64"
  unfolding sendable_types_def set_simps by (elim insertE emptyE; simp)

lemma unsendable_small: "k \<in> set unsendable_types \<Longrightarrow> k < 64"
  unfolding unsendable_types_def set_simps by (elim insertE emptyE; simp)

lemma sendable_sends:
  assumes "k \<in> set sendable_types" "pt_WriteValue pt = Some v" "atoi (pt_DataType pt) = Inr (int k)" "getPosition (pt_IoNumber pt) = Inr pos"
    and "fl_value v = Some x"
  shows "\<exists>buf key data r. EncodeRequestMessage oor [pt] = Some (Inr buf)
    \<and> bits_of buf = byte_bits 1 @ byte_bits pos @ key @ data @ replicate r False \<and> r < 8
    \<and> length key = 6 \<and> bits_num key = k \<and> length data = sent_bits k \<and> sent_code k v x (bits_num data)"
proof -
  have "\<exists>d. convertData oor (write_num oor (int k) v) (int k) = Some (d, sent_bits k)
    \<and> sent_code k v x (take_bit (sent_bits k) (unat d))"
    using sendable_kinds [OF assms(1)]
  proof (elim disjE)
    assume "fixed_format k \<noteq> None"
    then obtain n low dec where "fixed_format k = Some (n, low, dec)" by auto
    from fixed_point_sent [OF this assms(5), of oor] show ?thesis by metis
  qed (rule float_sent, assumption, rule integer_sent [OF _ assms(5)])
  then obtain d where d: "convertData oor (write_num oor (int k) v) (int k) = Some (d, sent_bits k)"
    "sent_code k v x (take_bit (sent_bits k) (unat d))" by (elim exE conjE)
  have w: "sent_bits k \<le> 64" using convertData_width [OF d(1)] by simp
  have "k < 64" using sendable_small [OF assms(1)] .
  then have key: "bits_num (val_bits 6 (word_of_int (int k) :: 64 word)) = k"
    by (simp add: bits_num_val_bits unsigned_of_nat take_bit_nat_eq_self)
  have "point_error pt = None" using assms(2-4) by (simp add: point_error_def)
  then obtain buf r where b: "EncodeRequestMessage oor [pt] = Some (Inr buf)" "r < 8"
    "bits_of buf = byte_bits 1 @ point_bits oor pt @ replicate r False"
    using EncodeRequestMessage_result [of oor "[pt]"] by (auto simp: map_filter_simps)
  have "point_bits oor pt = byte_bits pos @ val_bits 6 (word_of_int (int k) :: 64 word) @ val_bits (sent_bits k) d"
    using assms(2-4) d(1) by (simp add: point_bits_def point_field_def field_bits_def)
  then have s: "bits_of buf = byte_bits 1 @ byte_bits pos @ val_bits 6 (word_of_int (int k) :: 64 word)
      @ val_bits (sent_bits k) d @ replicate r False"
    using b(3) by simp
  show ?thesis
    by (intro exI conjI, rule b(1), rule s, rule b(2))
      (use key d(2) bits_num_val_bits [OF w, of d] in simp_all)
qed

subsection \<open>Properties\<close>

text \<open>C25: What the user interface offers against what the module sends.  The models offered are exactly
  the models with a device description.  Every data type offered is a number, and a write of a finite value
  to a point of an offered type is a message without an error: for the types 17 to 20 and 42 it is
  the flag byte alone, without any point; for every other type it is the flag byte, the position byte of the
  point, the type in six bits and the value in the type's number of bits, padded with less than a
  byte of zeros.  The value is the rounded number of steps of the value clamped to the type's range for a
  fixed-point type (cut to its bits, which matters only at the top of the two counters of 20 bits), the truncated value in
  two's complement for an integer in range, and the bits of the float for the two float types.\<close>

theorem offered_types_sent:
  assumes "pt_DataType pt \<in> set (en_Options DataType_tags)" "pt_WriteValue pt = Some v" "getPosition (pt_IoNumber pt) = Inr pos"
    and "fl_value v = Some x"
  shows "(\<forall>m. m \<in> set device_models \<longleftrightarrow> (\<exists>d \<in> set LoRaDeviceDescriptions. Model d = m))
    \<and> (\<exists>k buf. atoi (pt_DataType pt) = Inr (int k) \<and> EncodeRequestMessage oor [pt] = Some (Inr buf)
         \<and> (if k \<in> {17, 18, 19, 20, 42} then buf = [1]
            else \<exists>key data r. bits_of buf = byte_bits 1 @ byte_bits pos @ key @ data @ replicate r False \<and> r < 8
              \<and> length key = 6 \<and> bits_num key = k \<and> length data = sent_bits k \<and> sent_code k v x (bits_num data)))"
proof -
  obtain k where k: "pt_DataType pt = itoa_nat k" "k \<in> set sendable_types \<or> k \<in> set unsendable_types"
    using assms(1) unfolding offered_numbers by blast
  have small: "k < 64" using k(2) sendable_small unsendable_small by blast
  then have a: "atoi (pt_DataType pt) = Inr (int k)" using k(1) atoi_itoa_nat by simp
  have five: "set unsendable_types = {17, 18, 19, 20, 42}" by (simp add: unsendable_types_def)
  show ?thesis
  proof (intro conjI allI models_described exI [of _ k])
    show "\<exists>buf. atoi (pt_DataType pt) = Inr (int k) \<and> EncodeRequestMessage oor [pt] = Some (Inr buf)
         \<and> (if k \<in> {17, 18, 19, 20, 42} then buf = [1]
            else \<exists>key data r. bits_of buf = byte_bits 1 @ byte_bits pos @ key @ data @ replicate r False \<and> r < 8
              \<and> length key = 6 \<and> bits_num key = k \<and> length data = sent_bits k \<and> sent_code k v x (bits_num data))"
    proof (cases "k \<in> set unsendable_types")
      case True
      then show ?thesis using unsendable_drops [OF True assms(2) a assms(3), of oor] a unfolding five by (simp only: if_True) metis
    next
      case False
      then have "k \<in> set sendable_types" using k(2) by blast
      from sendable_sends [OF this assms(2) a assms(3,4), of oor] False a show ?thesis
        unfolding five by (simp only: if_False) metis
    qed
  qed
qed

theorem offered_types_sent_witness:
  "EncodeRequestMessage (\<lambda>_. 0) [example_point ''UVP-4'' ''18'' (Fin 1)] = Some (Inr [1])
    \<and> (\<exists>buf key data r. EncodeRequestMessage (\<lambda>_. 0) [example_point ''UI-1'' ''31'' (Fin (- 2))] = Some (Inr buf)
        \<and> bits_of buf = byte_bits 1 @ byte_bits 96 @ key @ data @ replicate r False \<and> bits_num key = 31 \<and> bits_num data = 254)"
proof
  have n: "atoi ''18'' = Inr 18" using atoi_itoa_nat [of 18] by (simp add: itoa_nat.simps digit_char_def char_of_def bit_0)
  show "EncodeRequestMessage (\<lambda>_. 0) [example_point ''UVP-4'' ''18'' (Fin 1)] = Some (Inr [1])"
    using offered_types_sent [of "example_point ''UVP-4'' ''18'' (Fin 1)" "Fin 1" 163 1 "\<lambda>_. 0"] example_positions n
    by (auto simp: example_point_def DataType_tags_def)
  have t: "trunc (- 2) = - 2" using trunc_of_int [of "- 2"] by simp
  obtain buf key data r where b: "EncodeRequestMessage (\<lambda>_. 0) [example_point ''UI-1'' ''31'' (Fin (- 2))] = Some (Inr buf)"
    "bits_of buf = byte_bits 1 @ byte_bits 96 @ key @ data @ replicate r False" "bits_num key = 31"
    "sent_code 31 (Fin (- 2)) (- 2) (bits_num data)"
    using offered_types_sent [of "example_point ''UI-1'' ''31'' (Fin (- 2))" "Fin (- 2)" 96 "- 2" "\<lambda>_. 0"] example_positions
    by (auto simp: example_point_def DataType_tags_def example_numbers)
  have "bits_num data = 254" using b(4) t by (simp add: sent_code_def fixed_format_def int_range_def wire_bits_def)
  then show "\<exists>buf key data r. EncodeRequestMessage (\<lambda>_. 0) [example_point ''UI-1'' ''31'' (Fin (- 2))] = Some (Inr buf)
        \<and> bits_of buf = byte_bits 1 @ byte_bits 96 @ key @ data @ replicate r False \<and> bits_num key = 31 \<and> bits_num data = 254"
    using b(1-3) by blast
qed

end
