(* ===== verification/Module_Router.thy ===== *)
theory Module_Router
  imports Module_Lifecycle Module_Schema
begin

text \<open>
  router.go: what the HTTP handlers do.  JSON is read and written by a library; a body that is the
  JSON null is a nil pointer, which panics where it is used.  A handler's result is an error or the
  text of the response (empty for none).
\<close>

record json_lib =
  read_network :: "string \<Rightarrow> goerr + network option"
  read_device :: "string \<Rightarrow> goerr + device option"
  read_point :: "string \<Rightarrow> goerr + point option"
  read_writer :: "string \<Rightarrow> goerr + point_writer option"
  write_network :: "network \<Rightarrow> goerr + string"
  write_device :: "device \<Rightarrow> goerr + string"
  write_point :: "point \<Rightarrow> goerr + string"

type_synonym 'g handler = "'g lifecycle \<Rightarrow> ((goerr + string) \<times> 'g lifecycle) option"

definition on_db :: "('g \<Rightarrow> 'r \<times> 'g) \<Rightarrow> 'g lifecycle \<Rightarrow> 'r \<times> 'g lifecycle" where
  "on_db f lc = (case f (md_grpc (lc_module lc)) of (r, g) \<Rightarrow> (r, lc\<lparr>lc_module := (lc_module lc)\<lparr>md_grpc := g\<rparr>\<rparr>))"

definition respond :: "('r \<Rightarrow> goerr + string) \<Rightarrow> (goerr + 'r) \<times> 'g lifecycle \<Rightarrow> (goerr + string) \<times> 'g lifecycle" where
  "respond out r = (case r of (Inl err, lc) \<Rightarrow> (Inl err, lc) | (Inr x, lc) \<Rightarrow> (out x, lc))"

definition no_content :: "goerr option \<times> 'g lifecycle \<Rightarrow> (goerr + string) \<times> 'g lifecycle" where
  "no_content r = (case r of (Some err, lc) \<Rightarrow> (Inl err, lc) | (None, lc) \<Rightarrow> (Inr '''', lc))"

subsection \<open>Networks\<close>

definition CreateNetwork :: "json_lib \<Rightarrow> 'g module_env \<Rightarrow> string \<Rightarrow> 'g handler" where
  "CreateNetwork jl env body lc =
     (case read_network jl body of
        Inl err \<Rightarrow> Some (Inl err, lc)
      | Inr None \<Rightarrow> None
      | Inr (Some network) \<Rightarrow> Some (respond (write_network jl) (module_addNetwork env network lc)))"

definition UpdateNetwork :: "json_lib \<Rightarrow> 'g module_env \<Rightarrow> string \<Rightarrow> string \<Rightarrow> 'g handler" where
  "UpdateNetwork jl env uuid body lc =
     (case read_network jl body of
        Inl err \<Rightarrow> Some (Inl err, lc)
      | Inr network \<Rightarrow> Some (respond (write_network jl) (on_db (g_UpdateNetwork (me_grpc env) uuid network) lc)))"

definition DeleteNetwork :: "'g module_env \<Rightarrow> string \<Rightarrow> 'g handler" where
  "DeleteNetwork env uuid lc = Some (no_content (on_db (g_DeleteNetwork (me_grpc env) uuid) lc))"

subsection \<open>Pings\<close>

abbreviation (input) uartPingMaxRetries :: nat where "uartPingMaxRetries \<equiv> 10"
abbreviation (input) uartPingMinPointsRequired :: nat where "uartPingMinPointsRequired \<equiv> 10"

definition ping_point :: "device \<Rightarrow> point" where
  "ping_point device = zero_point\<lparr>pt_IoNumber := ''UVP-4'', pt_AddressID := Some 4, pt_DataType := itoa MDK_BOOL,
     pt_DeviceUUID := dev_UUID device, pt_AddressUUID := dev_AddressUUID device, pt_WriteValue := Some (Fin 1)\<rparr>"

text \<open>The loop of \<^verbatim>\<open>enqueueUartPingWithRetry\<close> with \<open>k\<close> attempts left.  \<open>others\<close> is what the rest of the
  program does to the queues while the goroutine sleeps, \<open>answer\<close> the data base's answer after it.\<close>

fun ping_loop :: "(nat \<Rightarrow> manager \<Rightarrow> manager) \<Rightarrow> (nat \<Rightarrow> goerr + device) \<Rightarrow> device \<Rightarrow> nat \<Rightarrow> nat \<Rightarrow> manager \<Rightarrow> manager" where
  "ping_loop others answer device attempt 0 m = m"
| "ping_loop others answer device attempt (Suc k) m =
     (let m = others attempt (EnqueuePoint (ping_point device) m) in
      case answer attempt of
        Inl err \<Rightarrow> ping_loop others answer device (attempt + 1) k m
      | Inr dev \<Rightarrow>
          if uartPingMinPointsRequired \<le> length (dev_Points dev) then m
          else ping_loop others answer device (attempt + 1) k m)"

definition enqueueUartPingWithRetry ::
  "(nat \<Rightarrow> manager \<Rightarrow> manager) \<Rightarrow> (nat \<Rightarrow> goerr + device) \<Rightarrow> device \<Rightarrow> manager \<Rightarrow> manager" where
  "enqueueUartPingWithRetry others answer device m = ping_loop others answer device 1 uartPingMaxRetries m"

text \<open>The device for which a goroutine is started.\<close>

definition enqueueUartPing :: "device \<Rightarrow> device option" where
  "enqueueUartPing device = (if dev_Model device = DeviceModelUART then Some device else None)"

definition enough_points :: "(nat \<Rightarrow> goerr + device) \<Rightarrow> nat \<Rightarrow> bool" where
  "enough_points answer a \<longleftrightarrow> (\<exists>dev. answer a = Inr dev \<and> 10 \<le> length (dev_Points dev))"

text \<open>One attempt: a ping is queued, then the rest of the program runs.\<close>

definition ping_attempt :: "(nat \<Rightarrow> manager \<Rightarrow> manager) \<Rightarrow> device \<Rightarrow> nat \<Rightarrow> manager \<Rightarrow> manager" where
  "ping_attempt others device a m = others a (EnqueuePoint (ping_point device) m)"

lemma ping_loop_result:
  "\<exists>p. p \<le> n + k \<and> (0 < k \<longrightarrow> n < p) \<and> (\<forall>a \<in> {Suc n..<p}. \<not> enough_points answer a)
    \<and> (p < n + k \<longrightarrow> enough_points answer p)
    \<and> (\<forall>others m. ping_loop others answer device (Suc n) k m = fold (ping_attempt others device) [Suc n..<Suc p] m)"
proof (induction k arbitrary: n)
  case 0
  show ?case by (rule exI [of _ n]) simp
next
  case (Suc k)
  show ?case
  proof (cases "enough_points answer (Suc n)")
    case True
    then have "\<forall>others m. ping_loop others answer device (Suc n) (Suc k) m = fold (ping_attempt others device) [Suc n..<Suc (Suc n)] m"
      by (auto simp: enough_points_def ping_attempt_def)
    with True show ?thesis by (intro exI [of _ "Suc n"]) simp
  next
    case False
    obtain p where p: "p \<le> Suc n + k" "0 < k \<longrightarrow> Suc n < p" "\<forall>a \<in> {Suc (Suc n)..<p}. \<not> enough_points answer a"
      "p < Suc n + k \<longrightarrow> enough_points answer p"
      "\<forall>others m. ping_loop others answer device (Suc (Suc n)) k m = fold (ping_attempt others device) [Suc (Suc n)..<Suc p] m"
      using Suc.IH [of "Suc n"] by blast
    let ?p = "if k = 0 then Suc n else p"
    have "ping_loop others answer device (Suc n) (Suc k) m = fold (ping_attempt others device) [Suc n..<Suc ?p] m" for others m
    proof -
      have "ping_loop others answer device (Suc n) (Suc k) m
          = ping_loop others answer device (Suc (Suc n)) k (ping_attempt others device (Suc n) m)"
        using False by (simp add: enough_points_def ping_attempt_def Let_def split: sum.split)
      then show ?thesis using p(2,5) by (cases "k = 0") (simp_all add: upt_conv_Cons [of "Suc n" p])
    qed
    moreover have "\<not> enough_points answer a" if "a \<in> {Suc n..<?p}" for a
      using p(3) False that by (cases "a = Suc n") (auto split: if_splits)
    ultimately show ?thesis using p(1,2,4) by (intro exI [of _ ?p]) auto
  qed
qed

lemma quiet_pings:
  "mgr_store (fold (ping_attempt (\<lambda>_ m. m) device) [i..<i + p] m) = mgr_store m @ replicate p (fresh_item (ping_point device))
   \<and> queue_of (fold (ping_attempt (\<lambda>_ m. m) device) [i..<i + p] m) (dev_UUID device)
     = queue_of m (dev_UUID device) @ [length (mgr_store m)..<length (mgr_store m) + p]"
  by (induction p) (auto simp: ping_attempt_def EnqueuePoint_store EnqueuePoint_queue ping_point_def replicate_append_same)

lemma ping_writable: "writable_point (ping_point device)"
proof -
  have "writable_point (example_point ''UVP-4'' (itoa MDK_BOOL) (Fin 1))"
    by (rule example_writable [of 38 _ _ 163]) (simp_all add: example_numbers itoa_def small_numerals [simplified])
  then show ?thesis by (auto simp: writable_point_def ping_point_def example_point_def split: option.splits sum.splits)
qed

subsection \<open>Devices\<close>

definition CreateDevice ::
  "json_lib \<Rightarrow> 'g module_env \<Rightarrow> (point list \<Rightarrow> point list) \<Rightarrow> bool \<Rightarrow> string \<Rightarrow> 'g lifecycle
     \<Rightarrow> ((goerr + string) \<times> device option \<times> 'g lifecycle) option" where
  "CreateDevice jl env schedule withPoints body lc =
     (case read_device jl body of
        Inl err \<Rightarrow> Some (Inl err, None, lc)
      | Inr None \<Rightarrow> None
      | Inr (Some device) \<Rightarrow> do {
          (r, g) \<leftarrow> addDevice env schedule device withPoints (md_grpc (lc_module lc));
          let lc = lc\<lparr>lc_module := (lc_module lc)\<lparr>md_grpc := g\<rparr>\<rparr>;
          (case r of
             Inl err \<Rightarrow> Some (Inl err, None, lc)
           | Inr dev \<Rightarrow>
               Some (write_device jl dev, (if dev_Model device = DeviceModelUART then enqueueUartPing dev else None), lc)) })"

definition UpdateDevice ::
  "json_lib \<Rightarrow> 'g module_env \<Rightarrow> string \<Rightarrow> string \<Rightarrow> 'g lifecycle
     \<Rightarrow> ((goerr + string) \<times> device option \<times> 'g lifecycle) option" where
  "UpdateDevice jl env uuid body lc =
     (case read_device jl body of
        Inl err \<Rightarrow> Some (Inl err, None, lc)
      | Inr device \<Rightarrow>
          (case on_db (g_UpdateDevice (me_grpc env) uuid device) lc of
             (Inl err, lc) \<Rightarrow> Some (Inl err, None, lc)
           | (Inr dev, lc) \<Rightarrow> do {
               let lc = snd (on_db (updateDevicePointsAddress env dev) lc);
               device \<leftarrow> device;
               Some (write_device jl dev, (if dev_Model device = DeviceModelUART then enqueueUartPing dev else None), lc) }))"

definition DeleteDevice :: "'g module_env \<Rightarrow> string \<Rightarrow> 'g handler" where
  "DeleteDevice env uuid lc = Some (no_content (on_db (g_DeleteDevice (me_grpc env) uuid) lc))"

subsection \<open>Points\<close>

definition CreatePoint :: "json_lib \<Rightarrow> 'g module_env \<Rightarrow> string \<Rightarrow> 'g handler" where
  "CreatePoint jl env body lc =
     (case read_point jl body of
        Inl err \<Rightarrow> Some (Inl err, lc)
      | Inr None \<Rightarrow> None
      | Inr (Some pt) \<Rightarrow> Some (respond (write_point jl) (on_db (addPoint env pt) lc)))"

definition UpdatePoint :: "json_lib \<Rightarrow> 'g module_env \<Rightarrow> string \<Rightarrow> string \<Rightarrow> 'g handler" where
  "UpdatePoint jl env uuid body lc =
     (case read_point jl body of
        Inl err \<Rightarrow> Some (Inl err, lc)
      | Inr None \<Rightarrow> None
      | Inr (Some pt) \<Rightarrow> Some (respond (write_point jl) (on_db (updatePoint env uuid pt) lc)))"

text \<open>A module that is not enabled has no queue manager: a nil pointer panic, after the data base was
  written.\<close>

definition PointWrite :: "json_lib \<Rightarrow> 'g module_env \<Rightarrow> string \<Rightarrow> string \<Rightarrow> 'g handler" where
  "PointWrite jl env uuid body lc =
     (case read_writer jl body of
        Inl err \<Rightarrow> Some (Inl err, lc)
      | Inr None \<Rightarrow> None
      | Inr (Some pw) \<Rightarrow>
          (case on_db (writePoint env uuid pw) lc of
             (Inl err, lc) \<Rightarrow> Some (Inl err, lc)
           | (Inr pt, lc) \<Rightarrow> do {
               m \<leftarrow> md_manager (lc_module lc);
               Some (write_point jl pt, lc\<lparr>lc_module := (lc_module lc)\<lparr>md_manager := Some (EnqueuePoint pt m)\<rparr>\<rparr>) }))"

definition DeletePoint :: "'g module_env \<Rightarrow> string \<Rightarrow> 'g handler" where
  "DeletePoint env uuid lc = Some (no_content (on_db (g_DeletePoint (me_grpc env) uuid) lc))"

subsection \<open>Schemas and routes\<close>

record schema_json =
  write_network_schema :: "network_schema \<Rightarrow> goerr + string"
  write_device_schema :: "device_schema \<Rightarrow> goerr + string"
  write_point_schema :: "point_schema \<Rightarrow> goerr + string"

definition GetNetworkSchema :: "schema_lib \<Rightarrow> schema_json \<Rightarrow> 'g handler" where
  "GetNetworkSchema sl sj lc = Some (write_network_schema sj (schema_GetNetworkSchema sl), lc)"

definition GetDeviceSchema :: "schema_lib \<Rightarrow> schema_json \<Rightarrow> 'g handler" where
  "GetDeviceSchema sl sj lc = Some (write_device_schema sj (schema_GetDeviceSchema sl), lc)"

definition GetPointSchema :: "schema_lib \<Rightarrow> schema_json \<Rightarrow> 'g handler" where
  "GetPointSchema sl sj lc = Some (write_point_schema sj (schema_GetPointSchema sl), lc)"

datatype http_method = GET | POST | PATCH | DELETE | OtherMethod string

datatype handler_fn =
    GetNetworkSchema_fn | GetDeviceSchema_fn | GetPointSchema_fn
  | CreateNetwork_fn | UpdateNetwork_fn | DeleteNetwork_fn
  | CreateDevice_fn | UpdateDevice_fn | DeleteDevice_fn
  | CreatePoint_fn | UpdatePoint_fn | PointWrite_fn | DeletePoint_fn

definition InitRouter :: "(http_method \<times> string \<times> handler_fn) list" where
  "InitRouter = [
     (GET, ''/api/networks/schema'', GetNetworkSchema_fn),
     (GET, ''/api/devices/schema'', GetDeviceSchema_fn),
     (GET, ''/api/points/schema'', GetPointSchema_fn),
     (POST, ''/api/networks'', CreateNetwork_fn),
     (PATCH, ''/api/networks/:uuid'', UpdateNetwork_fn),
     (DELETE, ''/api/networks/:uuid'', DeleteNetwork_fn),
     (POST, ''/api/devices'', CreateDevice_fn),
     (PATCH, ''/api/devices/:uuid'', UpdateDevice_fn),
     (DELETE, ''/api/devices/:uuid'', DeleteDevice_fn),
     (POST, ''/api/points'', CreatePoint_fn),
     (PATCH, ''/api/points/:uuid'', UpdatePoint_fn),
     (PATCH, ''/api/points/:uuid/write'', PointWrite_fn),
     (DELETE, ''/api/points/:uuid'', DeletePoint_fn)]"

text \<open>What the router library hands to a handler, as far as the handlers look at it.\<close>

record http_request =
  req_Body :: string
  req_uuid :: string
  req_withPoints :: string

text \<open>The libraries around the handlers: JSON, the schema library, the router (which finds the route of
  a method and URL, or has an error) and the order in which goroutines save points.\<close>

record http_lib =
  hl_json :: json_lib
  hl_schema :: schema_lib
  hl_schema_json :: schema_json
  hl_route :: "(http_method \<times> string \<times> handler_fn) list \<Rightarrow> http_method \<Rightarrow> string \<Rightarrow> string \<Rightarrow> goerr + (handler_fn \<times> http_request)"
  hl_schedule :: "point list \<Rightarrow> point list"

type_synonym 'g served = "((goerr + string) \<times> device option \<times> 'g lifecycle) option"

definition no_ping :: "((goerr + string) \<times> 'g lifecycle) option \<Rightarrow> 'g served" where
  "no_ping r = map_option (\<lambda>(resp, lc). (resp, None, lc)) r"

fun call_handler :: "http_lib \<Rightarrow> 'g module_env \<Rightarrow> handler_fn \<Rightarrow> http_request \<Rightarrow> 'g lifecycle \<Rightarrow> 'g served" where
  "call_handler hl env GetNetworkSchema_fn r lc = no_ping (GetNetworkSchema (hl_schema hl) (hl_schema_json hl) lc)"
| "call_handler hl env GetDeviceSchema_fn r lc = no_ping (GetDeviceSchema (hl_schema hl) (hl_schema_json hl) lc)"
| "call_handler hl env GetPointSchema_fn r lc = no_ping (GetPointSchema (hl_schema hl) (hl_schema_json hl) lc)"
| "call_handler hl env CreateNetwork_fn r lc = no_ping (CreateNetwork (hl_json hl) env (req_Body r) lc)"
| "call_handler hl env UpdateNetwork_fn r lc = no_ping (UpdateNetwork (hl_json hl) env (req_uuid r) (req_Body r) lc)"
| "call_handler hl env DeleteNetwork_fn r lc = no_ping (DeleteNetwork env (req_uuid r) lc)"
| "call_handler hl env CreateDevice_fn r lc =
     CreateDevice (hl_json hl) env (hl_schedule hl) (req_withPoints r = ''true'') (req_Body r) lc"
| "call_handler hl env UpdateDevice_fn r lc = UpdateDevice (hl_json hl) env (req_uuid r) (req_Body r) lc"
| "call_handler hl env DeleteDevice_fn r lc = no_ping (DeleteDevice env (req_uuid r) lc)"
| "call_handler hl env CreatePoint_fn r lc = no_ping (CreatePoint (hl_json hl) env (req_Body r) lc)"
| "call_handler hl env UpdatePoint_fn r lc = no_ping (UpdatePoint (hl_json hl) env (req_uuid r) (req_Body r) lc)"
| "call_handler hl env PointWrite_fn r lc = no_ping (PointWrite (hl_json hl) env (req_uuid r) (req_Body r) lc)"
| "call_handler hl env DeletePoint_fn r lc = no_ping (DeletePoint env (req_uuid r) lc)"

definition CallModule :: "http_lib \<Rightarrow> 'g module_env \<Rightarrow> http_method \<Rightarrow> string \<Rightarrow> string \<Rightarrow> 'g lifecycle \<Rightarrow> 'g served" where
  "CallModule hl env method urlString body lc =
     (case hl_route hl InitRouter method urlString body of
        Inl err \<Rightarrow> Some (Inl err, None, lc)
      | Inr (h, r) \<Rightarrow> call_handler hl env h r lc)"

text \<open>\<^verbatim>\<open>Init\<close> sets up the routes and the fields of the module that never change afterwards;
  the marshaller is a parameter.\<close>

definition Init :: "'g grpc \<Rightarrow> string \<Rightarrow> 'g module_env \<Rightarrow> goerr option \<times> (http_method \<times> string \<times> handler_fn) list \<times> 'g module_env" where
  "Init dbHelper moduleName env = (None, InitRouter, env\<lparr>me_moduleName := moduleName, me_grpc := dbHelper\<rparr>)"

record module_info =
  info_Name :: string
  info_Author :: string
  info_Website :: string
  info_License :: string
  info_HasNetwork :: bool

definition GetInfo :: "'g module_env \<Rightarrow> goerr + module_info" where
  "GetInfo env = Inr \<lparr>info_Name = me_moduleName env, info_Author = ''RaiBnod'', info_Website = ''https://nube-io.com'',
     info_License = ''N/A'', info_HasNetwork = True\<rparr>"

text \<open>No handler but \<^verbatim>\<open>PointWrite\<close> touches the write queues, and that one appends at most one point.\<close>

lemma on_db_manager: "on_db f lc = (r, lc') \<Longrightarrow> md_manager (lc_module lc') = md_manager (lc_module lc)"
  by (auto simp: on_db_def split: prod.splits)

lemma respond_on_db_manager: "respond out (on_db f lc) = (r, lc') \<Longrightarrow> md_manager (lc_module lc') = md_manager (lc_module lc)"
  by (auto simp: respond_def split: sum.splits prod.splits dest: on_db_manager)

lemma no_content_on_db_manager: "no_content (on_db f lc) = (r, lc') \<Longrightarrow> md_manager (lc_module lc') = md_manager (lc_module lc)"
  by (auto simp: no_content_def split: option.splits prod.splits dest: on_db_manager)

lemma respond_network_manager:
  "respond out (module_addNetwork env body lc) = (r, lc') \<Longrightarrow> md_manager (lc_module lc') = md_manager (lc_module lc)"
  by (auto simp: respond_def module_addNetwork_def split: sum.splits prod.splits)

lemma CreateDevice_manager:
  "CreateDevice jl env schedule wp body lc = Some (resp, ping, lc') \<Longrightarrow> md_manager (lc_module lc') = md_manager (lc_module lc)"
  by (auto simp: CreateDevice_def Let_def split: sum.splits option.splits bind_splits prod.splits)

lemma UpdateDevice_manager:
  "UpdateDevice jl env uuid body lc = Some (resp, ping, lc') \<Longrightarrow> md_manager (lc_module lc') = md_manager (lc_module lc)"
  by (auto simp: UpdateDevice_def on_db_def Let_def split: sum.splits option.splits bind_splits prod.splits)

lemma PointWrite_manager:
  "PointWrite jl env uuid body lc = Some (resp, lc') \<Longrightarrow>
     md_manager (lc_module lc') = md_manager (lc_module lc)
   \<or> (\<exists>m pt. md_manager (lc_module lc) = Some m \<and> md_manager (lc_module lc') = Some (EnqueuePoint pt m))"
  by (auto simp: PointWrite_def on_db_def split: sum.splits option.splits bind_splits prod.splits)

lemmas handler_managers = respond_on_db_manager no_content_on_db_manager respond_network_manager
  CreateDevice_manager UpdateDevice_manager

lemma call_handler_manager:
  assumes "call_handler hl env h r lc = Some (resp, ping, lc')" "h \<noteq> PointWrite_fn"
  shows "md_manager (lc_module lc') = md_manager (lc_module lc)"
  using assms
  by (cases h)
     (auto simp: no_ping_def GetNetworkSchema_def GetDeviceSchema_def GetPointSchema_def CreateNetwork_def UpdateNetwork_def
        DeleteNetwork_def DeleteDevice_def CreatePoint_def UpdatePoint_def DeletePoint_def
        split: sum.splits option.splits prod.splits dest: handler_managers)

lemma CallModule_manager:
  assumes "CallModule hl env method url body lc = Some (resp, ping, lc')"
  shows "md_manager (lc_module lc') = md_manager (lc_module lc)
   \<or> (\<exists>m pt. md_manager (lc_module lc) = Some m \<and> md_manager (lc_module lc') = Some (EnqueuePoint pt m))"
proof (cases "hl_route hl InitRouter method url body")
  case (Inr hr)
  obtain h r where hr: "hr = (h, r)" by (cases hr)
  then have "call_handler hl env h r lc = Some (resp, ping, lc')" using assms Inr by (simp add: CallModule_def)
  then show ?thesis
  proof (cases "h = PointWrite_fn")
    case True
    then show ?thesis using \<open>call_handler hl env h r lc = Some (resp, ping, lc')\<close>
      by (auto simp: no_ping_def) (auto dest!: PointWrite_manager)
  qed (blast dest: call_handler_manager)
qed (use assms in \<open>simp add: CallModule_def\<close>)

subsection \<open>Properties\<close>

text \<open>C22: A point write request of an enabled module either fails, and then no queue changes, or marks the point
  as pending in the data base and appends the point the data base returns, untried, to the queue of its
  device, behind the writes that wait there.\<close>

theorem point_write_queued:
  assumes "md_manager (lc_module lc) = Some m"
    and "PointWrite jl env uuid body lc = Some (r, lc')"
  shows "(\<exists>err. r = Inl err \<and> md_manager (lc_module lc') = Some m) \<or>
    (\<exists>pw pt g. read_writer jl body = Inr (Some pw)
      \<and> g_PointWrite (me_grpc env) uuid (pw\<lparr>pw_IgnorePresentValueUpdate := True, pw_PollState := PointStateApiWritePending\<rparr>)
          (md_grpc (lc_module lc)) = (Inr pt, g)
      \<and> md_grpc (lc_module lc') = g \<and> r = write_point jl pt
      \<and> (\<exists>m'. md_manager (lc_module lc') = Some m'
           \<and> mgr_store m' = mgr_store m @ [fresh_item pt]
           \<and> queue_of m' (pt_DeviceUUID pt) = queue_of m (pt_DeviceUUID pt) @ [length (mgr_store m)]
           \<and> (\<forall>dev. dev \<noteq> pt_DeviceUUID pt \<longrightarrow> queue_of m' dev = queue_of m dev)))"
  using assms
  by (auto simp: PointWrite_def on_db_def writePoint_def EnqueuePoint_store EnqueuePoint_queue
      split: sum.splits option.splits prod.splits)

definition example_json :: json_lib where
  "example_json = \<lparr>read_network = (\<lambda>_. Inr None), read_device = (\<lambda>_. Inr None), read_point = (\<lambda>_. Inr None),
     read_writer = (\<lambda>_. Inr (Some zero_writer)), write_network = (\<lambda>_. Inr ''{}''), write_device = (\<lambda>_. Inr ''{}''),
     write_point = (\<lambda>_. Inr ''{}'')\<rparr>"

theorem point_write_queued_witness:
  "\<exists>m' lc'. PointWrite example_json node_env ''p'' ''{}''
      \<lparr>lc_module = node_module (Some (NewPointWriteQueueManager 2)), lc_interrupt = Some False, lc_loops = 1, lc_retired = [], lc_clients = []\<rparr> = Some (Inr ''{}'', lc')
    \<and> md_manager (lc_module lc') = Some m' \<and> mgr_store m' = [fresh_item zero_point]"
proof -
  let ?lc = "\<lparr>lc_module = node_module (Some (NewPointWriteQueueManager 2)), lc_interrupt = Some False, lc_loops = 1, lc_retired = [], lc_clients = []\<rparr>"
  have m: "md_manager (lc_module ?lc) = Some (NewPointWriteQueueManager 2)" by simp
  obtain lc' where r: "PointWrite example_json node_env ''p'' ''{}'' ?lc = Some (Inr ''{}'', lc')"
    by (simp add: PointWrite_def example_json_def on_db_def writePoint_def node_env_def log_grpc_def)
  have pz: "g_PointWrite (me_grpc node_env) u w g = (Inr pt, g') \<Longrightarrow> pt = zero_point" for u w g pt g'
    by (simp add: node_env_def log_grpc_def)
  then show ?thesis using point_write_queued [OF m r] r by (auto simp: NewPointWriteQueueManager_def dest!: pz)
qed

text \<open>C23: A new UART device is pinged at most ten times.  The number of pings is the number of the first answer
  that shows at least ten points, or ten; whatever the rest of the program does in between, that many pings, and
  nothing else, are put into the queues by the loop, and when nothing else runs they stand untried at the end of the
  device's own queue.  The pings carry no point id, so their failure is never reported, and each is a
  write the encoder can send.\<close>

theorem uart_ping_bounded:
  shows "\<exists>p \<in> {1..10}. (\<forall>a \<in> {1..<p}. \<not> enough_points answer a) \<and> (p = 10 \<or> enough_points answer p)
    \<and> enqueueUartPingWithRetry others answer device m
        = fold (\<lambda>a m. others a (EnqueuePoint (ping_point device) m)) [1..<p + 1] m
    \<and> (let quiet = enqueueUartPingWithRetry (\<lambda>_ m. m) answer device m in
         mgr_store quiet = mgr_store m @ replicate p (fresh_item (ping_point device))
       \<and> queue_of quiet (dev_UUID device)
           = queue_of m (dev_UUID device) @ [length (mgr_store m)..<length (mgr_store m) + p])
    \<and> onWriteExhausted env (ping_point device) g = g \<and> writable_point (ping_point device)"
proof -
  obtain p where p: "p \<le> 10" "0 < p" "\<forall>a \<in> {1..<p}. \<not> enough_points answer a" "p < 10 \<longrightarrow> enough_points answer p"
    "\<And>others m. ping_loop others answer device (Suc 0) 10 m = fold (ping_attempt others device) [1..<p + 1] m"
    using ping_loop_result [of 0 10 answer device] by (auto simp del: fold_simps)
  have e: "onWriteExhausted env (ping_point device) g = g"
    by (simp add: onWriteExhausted_def ping_point_def zero_point_def)
  show ?thesis
    using p(1-4) e ping_writable [of device] quiet_pings [of device 1 p m]
    unfolding enqueueUartPingWithRetry_def Let_def One_nat_def p(5)
    by (intro bexI [of _ p]) (auto simp: ping_attempt_def [abs_def] add.commute)
qed

theorem uart_ping_bounded_witness:
  "mgr_store (enqueueUartPingWithRetry (\<lambda>_ m. m)
        (\<lambda>a. if a = 2 then Inr (node\<lparr>dev_Points := replicate 10 zero_point\<rparr>) else Inl (ErrMsg ''no answer''))
        node (NewPointWriteQueueManager 2))
    = [fresh_item (ping_point node), fresh_item (ping_point node)]"
proof -
  let ?answer = "\<lambda>a :: nat. if a = 2 then Inr (node\<lparr>dev_Points := replicate 10 zero_point\<rparr>) else Inl (ErrMsg ''no answer'')"
  have e: "enough_points ?answer a \<longleftrightarrow> a = 2" for a by (simp add: enough_points_def)
  obtain p where p: "p \<in> {1..10}" "\<forall>a \<in> {1..<p}. \<not> enough_points ?answer a" "p = 10 \<or> enough_points ?answer p"
    "mgr_store (enqueueUartPingWithRetry (\<lambda>_ m. m) ?answer node (NewPointWriteQueueManager 2))
      = mgr_store (NewPointWriteQueueManager 2) @ replicate p (fresh_item (ping_point node))"
    using uart_ping_bounded [where others = "\<lambda>_ m. m" and answer = ?answer and device = node and m = "NewPointWriteQueueManager 2"
        and env = node_env and g = "[]"] unfolding Let_def by blast
  have "p = 2" using p(2,3) unfolding e by force
  then show ?thesis using p(4) by (simp add: NewPointWriteQueueManager_def numeral_2_eq_2)
qed

end
