(* ===== verification/Module_Reception.thy ===== *)
theory Module_Reception
  imports Uplink_Path
begin

text \<open>
  The receive path of the running module as a client of the reception locales: the callbacks of
  dbWriter.go and the serial writer of app.go meet the contract of the dispatcher, so that whatever
  string a frame is, handling it moves the write queues by steps of the scheduler's transition system
  only, and can panic only on the frames listed for the dispatcher.
\<close>

text \<open>The write queues of the module have moved from the system \<open>s\<close> by steps of other threads than the
  scheduler: its position and what it has sent are those of \<open>s\<close>.\<close>

definition follows :: "sched_env \<Rightarrow> system \<Rightarrow> 'g module \<Rightarrow> bool" where
  "follows senv s md \<longleftrightarrow> (\<exists>m. md_manager md = Some m \<and> (sched_step senv)\<^sup>*\<^sup>* s (s\<lparr>mgr := m\<rparr>))"

text \<open>What keeps the receive path from panicking: the CMAC primitive returns a block, and the data base
  returns devices that have an address (they are looked up by it).\<close>

definition sound_env :: "'g module_env \<Rightarrow> bool" where
  "sound_env env \<longleftrightarrow> mac_ok (me_mac env)
     \<and> (\<forall>address g dev. getDeviceByLoRaAddress env address g = Some dev \<longrightarrow> dev_AddressUUID dev \<noteq> None)"

lemma follows_frame [simp]:
  "follows senv s (md\<lparr>md_grpc := g\<rparr>) = follows senv s md" "follows senv s (md\<lparr>md_serial := p\<rparr>) = follows senv s md"
  "follows senv s (md\<lparr>md_mqtt := q\<rparr>) = follows senv s md" "follows senv s (md\<lparr>md_collected := c\<rparr>) = follows senv s md"
  "follows senv s (md\<lparr>md_networkUUID := n\<rparr>) = follows senv s md"
  by (simp_all add: follows_def)

lemma follows_response:
  assumes "follows senv s md" "md_manager md = Some wm" "manager_DequeueUsingMessageId dev i wm = (r, wm')"
  shows "follows senv s (md\<lparr>md_manager := Some wm'\<rparr>)"
proof -
  have "(sched_step senv)\<^sup>*\<^sup>* s (s\<lparr>mgr := wm\<rparr>)" using assms(1,2) by (simp add: follows_def)
  moreover have "sched_step senv (s\<lparr>mgr := wm\<rparr>) ((s\<lparr>mgr := wm\<rparr>)\<lparr>mgr := wm'\<rparr>)"
    by (rule sched_step.response) (use assms(3) in simp)
  ultimately show ?thesis by (simp add: follows_def)
qed

lemma on_grpc_safe:
  "follows senv s md \<Longrightarrow> (f (md_grpc md) = None \<Longrightarrow> R) \<Longrightarrow> safe R (follows senv s) (on_grpc f md)"
  by (auto simp: on_grpc_def safe_def split: option.split)

lemma updateDevicePoint_None:
  "updateDevicePoint env n v err dev dd g = None \<Longrightarrow> dev_AddressUUID dev = None"
  by (auto simp: updateDevicePoint_def split: option.splits sum.splits bind_splits prod.splits)

lemma updateDeviceWrittenPoint_safe:
  assumes "follows senv s md"
  shows "safe R (follows senv s) (updateDeviceWrittenPoint env n v err i dev md)"
proof -
  obtain wm where wm: "md_manager md = Some wm" using assms by (auto simp: follows_def)
  obtain r wm' where d: "manager_DequeueUsingMessageId (dev_UUID dev) i wm = (r, wm')" by fastforce
  have "follows senv s (md\<lparr>md_manager := Some wm', md_grpc := g\<rparr>)" for g
    using follows_response [OF assms wm d] by (simp add: follows_def)
  then show ?thesis using follows_response [OF assms wm d]
    by (simp add: updateDeviceWrittenPoint_def wm d Let_def split: option.split)
qed

interpretation module_points: reception "module_callbacks env" dev
  "lenient \<or> \<not> sound_env env \<or> dev_AddressUUID dev = None" "follows senv s" for env dev lenient senv s
  by unfold_locales
     (auto simp: module_callbacks_def successFn_def updateDevicePointSuccess_def updateDevicePointError_def
        updateDeviceWrittenPointSuccess_def updateDeviceWrittenPointError_def
        intro!: on_grpc_safe updateDeviceWrittenPoint_safe dest!: updateDevicePoint_None)

interpretation module_device: reception_env "module_callbacks env" dev
  "lenient \<or> \<not> sound_env env \<or> dev_AddressUUID dev = None" "follows senv s" "module_dispatch env" for env dev lenient senv s
  by unfold_locales (auto simp: module_dispatch_def sound_env_def split: prod.split)

interpretation module_frames: reception_frames "module_callbacks env" "lenient \<or> \<not> sound_env env" "follows senv s"
  "module_dispatch env" "\<lambda>dev. sound_env env \<longrightarrow> dev_AddressUUID dev \<noteq> None" for env lenient senv s
proof (rule reception_frames.intro)
  fix md :: "'a module" and address dev
  assume "env_getDevice (module_dispatch env) address md = Some dev"
  then show "sound_env env \<longrightarrow> dev_AddressUUID dev \<noteq> None" by (auto simp: sound_env_def)
next
  fix dev :: device
  assume "sound_env env \<longrightarrow> dev_AddressUUID dev \<noteq> None"
  then have "lenient \<or> \<not> sound_env env \<or> dev_AddressUUID dev = None \<longleftrightarrow> lenient \<or> \<not> sound_env env" by auto
  then show "reception_env (module_callbacks env) dev (lenient \<or> \<not> sound_env env) (follows senv s) (module_dispatch env)"
    using module_device.reception_env_axioms [of env dev lenient senv s] by simp
qed

subsection \<open>The whole payload handler\<close>

text \<open>A frame that was handled has a device of the data base.\<close>

lemma dispatchDevice_device:
  "dispatchDevice env a dev leg h pub bs rssi snr cb s = Some (res, s') \<Longrightarrow> dr_OK res \<Longrightarrow> dr_Device res = Some dev"
  by (auto simp: dispatchDevice_def no_result_def split: option.splits bind_splits prod.splits if_splits)

lemma dispatchFrame_device:
  assumes "dispatchFrame env dataHex cb s = Some (res, s')" "dr_OK res"
  shows "\<exists>dev address. dr_Device res = Some dev \<and> env_getDevice env address s = Some dev"
proof -
  have no: "\<not> dr_OK no_result" by (simp add: no_result_def)
  have long: "8 < length dataHex" using assms dispatchFrame_short [of dataHex env cb s] no by (cases "8 < length dataHex") auto
  have look: "\<exists>dev. dr_Device res = Some dev \<and> device = Some dev"
    if rd: "resolveDevice env dataHex (take 8 dataHex) s = Some (address, device, leg, h, pub)" for address device leg h pub
  proof -
    obtain r q where r: "DecodeRSSI h = Some r" "DecodeSNR h = Some q" using header_total(1,2) by metis
    show ?thesis using long rd header_total(3) [of dataHex] r assms no
      by (cases r; cases q; cases device) (auto simp: dispatchFrame_def ValidPayload_def dest: dispatchDevice_device)
  qed
  show ?thesis
  proof (cases rule: resolveDevice_cases [of env "take 8 dataHex" s dataHex])
    case (known dev)
    then show ?thesis using look [OF known(2)] by auto
  next
    case unknown
    then show ?thesis using look [OF unknown(2)] by auto
  next
    case (legacy address2 bs)
    then show ?thesis using look [OF legacy(4)] by auto
  qed
qed

lemma finish_frame_kept:
  assumes "dr_Device res = Some dev" "sound_env env \<longrightarrow> dev_AddressUUID dev \<noteq> None" "follows senv s md"
  shows "kept (lenient \<or> \<not> sound_env env) (follows senv s) (finish_frame env res md)"
proof -
  have R: "lenient \<or> \<not> sound_env env \<or> dev_AddressUUID dev = None \<longleftrightarrow> lenient \<or> \<not> sound_env env" using assms(2) by auto
  have put: "kept (lenient \<or> \<not> sound_env env) (follows senv s) (perform (successFn env n v dev dd) md)"
    if "follows senv s md" for n v dd md
    using module_points.point [OF that, of lenient env dev n v dd] unfolding R kept_perform by (simp add: module_callbacks_def)
  show ?thesis unfolding finish_frame_def assms(1) Let_def
    by (simp, intro kept_bind put assms(3)) (simp_all add: publish_frame_def Let_def)
qed

text \<open>The frames on which the payload handler may panic.\<close>

definition panicking_payload :: "'g module_env \<Rightarrow> string \<Rightarrow> 'g module \<Rightarrow> bool" where
  "panicking_payload env dataHex md \<longleftrightarrow> (\<exists>dev d. getDeviceByLoRaAddress env (take 8 dataHex) (md_grpc md) = Some dev
     \<and> GetDeviceDescription dev LoRaDeviceDescriptions = Some d \<and> IsLoRaRAW d
     \<and> panicking_frame (module_dispatch env) dev d (fst (hex_decode dataHex)))"

lemma handleSerialPayload_kept:
  assumes f: "follows senv s md" and ok: "lenient \<or> \<not> panicking_payload env dataHex md"
  shows "kept (lenient \<or> \<not> sound_env env) (follows senv s) (handleSerialPayload env dataHex md)"
proof (cases "md_networkUUID md = ''''")
  case True
  then show ?thesis using f by (simp add: handleSerialPayload_def)
next
  case False
  let ?md = "md\<lparr>md_collected := Map.empty\<rparr>"
  let ?r = "dispatchFrame (module_dispatch env) dataHex (module_callbacks env) ?md"
  have fm: "follows senv s ?md" using f by simp
  have r: "safe (lenient \<or> \<not> sound_env env) (follows senv s) ?r"
    by (rule module_frames.dispatchFrame_safe [OF fm]) (use ok in \<open>auto simp: panicking_payload_def\<close>)
  show ?thesis
  proof (cases ?r)
    case None
    then show ?thesis using r False by (simp add: handleSerialPayload_def)
  next
    case (Some p)
    obtain res md' where p: "p = (res, md')" by (cases p)
    show ?thesis
    proof (cases "dr_OK res")
      case True
      obtain dev address where dev: "dr_Device res = Some dev" "env_getDevice (module_dispatch env) address ?md = Some dev"
        using dispatchFrame_device [OF Some [unfolded p] True] by blast
      have "kept (lenient \<or> \<not> sound_env env) (follows senv s) (finish_frame env res md')"
        by (rule finish_frame_kept [OF dev(1)]) (use dev(2) r Some p in \<open>auto simp: sound_env_def\<close>)
      then show ?thesis using False Some p True by (simp add: handleSerialPayload_def)
    qed (use r False Some p in \<open>simp add: handleSerialPayload_def\<close>)
  qed
qed

lemma payload_follows:
  assumes "md_manager md = Some (mgr s)" "handleSerialPayload env dataHex md = Some md'"
  shows "\<exists>m. md_manager md' = Some m \<and> (sched_step senv)\<^sup>*\<^sup>* s (s\<lparr>mgr := m\<rparr>)"
proof -
  have "follows senv s md" using assms(1) by (simp add: follows_def)
  from handleSerialPayload_kept [OF this, of True env dataHex] show ?thesis using assms(2) by (simp add: follows_def)
qed

subsection \<open>Properties\<close>

text \<open>Whatever string arrives on the serial port, handling it changes the write queues by steps of the
  scheduler's transition system only (acknowledgements): the module never loses its queue manager, and the
  scheduler's position and what it has sent stay as they were.\<close>

theorem reception_follows_scheduler:
  assumes "md_manager md = Some (mgr s)" "handleSerialPayload env dataHex md = Some md'"
  shows "\<exists>m. md_manager md' = Some m \<and> (sched_step senv)\<^sup>*\<^sup>* s (s\<lparr>mgr := m\<rparr>)"
  by (rule payload_follows [OF assms])

theorem reception_follows_scheduler_witness:
  "\<exists>md m. handleSerialPayload node_env (wire_hex [0xc0, 0xff, 0xee, 1]) (node_module (Some (NewPointWriteQueueManager 2))) = Some md
    \<and> md_manager md = Some m \<and> (sched_step example_sched)\<^sup>*\<^sup>* (start 2) ((start 2)\<lparr>mgr := m\<rparr>)"
proof -
  have "length (wire_hex [0xc0, 0xff, 0xee, 1]) \<le> 8" by (simp add: wire_hex_def)
  note short = dispatchFrame_short [OF this]
  have "\<not> dr_OK no_result" by (simp add: no_result_def)
  then obtain md where r: "handleSerialPayload node_env (wire_hex [0xc0, 0xff, 0xee, 1]) (node_module (Some (NewPointWriteQueueManager 2))) = Some md"
    by (simp add: handleSerialPayload_def short)
  have "md_manager (node_module (Some (NewPointWriteQueueManager 2))) = Some (mgr (start 2))" by (simp add: start_def)
  from reception_follows_scheduler [OF this r] r show ?thesis by blast
qed

text \<open>C6: With a data base that returns devices with addresses and an enabled module, a line of the serial
  port, of any length and content, makes the module panic only when it is a frame of a known LoRaRAW
  device that is in the dispatcher's list: authentic with an empty payload for the Rubix decoder or a
  RESPONSE of a model without response decoder, or plaintext and empty for a Rubix model that allows it.\<close>

theorem serial_payload_panics_only:
  assumes "sound_env env" "md_manager md \<noteq> None" "handleSerialPayload env dataHex md = None"
  shows "\<exists>dev d key. getDeviceByLoRaAddress env (take 8 dataHex) (md_grpc md) = Some dev
    \<and> GetDeviceDescription dev LoRaDeviceDescriptions = Some d \<and> IsLoRaRAW d
    \<and> getEncryptionKey (me_DefaultKey env) dev = Inr key
    \<and> ((\<exists>dec. tryDecryptLoRaRAWPkt (me_mac env) (fst (hex_decode dataHex)) key = Some (Inr dec)
           \<and> (empty_rubix_payload d dec \<or> response_without_decoder d dec))
       \<or> AllowUnencrypted d \<and> isUnencryptedLoRaRAW (fst (hex_decode dataHex)) = Some True
           \<and> empty_rubix_payload d (fst (hex_decode dataHex)))"
proof -
  obtain m where m: "md_manager md = Some m" using assms(2) by auto
  have "follows senv ((start 0)\<lparr>mgr := m\<rparr>) md" for senv using m by (auto simp: follows_def)
  from handleSerialPayload_kept [OF this, of False env dataHex] assms(1,3) have "panicking_payload env dataHex md" by auto
  then show ?thesis by (simp add: panicking_payload_def panicking_frame_def)
qed

theorem serial_payload_panics_only_witness:
  "\<exists>d key. GetDeviceDescription (node\<lparr>dev_Model := ''Rubix''\<rparr>) LoRaDeviceDescriptions = Some d \<and> IsLoRaRAW d
    \<and> getEncryptionKey (me_DefaultKey node_env) (node\<lparr>dev_Model := ''Rubix''\<rparr>) = Inr key"
proof -
  let ?dev = "node\<lparr>dev_Model := ''Rubix''\<rparr>"
  have same_key: "getEncryptionKey k ?dev = getEncryptionKey k node" for k by (simp add: getEncryptionKey_def)
  let ?env = "node_env\<lparr>me_grpc := log_grpc ?dev\<rparr>" and ?hex = "wire_hex ([0xc0, 0xff, 0xee, 1] @ [0, 0, 0, 60, 40])"
  let ?md = "node_module (Some (NewPointWriteQueueManager 2))"
  have get: "getDeviceByLoRaAddress ?env a g = Some ?dev" for a g by (simp add: getDeviceByLoRaAddress_def log_grpc_def)
  have key: "getEncryptionKey (me_DefaultKey ?env) ?dev = Inr (replicate 16 7)"
    using node_simps(2) by (simp add: same_key)
  have mac: "me_mac ?env = example_mac" "mac_ok example_mac" by simp_all
  have desc: "GetDeviceDescription ?dev LoRaDeviceDescriptions = Some (rubix_desc ''Rubix'' DeviceModelRubix True)"
  proof -
    have "?dev = example_device\<lparr>dev_Model := ''Rubix'', dev_Manufacture := wire_hex (replicate 16 7)\<rparr>" by (simp add: node_def)
    then show ?thesis by (simp only: example_found(1))
  qed
  have "dispatchFrame (module_dispatch ?env) ?hex (module_callbacks ?env) (?md\<lparr>md_collected := Map.empty\<rparr>) = None"
    by (rule empty_rubix_frame_panics [where dev = ?dev and key = "replicate 16 7" and addr = "[0xc0, 0xff, 0xee, 1]" and opts = 0 and nonce = 0
          and r = 60 and q = 40]) (use get key mac desc wire_hex_frame(1) in simp_all)
  then have p: "handleSerialPayload ?env ?hex ?md = None" by (simp add: handleSerialPayload_def)
  have "sound_env ?env" using get mac by (simp add: sound_env_def)
  from serial_payload_panics_only [OF this _ p] show ?thesis by (simp add: get desc same_key)
qed

end
