(* ===== verification/Point_Reports.thy ===== *)
theory Point_Reports
  imports Module_Router Module_Reception
begin

text \<open>
  The attempts to write points that a data base sees, as a history: the interface \<open>point_log\<close> says that
  every call of the marshaller leaves the history as it is, except \<^verbatim>\<open>PointWrite\<close>, which appends its
  arguments.  In it the operations of the module are shown to report the end of a write (state \<^verbatim>\<open>WriteOk\<close>
  or \<^verbatim>\<open>ApiWriteFailed\<close>) in two places only: the response callbacks and \<^verbatim>\<open>onWriteExhausted\<close>.
\<close>

type_synonym point_report = "string \<times> point_writer"

locale point_log =
  fixes env :: "'g module_env" and writes :: "'g \<Rightarrow> point_report list"
  assumes CreateNetwork: "writes (snd (g_CreateNetwork (me_grpc env) net g)) = writes g"
    and CreateDevice: "writes (snd (g_CreateDevice (me_grpc env) dev g)) = writes g"
    and DeleteDevice: "writes (snd (g_DeleteDevice (me_grpc env) uuid g)) = writes g"
    and UpdateNetwork: "writes (snd (g_UpdateNetwork (me_grpc env) uuid neto g)) = writes g"
    and DeleteNetwork: "writes (snd (g_DeleteNetwork (me_grpc env) uuid g)) = writes g"
    and UpdateDevice: "writes (snd (g_UpdateDevice (me_grpc env) uuid devo g)) = writes g"
    and DeletePoint: "writes (snd (g_DeletePoint (me_grpc env) uuid g)) = writes g"
    and CreatePoint: "writes (snd (g_CreatePoint (me_grpc env) pt g)) = writes g"
    and UpdatePoint: "writes (snd (g_UpdatePoint (me_grpc env) uuid pt g)) = writes g"
    and PointWrite: "writes (snd (g_PointWrite (me_grpc env) uuid w g)) = writes g @ [(uuid, w)]"
    and UpdateDeviceFault: "writes (g_UpdateDeviceFault (me_grpc env) uuid flt g) = writes g"
    and UpdateNetworkFault: "writes (g_UpdateNetworkFault (me_grpc env) uuid flt g) = writes g"
    and UpdatePluginMessage: "writes (snd (g_UpdatePluginMessage (me_grpc env) name level msg g)) = writes g"
    and UpsertDeviceMetaTags: "writes (snd (g_UpsertDeviceMetaTags (me_grpc env) uuid tags g)) = writes g"

text \<open>Any data base with a history added to its state is one.\<close>

definition keep_log :: "('g \<Rightarrow> 'r \<times> 'g) \<Rightarrow> 'g \<times> point_report list \<Rightarrow> 'r \<times> 'g \<times> point_report list" where
  "keep_log f s = (case s of (g, l) \<Rightarrow> (case f g of (r, g) \<Rightarrow> (r, g, l)))"

definition logged :: "'g grpc \<Rightarrow> ('g \<times> point_report list) grpc" where
  "logged gr = \<lparr>
     g_GetNetworksByPluginName = (\<lambda>n s. g_GetNetworksByPluginName gr n (fst s)), g_GetNetwork = (\<lambda>u s. g_GetNetwork gr u (fst s)),
     g_GetDevice = (\<lambda>u s. g_GetDevice gr u (fst s)), g_GetOneDeviceByArgs = (\<lambda>a s. g_GetOneDeviceByArgs gr a (fst s)),
     g_CreateNetwork = (\<lambda>n. keep_log (g_CreateNetwork gr n)), g_CreateDevice = (\<lambda>d. keep_log (g_CreateDevice gr d)),
     g_DeleteDevice = (\<lambda>u. keep_log (g_DeleteDevice gr u)), g_UpdateNetwork = (\<lambda>u n. keep_log (g_UpdateNetwork gr u n)),
     g_DeleteNetwork = (\<lambda>u. keep_log (g_DeleteNetwork gr u)), g_UpdateDevice = (\<lambda>u d. keep_log (g_UpdateDevice gr u d)),
     g_DeletePoint = (\<lambda>u. keep_log (g_DeletePoint gr u)), g_CreatePoint = (\<lambda>p. keep_log (g_CreatePoint gr p)),
     g_UpdatePoint = (\<lambda>u p. keep_log (g_UpdatePoint gr u p)),
     g_PointWrite = (\<lambda>u w s. case keep_log (g_PointWrite gr u w) s of (r, g, l) \<Rightarrow> (r, g, l @ [(u, w)])),
     g_UpdateDeviceFault = (\<lambda>u f s. (g_UpdateDeviceFault gr u f (fst s), snd s)),
     g_UpdateNetworkFault = (\<lambda>u f s. (g_UpdateNetworkFault gr u f (fst s), snd s)),
     g_UpdatePluginMessage = (\<lambda>n v m. keep_log (g_UpdatePluginMessage gr n v m)),
     g_UpsertDeviceMetaTags = (\<lambda>u ts. keep_log (g_UpsertDeviceMetaTags gr u ts))\<rparr>"

interpretation logged: point_log "env\<lparr>me_grpc := logged gr\<rparr>" snd for env gr
  by unfold_locales (simp_all add: logged_def keep_log_def split: prod.split)

interpretation log_grpc: point_log "env\<lparr>me_grpc := log_grpc dev\<rparr>" "\<lambda>g. g" for env dev
  by unfold_locales (simp_all add: log_grpc_def)

definition settling :: "point_report \<Rightarrow> bool" where
  "settling x \<longleftrightarrow> pw_PollState (snd x) \<in> {PointStateWriteOk, PointStateApiWriteFailed}"

lemma on_db_grpc: "on_db f lc = (r, lc') \<Longrightarrow> md_grpc (lc_module lc') = snd (f (md_grpc (lc_module lc)))"
  by (auto simp: on_db_def split: prod.splits)

lemma respond_on_db_grpc: "respond out (on_db f lc) = (r, lc') \<Longrightarrow> md_grpc (lc_module lc') = snd (f (md_grpc (lc_module lc)))"
  by (auto simp: respond_def split: sum.splits prod.splits dest: on_db_grpc)

lemma no_content_on_db_grpc: "no_content (on_db f lc) = (r, lc') \<Longrightarrow> md_grpc (lc_module lc') = snd (f (md_grpc (lc_module lc)))"
  by (auto simp: no_content_def split: option.splits prod.splits dest: on_db_grpc)

context point_log
begin

definition ends :: "'g \<Rightarrow> point_report list" where
  "ends g = filter settling (writes g)"

lemmas same_writes = CreateNetwork CreateDevice DeleteDevice UpdateNetwork DeleteNetwork UpdateDevice DeletePoint CreatePoint
  UpdatePoint UpdateDeviceFault UpdateNetworkFault UpdatePluginMessage UpsertDeviceMetaTags

lemma same_writes_eq:
  "g_CreateNetwork (me_grpc env) net g = (rn, g') \<Longrightarrow> writes g' = writes g" "g_CreateDevice (me_grpc env) dev g = (rd, g') \<Longrightarrow> writes g' = writes g"
  "g_DeleteDevice (me_grpc env) uuid g = (e, g') \<Longrightarrow> writes g' = writes g" "g_UpdateDevice (me_grpc env) uuid devo g = (rd, g') \<Longrightarrow> writes g' = writes g"
  "g_CreatePoint (me_grpc env) pt g = (rp, g') \<Longrightarrow> writes g' = writes g" "g_UpdatePoint (me_grpc env) uuid pt g = (rp, g') \<Longrightarrow> writes g' = writes g"
  "g_UpsertDeviceMetaTags (me_grpc env) uuid tags g = (e, g') \<Longrightarrow> writes g' = writes g"
  using same_writes by (metis snd_conv)+

lemma PointWrite_ends:
  "g_PointWrite (me_grpc env) uuid w g = (r, g') \<Longrightarrow> ends g' = ends g @ (if settling (uuid, w) then [(uuid, w)] else [])"
  using PointWrite [of uuid w g] by (simp add: ends_def)

lemma addPoint_writes: "writes (snd (addPoint env pt g)) = writes g"
  by (simp add: addPoint_def CreatePoint Let_def split: sum.split)

lemma updatePoint_writes: "writes (snd (updatePoint env uuid pt g)) = writes g"
  by (simp add: updatePoint_def UpdatePoint split: sum.split)

lemma addNetwork_writes: "writes (snd (addNetwork env net g)) = writes g"
  by (simp add: addNetwork_def CreateNetwork Let_def split: sum.split)

lemma savePoints_writes: "writes (savePoints env schedule pts g) = writes g"
proof -
  have "writes (fold (\<lambda>pt g. snd (addPoint env (f pt) g)) xs g) = writes g" for f xs
    by (induction xs arbitrary: g) (simp_all add: addPoint_writes)
  then show ?thesis by (simp add: savePoints_def)
qed

lemma addDevicePoints_writes:
  "addDevicePoints env schedule dev g = Some (e, g') \<Longrightarrow> writes g' = writes g"
  by (auto simp: addDevicePoints_def addPointsFromName_def savePoints_writes split: sum.splits if_splits bind_splits)

lemma addDevice_writes:
  "addDevice env schedule dev wp g = Some (r, g') \<Longrightarrow> writes g' = writes g"
  by (auto simp: addDevice_def Let_def DeleteDevice split: sum.splits option.splits bind_splits prod.splits if_splits
      dest!: addDevicePoints_writes same_writes_eq(2))

lemma update_addresses_writes: "writes (snd (update_addresses env a pts g)) = writes g"
  by (induction pts arbitrary: g) (auto simp: Let_def split: sum.split prod.split dest: same_writes_eq)

lemma updateDevicePointsAddress_writes: "writes (snd (updateDevicePointsAddress env dev g)) = writes g"
  by (simp add: updateDevicePointsAddress_def update_addresses_writes split: sum.split)

text \<open>The handlers: none of them ends a write.\<close>

lemma writePoint_ends: "ends (snd (writePoint env uuid w g)) = ends g"
  by (simp add: writePoint_def ends_def PointWrite settling_def)

lemma writes_ends: "writes g' = writes g \<Longrightarrow> ends g' = ends g"
  by (simp add: ends_def)

lemma respond_network_ends:
  "respond out (module_addNetwork env body lc) = (r, lc') \<Longrightarrow> ends (md_grpc (lc_module lc')) = ends (md_grpc (lc_module lc))"
  using addNetwork_writes [of body "md_grpc (lc_module lc)"]
  by (auto simp: respond_def module_addNetwork_def ends_def split: sum.splits prod.splits)

lemma CreateDevice_ends:
  "CreateDevice jl env schedule wp body lc = Some (resp, ping, lc') \<Longrightarrow> ends (md_grpc (lc_module lc')) = ends (md_grpc (lc_module lc))"
  by (auto simp: CreateDevice_def Let_def split: sum.splits option.splits bind_splits prod.splits dest!: addDevice_writes writes_ends)

lemma UpdateDevice_ends:
  "UpdateDevice jl env uuid body lc = Some (resp, ping, lc') \<Longrightarrow> ends (md_grpc (lc_module lc')) = ends (md_grpc (lc_module lc))"
  using updateDevicePointsAddress_writes UpdateDevice
  by (auto simp: UpdateDevice_def on_db_def Let_def ends_def split: sum.splits option.splits bind_splits prod.splits)
     (metis snd_conv)+

lemma PointWrite_handler_ends:
  "PointWrite jl env uuid body lc = Some (resp, lc') \<Longrightarrow> ends (md_grpc (lc_module lc')) = ends (md_grpc (lc_module lc))"
  using writePoint_ends
  by (auto simp: PointWrite_def split: sum.splits option.splits bind_splits prod.splits dest!: on_db_grpc)

lemma CallModule_ends:
  assumes "CallModule hl env method url body lc = Some (resp, ping, lc')"
  shows "ends (md_grpc (lc_module lc')) = ends (md_grpc (lc_module lc))"
proof (cases "hl_route hl InitRouter method url body")
  case (Inr hr)
  obtain h r where hr: "hr = (h, r)" by (cases hr)
  then have c: "call_handler hl env h r lc = Some (resp, ping, lc')" using assms Inr by (simp add: CallModule_def)
  note same = same_writes [THEN writes_ends] addPoint_writes [THEN writes_ends] updatePoint_writes [THEN writes_ends]
  show ?thesis using c
    by (cases h)
       (auto simp: no_ping_def GetNetworkSchema_def GetDeviceSchema_def GetPointSchema_def CreateNetwork_def UpdateNetwork_def
          DeleteNetwork_def DeleteDevice_def CreatePoint_def UpdatePoint_def DeletePoint_def same
          split: sum.splits option.splits prod.splits dest!: respond_on_db_grpc no_content_on_db_grpc respond_network_ends
          CreateDevice_ends UpdateDevice_ends PointWrite_handler_ends)
qed (use assms in \<open>simp add: CallModule_def\<close>)

end

subsection \<open>Ends of writes and the write queues\<close>

text \<open>
  What the history owes to the write queues: after what it held at the start (\<open>old\<close>), one entry for every
  write that was acknowledged and for every one that was given up (unless its point has no UUID, as that of a
  ping), each for the point of that write, with the state \<^verbatim>\<open>WriteOk\<close> only if it was acknowledged.
\<close>

definition reports_end :: "system \<Rightarrow> nat \<Rightarrow> point_report \<Rightarrow> bool" where
  "reports_end s a x \<longleftrightarrow> fst x = pt_UUID (Point (item_at s a))
     \<and> (pw_PollState (snd x) = PointStateApiWriteFailed \<or> pw_PollState (snd x) = PointStateWriteOk \<and> acked (item_at s a))"

definition ended :: "system \<Rightarrow> nat \<Rightarrow> bool" where
  "ended s a \<longleftrightarrow> a < length (mgr_store (mgr s))
     \<and> (acked (item_at s a) \<or> a \<in> set (gave_up s) \<and> pt_UUID (Point (item_at s a)) \<noteq> '''')"

definition reported :: "point_report list \<Rightarrow> point_report list \<Rightarrow> system \<Rightarrow> bool" where
  "reported old l s \<longleftrightarrow> (\<exists>xs new. l = old @ new \<and> distinct xs \<and> (\<forall>a. a \<in> set xs \<longleftrightarrow> ended s a) \<and> list_all2 (reports_end s) xs new)"

lemma reported_same:
  assumes "reported old l s" "\<And>a. ended t a \<longleftrightarrow> ended s a"
    and "\<And>a. a < length (mgr_store (mgr s)) \<Longrightarrow> Point (item_at t a) = Point (item_at s a) \<and> acked (item_at t a) = acked (item_at s a)"
  shows "reported old l t"
proof -
  obtain xs new where x: "l = old @ new" "distinct xs" "\<And>a. a \<in> set xs \<longleftrightarrow> ended s a" "list_all2 (reports_end s) xs new"
    using assms(1) by (auto simp: reported_def)
  have "list_all2 (reports_end t) xs new"
    by (rule list.rel_mono_strong [OF x(4)]) (use x(3) assms(3) in \<open>auto simp: reports_end_def ended_def\<close>)
  then show ?thesis unfolding reported_def using x assms(2) by blast
qed

lemma reported_one:
  assumes "reported old l s" "\<And>b. ended t b \<longleftrightarrow> ended s b \<or> b = a" "\<not> ended s a" "reports_end t a x"
    and "\<And>b. ended s b \<Longrightarrow> Point (item_at t b) = Point (item_at s b) \<and> acked (item_at t b) = acked (item_at s b)"
  shows "reported old (l @ [x]) t"
proof -
  obtain xs new where y: "l = old @ new" "distinct xs" "\<And>b. b \<in> set xs \<longleftrightarrow> ended s b" "list_all2 (reports_end s) xs new"
    using assms(1) by (auto simp: reported_def)
  have "list_all2 (reports_end t) xs new"
    by (rule list.rel_mono_strong [OF y(4)]) (use y(3) assms(5) in \<open>auto simp: reports_end_def\<close>)
  then have "list_all2 (reports_end t) (xs @ [a]) (new @ [x])" using assms(4) by (simp add: list_all2_appendI)
  moreover have "distinct (xs @ [a])" using y(2,3) assms(3) by simp
  moreover have "b \<in> set (xs @ [a]) \<longleftrightarrow> ended t b" for b using y(3) assms(2) by auto
  ultimately show ?thesis unfolding reported_def using y(1) by (intro exI [of _ "xs @ [a]"] exI [of _ "new @ [x]"]) simp
qed

lemma gave_up_valid: "reachable senv k s \<Longrightarrow> a \<in> set (gave_up s) \<Longrightarrow> a < length (mgr_store (mgr s)) \<and> done_closed (item_at s a)"
  using reachable_settled [of senv k s] unfolding settled_def by (auto simp: given_up_def item_at_def)

text \<open>A write that waits is acknowledged or given up: one more end.\<close>

lemma reported_acked:
  assumes "reachable senv k s" "reported old l s" "pending (mgr s) a"
    and "fst x = pt_UUID (Point (item_at s a))" "pw_PollState (snd x) \<in> {PointStateWriteOk, PointStateApiWriteFailed}"
  shows "reported old (l @ [x]) (s\<lparr>mgr := remove_head True a (mgr s)\<rparr>)" (is "reported _ _ ?t")
proof -
  have a: "a < length (mgr_store (mgr s))" "\<not> done_closed (item_at s a)" using assms(3) by (simp_all add: pending_def item_at_def)
  have item: "item_at ?t b = (if b = a then markDone True (item_at s a) else item_at s b)" for b
    using a(1) by (auto simp: item_at_def)
  have "\<not> acked (item_at s a)" using settled_pending [OF reachable_settled [OF assms(1)] assms(3)] by (simp add: item_at_def)
  moreover have "a \<notin> set (gave_up s)" using gave_up_valid [OF assms(1)] a(2) by blast
  ultimately have n: "\<not> ended s a" by (simp add: ended_def)
  show ?thesis
    by (rule reported_one [OF assms(2) _ n]) (use a assms(4,5) n in \<open>auto simp: ended_def item reports_end_def\<close>)
qed

lemma reported_given_up:
  assumes "reachable senv k s" "reported old l s" "pending (mgr s) a"
    and that: "fst x = pt_UUID (Point (item_at s a))" "pw_PollState (snd x) = PointStateApiWriteFailed"
  shows "reported old (l @ (if pt_UUID (Point (item_at s a)) = '''' then [] else [x]))
      (s\<lparr>mgr := remove_head False a (mgr s), pc_of := p, gave_up := gave_up s @ [a]\<rparr>)"
proof -
  let ?t = "s\<lparr>mgr := remove_head False a (mgr s), pc_of := p, gave_up := gave_up s @ [a]\<rparr>"
  have a: "a < length (mgr_store (mgr s))" "\<not> done_closed (item_at s a)" using assms(3) by (simp_all add: pending_def item_at_def)
  have na: "\<not> acked (item_at s a)" using settled_pending [OF reachable_settled [OF assms(1)] assms(3)] by (simp add: item_at_def)
  have item: "item_at ?t b = (if b = a then markDone False (item_at s a) else item_at s b)" for b
    using a(1) by (auto simp: item_at_def)
  have fields: "Point (item_at ?t b) = Point (item_at s b)" "acked (item_at ?t b) = acked (item_at s b)" for b
    using na a(2) by (auto simp: item markDone_def)
  have "a \<notin> set (gave_up s)" using gave_up_valid [OF assms(1)] a(2) by blast
  then have n: "\<not> ended s a" using na by (simp add: ended_def)
  show ?thesis
  proof (cases "pt_UUID (Point (item_at s a)) = ''''")
    case True
    then show ?thesis using na by (simp, intro reported_same [OF assms(2)]) (auto simp: ended_def fields)
  next
    case False
    then show ?thesis using that a na
      by (simp, intro reported_one [OF assms(2) _ n]) (auto simp: ended_def fields reports_end_def)
  qed
qed

context point_log
begin

definition tracked :: "sched_env \<Rightarrow> int \<Rightarrow> system \<Rightarrow> point_report list \<Rightarrow> 'g module \<Rightarrow> bool" where
  "tracked senv k s old md \<longleftrightarrow> (\<exists>m. md_manager md = Some m \<and> reachable senv k (s\<lparr>mgr := m\<rparr>)
     \<and> reported old (ends (md_grpc md)) (s\<lparr>mgr := m\<rparr>))"

lemma tracked_grpc: "tracked senv k s old md \<Longrightarrow> ends g = ends (md_grpc md) \<Longrightarrow> tracked senv k s old (md\<lparr>md_grpc := g\<rparr>)"
  by (simp add: tracked_def)

lemma tracked_frame [simp]:
  "tracked senv k s old (md\<lparr>md_serial := p\<rparr>) = tracked senv k s old md" "tracked senv k s old (md\<lparr>md_mqtt := q\<rparr>) = tracked senv k s old md"
  "tracked senv k s old (md\<lparr>md_collected := c\<rparr>) = tracked senv k s old md" "tracked senv k s old (md\<lparr>md_networkUUID := n\<rparr>) = tracked senv k s old md"
  by (simp_all add: tracked_def)

lemma updateDevicePoint_ends:
  "updateDevicePoint env n v err dev dd g = Some (e, g') \<Longrightarrow> ends g' = ends g"
proof -
  have w: "ends (snd (error_of (g_PointWrite (me_grpc env) u w g))) = ends g" if "pw_PollState w = PointStateNone" for u w g
    using that PointWrite [of u w g]
    by (auto simp: error_of_def ends_def settling_def split: prod.split sum.split)
  have v: "ends (snd (updatePointValueSuccess env pnt v m g)) = ends g" "ends (snd (updatePointValueError env pnt er g)) = ends g" for pnt v m er g
    unfolding updatePointValueSuccess_def updatePointValueError_def Let_def by (rule w, simp add: zero_writer_def)+
  have c: "ends (snd (addPointFromName env dev n dd g)) = ends g"
    by (simp add: addPointFromName_def savePoint_def addPoint_writes [THEN writes_ends])
  assume "updateDevicePoint env n v err dev dd g = Some (e, g')"
  then show ?thesis using c v
    by (auto simp: updateDevicePoint_def split: option.splits sum.splits bind_splits prod.splits) (metis snd_conv)+
qed

lemma on_grpc_tracked:
  assumes "tracked senv k s old md" "\<And>e g'. f (md_grpc md) = Some (e, g') \<Longrightarrow> ends g' = ends (md_grpc md)"
  shows "safe True (tracked senv k s old) (on_grpc f md)"
  using assms tracked_grpc [OF assms(1)] by (auto simp: on_grpc_def safe_def split: option.split)

lemma end_report:
  "\<exists>w. pw_PollState w = PointStateWriteOk \<and> ends (snd (updateWrittenPointSuccess env pt g)) = ends g @ [(pt_UUID pt, w)]"
  "\<exists>w. pw_PollState w = PointStateApiWriteFailed \<and> ends (snd (updateWrittenPointError env pt err g)) = ends g @ [(pt_UUID pt, w)]"
proof -
  have w: "ends (snd (error_of (g_PointWrite (me_grpc env) u w g))) = ends g @ [(u, w)]" if "settling (u, w)" for u w
    using that PointWrite [of u w g] by (auto simp: error_of_def ends_def split: prod.split sum.split)
  show "\<exists>w. pw_PollState w = PointStateWriteOk \<and> ends (snd (updateWrittenPointSuccess env pt g)) = ends g @ [(pt_UUID pt, w)]"
    unfolding updateWrittenPointSuccess_def by (intro exI conjI [rotated], rule w) (simp_all add: settling_def)
  show "\<exists>w. pw_PollState w = PointStateApiWriteFailed \<and> ends (snd (updateWrittenPointError env pt err g)) = ends g @ [(pt_UUID pt, w)]"
    unfolding updateWrittenPointError_def by (intro exI conjI [rotated], rule w) (simp_all add: settling_def)
qed

lemma written_tracked:
  assumes "tracked senv k s old md"
  shows "safe True (tracked senv k s old) (updateDeviceWrittenPoint env n v err i dev md)"
proof -
  obtain m where m: "md_manager md = Some m" "reachable senv k (s\<lparr>mgr := m\<rparr>)" "reported old (ends (md_grpc md)) (s\<lparr>mgr := m\<rparr>)"
    using assms by (auto simp: tracked_def)
  obtain r m' where d: "manager_DequeueUsingMessageId (dev_UUID dev) i m = (r, m')" by fastforce
  have ok: "manager_ok m" using structuredD(1) [OF reachable_structured [OF m(2)]] by simp
  from response_effect [OF ok d] show ?thesis
  proof (elim disjE conjE exE)
    assume "r = None" "m' = m"
    then show ?thesis using m d by (simp add: updateDeviceWrittenPoint_def tracked_def)
  next
    fix a assume a: "pending m a" "r = Some (Point (mgr_store m ! a))" "m' = remove_head True a m"
    let ?g = "snd (case err of Some err \<Rightarrow> updateWrittenPointError env (Point (mgr_store m ! a)) err (md_grpc md)
      | None \<Rightarrow> updateWrittenPointSuccess env (Point (mgr_store m ! a)) (md_grpc md))"
    obtain w where w: "pw_PollState w \<in> {PointStateWriteOk, PointStateApiWriteFailed}"
      "ends ?g = ends (md_grpc md) @ [(pt_UUID (Point (mgr_store m ! a)), w)]"
      using end_report by (cases err) (simp; blast)+
    have "reachable senv k ((s\<lparr>mgr := m\<rparr>)\<lparr>mgr := m'\<rparr>)"
      by (rule reachable_step [OF m(2) sched_step.response]) (use d in simp)
    moreover have "reported old (ends ?g) ((s\<lparr>mgr := m\<rparr>)\<lparr>mgr := remove_head True a (mgr (s\<lparr>mgr := m\<rparr>))\<rparr>)"
      unfolding w(2) by (rule reported_acked [OF m(2,3)]) (use a(1) w(1) in \<open>simp_all add: item_at_def\<close>)
    ultimately have "tracked senv k s old (md\<lparr>md_manager := Some m', md_grpc := ?g\<rparr>)"
      using a(3) by (simp add: tracked_def)
    then show ?thesis using m(1) d a(2) by (simp add: updateDeviceWrittenPoint_def Let_def)
  qed
qed

lemma callbacks_tracked: "reception_env (module_callbacks env) dev True (tracked senv k s old) (module_dispatch env)"
  by unfold_locales
     (auto simp: module_callbacks_def module_dispatch_def successFn_def updateDevicePointSuccess_def updateDevicePointError_def
        updateDeviceWrittenPointSuccess_def updateDeviceWrittenPointError_def updateDeviceMetaTags_def
        split: prod.split
        intro!: on_grpc_tracked written_tracked dest: updateDevicePoint_ends same_writes_eq(7) [THEN writes_ends])

end

sublocale point_log \<subseteq> tracking: reception_frames "module_callbacks env" True "tracked senv k s old" "module_dispatch env" "\<lambda>_. True"
  for senv k s old
  by (rule reception_frames.intro) (rule TrueI, rule callbacks_tracked)

context point_log
begin

lemma successFn_tracked: "tracked senv k s old md \<Longrightarrow> kept True (tracked senv k s old) (perform (successFn env n v dev dd) md)"
  using reception.point [OF reception_env.axioms(1) [OF callbacks_tracked]]
  by (simp add: kept_perform module_callbacks_def)

lemma handleSerialPayload_tracked:
  assumes "tracked senv k s old md" "handleSerialPayload env dataHex md = Some md'"
  shows "tracked senv k s old md'"
proof -
  have "kept True (tracked senv k s old) (handleSerialPayload env dataHex md)"
  proof (cases "md_networkUUID md = ''''")
    case True
    then show ?thesis using assms(1) by (simp add: handleSerialPayload_def)
  next
    case False
    have d: "safe True (tracked senv k s old) (dispatchFrame (module_dispatch env) dataHex (module_callbacks env) (md\<lparr>md_collected := Map.empty\<rparr>))"
      by (rule tracking.dispatchFrame_safe) (use assms(1) in simp_all)
    have f: "kept True (tracked senv k s old) (finish_frame env res md1)" if "tracked senv k s old md1" for res md1
      unfolding finish_frame_def
      by (cases "dr_Device res")
         (auto intro!: kept_bind successFn_tracked that tracked_grpc simp: publish_frame_def Let_def updateDeviceFault_def
            UpdateDeviceFault [THEN writes_ends])
    show ?thesis using d f False
      by (cases "dispatchFrame (module_dispatch env) dataHex (module_callbacks env) (md\<lparr>md_collected := Map.empty\<rparr>)")
         (auto simp: handleSerialPayload_def)
  qed
  then show ?thesis using assms(2) by simp
qed

end

end
