(* ===== verification/Module_System.thy ===== *)
theory Module_System
  imports Point_Reports
begin

text \<open>
  The enabled module as one transition system: frames from the serial port, HTTP requests, pings, the
  scheduler with its serial writes, \<^verbatim>\<open>Disable\<close>, the run loop's calls and changes of the data base by
  others.  The theorems say that all of this is a run of the write scheduler, so that its theorems hold in the
  running module, and that the end of every write is reported to the data base exactly once.
\<close>

subsection \<open>States\<close>

text \<open>The queue manager is shared: it is the one the module points to.  The other components are those of
  the scheduler's system.\<close>

record 'g whole =
  wh_lc :: "'g lifecycle"
  wh_pc :: pc
  wh_waking :: nat
  wh_air :: "(nat \<times> byte list) list"
  wh_gave_up :: "nat list"
  wh_dropped :: "nat list"

definition module_of :: "'g whole \<Rightarrow> 'g module" where
  "module_of w = lc_module (wh_lc w)"

definition system_of :: "manager \<Rightarrow> 'g whole \<Rightarrow> system" where
  "system_of m w = \<lparr>mgr = m, pc_of = wh_pc w, waking = wh_waking w, air = wh_air w, gave_up = wh_gave_up w, dropped = wh_dropped w\<rparr>"

definition put_module :: "'g module \<Rightarrow> 'g whole \<Rightarrow> 'g whole" where
  "put_module md w = w\<lparr>wh_lc := (wh_lc w)\<lparr>lc_module := md\<rparr>\<rparr>"

definition put_system :: "system \<Rightarrow> 'g whole \<Rightarrow> 'g whole" where
  "put_system t w = (put_module ((module_of w)\<lparr>md_manager := Some (mgr t)\<rparr>) w)\<lparr>wh_pc := pc_of t, wh_waking := waking t,
     wh_air := air t, wh_gave_up := gave_up t, wh_dropped := dropped t\<rparr>"

definition put_serial :: "serial_state \<Rightarrow> 'g whole \<Rightarrow> 'g whole" where
  "put_serial p w = put_module ((module_of w)\<lparr>md_serial := p\<rparr>) w"

definition put_grpc :: "'g \<Rightarrow> 'g whole \<Rightarrow> 'g whole" where
  "put_grpc g w = put_module ((module_of w)\<lparr>md_grpc := g\<rparr>) w"

text \<open>After \<^verbatim>\<open>Enable\<close>: the scheduler goroutine is at the top of its loop.\<close>

definition whole_start :: "'g lifecycle \<Rightarrow> 'g whole" where
  "whole_start lc = \<lparr>wh_lc = lc, wh_pc = Top, wh_waking = 0, wh_air = [], wh_gave_up = [], wh_dropped = []\<rparr>"

subsection \<open>Steps\<close>

text \<open>
  The scheduler's own steps are the steps of its system that move it; the sending of a frame goes through
  \<^verbatim>\<open>WriteToLoRaRaw\<close>, and a write that is given up is passed to \<^verbatim>\<open>onWriteExhausted\<close>.  A ping is enqueued in its
  three critical sections.  A call that creates a queue waits for a scan to end, which holds the manager's
  mutex.  \<open>db\<close> says what others do to the data base.
\<close>

inductive whole_step ::
  "'g module_env \<Rightarrow> http_lib \<Rightarrow> sched_env \<Rightarrow> ('g \<Rightarrow> 'g \<Rightarrow> bool) \<Rightarrow> 'g whole \<Rightarrow> 'g whole \<Rightarrow> bool" for env hl senv db where
  frame: "handleSerialPayload env dataHex (module_of w) = Some md \<Longrightarrow> whole_step env hl senv db w (put_module md w)"
| request: "\<lbrakk>CallModule hl env verb url body (wh_lc w) = Some (resp, ping, lc); \<forall>i. wh_pc w \<noteq> Scan i\<rbrakk> \<Longrightarrow>
     whole_step env hl senv db w (w\<lparr>wh_lc := lc\<rparr>)"
| ping_create: "\<lbrakk>md_manager (module_of w) = Some m; \<forall>i. wh_pc w \<noteq> Scan i\<rbrakk> \<Longrightarrow>
     whole_step env hl senv db w (put_system ((system_of m w)\<lparr>mgr := snd (getOrCreateQueue deviceUUID m)\<rparr>) w)"
| ping_append: "\<lbrakk>md_manager (module_of w) = Some m; queues m (dev_UUID dev) = Some q\<rbrakk> \<Longrightarrow>
     whole_step env hl senv db w
       (put_system ((system_of m w)\<lparr>mgr := append_point (ping_point dev) q m, waking := wh_waking w + 1\<rparr>) w)"
| ping_wake: "\<lbrakk>md_manager (module_of w) = Some m; wh_waking w = Suc k\<rbrakk> \<Longrightarrow>
     whole_step env hl senv db w (put_system ((system_of m w)\<lparr>mgr := wake m, waking := k\<rparr>) w)"
| disable: "Disable (wh_lc w) = Some (err, lc) \<Longrightarrow> whole_step env hl senv db w (w\<lparr>wh_lc := lc\<rparr>)"
| open_port: "SerialOpen env closeErr openErr (module_of w) = (r, md) \<Longrightarrow> whole_step env hl senv db w (put_module md w)"
| fault: "whole_step env hl senv db w (put_module (network_fault env (md_networkUUID (module_of w)) message (module_of w)) w)"
| drain: "\<lbrakk>i < length (channels (md_serial (module_of w))); draining (channels (md_serial (module_of w)) ! i)\<rbrakk> \<Longrightarrow>
     whole_step env hl senv db w (put_serial (processWriteQueue i accepts (md_serial (module_of w))) w)"
| scheduler: "\<lbrakk>md_manager (module_of w) = Some m; sched_step senv (system_of m w) t; pc_of t \<noteq> wh_pc w;
     gave_up t = wh_gave_up w; \<forall>dev item. wh_pc w \<noteq> Ready dev item\<rbrakk> \<Longrightarrow>
     whole_step env hl senv db w (put_system t w)"
| transmit: "\<lbrakk>md_manager (module_of w) = Some m; wh_pc w = Ready dev item; Message (mgr_store m ! item) = Some data;
     WriteToLoRaRaw data (md_serial (module_of w)) = (None, p)\<rbrakk> \<Longrightarrow>
     whole_step env hl senv db w
       (put_serial p (put_system ((system_of m w)\<lparr>pc_of := Await dev item, air := wh_air w @ [(item, data)]\<rparr>) w))"
| transmit_error: "\<lbrakk>md_manager (module_of w) = Some m; wh_pc w = Ready dev item; Message (mgr_store m ! item) = Some data;
     WriteToLoRaRaw data (md_serial (module_of w)) = (Some err, p)\<rbrakk> \<Longrightarrow>
     whole_step env hl senv db w (put_serial p (put_system ((system_of m w)\<lparr>pc_of := Failed dev item True\<rparr>) w))"
| gives_up: "\<lbrakk>md_manager (module_of w) = Some m; wh_pc w = GivingUp dev item pause; give_up dev item m = (Some pt, m')\<rbrakk> \<Longrightarrow>
     whole_step env hl senv db w
       (put_grpc (onWriteExhausted env pt (md_grpc (module_of w)))
         (put_system ((system_of m w)\<lparr>mgr := m', pc_of := after_attempt pause, gave_up := wh_gave_up w @ [item]\<rparr>) w))"
| data_base: "db (md_grpc (module_of w)) g \<Longrightarrow> whole_step env hl senv db w (put_grpc g w)"

lemma module_of_simps [simp]:
  "module_of (put_module md w) = md" "module_of (put_system t w) = (module_of w)\<lparr>md_manager := Some (mgr t)\<rparr>"
  "module_of (put_serial p w) = (module_of w)\<lparr>md_serial := p\<rparr>" "module_of (put_grpc g w) = (module_of w)\<lparr>md_grpc := g\<rparr>"
  "module_of (w\<lparr>wh_lc := lc\<rparr>) = lc_module lc" "module_of (whole_start lc) = lc_module lc"
  by (simp_all add: module_of_def put_module_def put_system_def put_serial_def put_grpc_def whole_start_def)

lemma system_of_simps [simp]:
  "system_of m (put_module md w) = system_of m w" "system_of m (put_serial p w) = system_of m w"
  "system_of m (put_grpc g w) = system_of m w" "system_of m (w\<lparr>wh_lc := lc\<rparr>) = system_of m w"
  "system_of m (put_system t w) = t\<lparr>mgr := m\<rparr>" "(system_of m w)\<lparr>mgr := m'\<rparr> = system_of m' w"
  "mgr (system_of m w) = m" "pc_of (system_of m w) = wh_pc w" "waking (system_of m w) = wh_waking w" "air (system_of m w) = wh_air w"
  "gave_up (system_of m w) = wh_gave_up w"
  by (simp_all add: put_module_def put_system_def put_serial_def put_grpc_def system_of_def)

subsection \<open>The module is a run of the scheduler\<close>

definition scheduled :: "sched_env \<Rightarrow> int \<Rightarrow> 'g whole \<Rightarrow> bool" where
  "scheduled senv k w \<longleftrightarrow> (\<exists>m. md_manager (module_of w) = Some m \<and> reachable senv k (system_of m w))"

lemma reachable_steps: "reachable senv k s \<Longrightarrow> (sched_step senv)\<^sup>*\<^sup>* s t \<Longrightarrow> reachable senv k t"
  by (simp add: reachable_def)

lemma SerialOpen_manager: "SerialOpen env closeErr openErr md = (r, md') \<Longrightarrow> md_manager md' = md_manager md"
  by (auto simp: SerialOpen_def network_fault_def Let_def split: sum.splits option.splits prod.splits if_splits)

lemma Disable_manager: "Disable lc = Some (err, lc') \<Longrightarrow> md_manager (lc_module lc') = map_option manager_Stop (md_manager (lc_module lc))"
  by (auto simp: Disable_def Let_def split: if_splits)

lemma enqueue_scheduled:
  assumes "reachable senv k (system_of m w)" "\<forall>i. wh_pc w \<noteq> Scan i"
  shows "reachable senv k (system_of (EnqueuePoint pt m) w)"
  using EnqueuePoint_steps [OF assms(1), of pt] assms(2) by simp

lemma scheduled_put [simp]:
  "scheduled senv k (put_system t w) = reachable senv k t" "scheduled senv k (put_serial p w) = scheduled senv k w"
  "scheduled senv k (put_grpc g w) = scheduled senv k w"
  by (simp_all add: scheduled_def)

lemma scheduled_module:
  "scheduled senv k w \<Longrightarrow> md_manager md = md_manager (module_of w) \<Longrightarrow> scheduled senv k (put_module md w)"
  by (simp add: scheduled_def)

lemma scheduled_lifecycle:
  "md_manager (module_of w) = Some m \<Longrightarrow> md_manager (lc_module lc) = Some m' \<Longrightarrow> reachable senv k (system_of m' w)
     \<Longrightarrow> scheduled senv k (w\<lparr>wh_lc := lc\<rparr>)"
  by (simp add: scheduled_def)

lemma scheduled_step:
  assumes "whole_step env hl senv db w v" "scheduled senv k w"
  shows "scheduled senv k v"
proof -
  obtain m where m: "md_manager (module_of w) = Some m" "reachable senv k (system_of m w)"
    using assms(2) by (auto simp: scheduled_def)
  note step = reachable_step [OF m(2)]
  show ?thesis
    using assms(1)
  proof cases
    case (frame dataHex md)
    have "md_manager (module_of w) = Some (mgr (system_of m w))" using m(1) by simp
    from payload_follows [OF this frame(2), of senv] m(2)
    show ?thesis unfolding frame(1) by (auto simp: scheduled_def intro: reachable_steps)
  next
    case (request verb url body resp ping lc)
    have lc: "lc_module (wh_lc w) = module_of w" by (simp add: module_of_def)
    from CallModule_manager [OF request(2)] obtain m' where
      "md_manager (lc_module lc) = Some m'" "m' = m \<or> (\<exists>pt. m' = EnqueuePoint pt m)" using m(1) unfolding lc by auto
    then show ?thesis unfolding request(1)
      using m enqueue_scheduled [OF m(2) request(3)] by (auto intro: scheduled_lifecycle)
  next
    case (ping_create m' deviceUUID)
    have "sched_step senv (system_of m w) ((system_of m w)\<lparr>mgr := snd (getOrCreateQueue deviceUUID (mgr (system_of m w)))\<rparr>)"
      by (rule sched_step.create) (use ping_create in simp)
    from step [OF this] show ?thesis using ping_create m(1) by simp
  next
    case (ping_append m' dev q)
    have "sched_step senv (system_of m w) ((system_of m w)\<lparr>mgr := append_point (ping_point dev) q (mgr (system_of m w)),
        waking := waking (system_of m w) + 1\<rparr>)"
      by (rule sched_step.append) (use ping_append m(1) in \<open>simp add: ping_point_def\<close>)
    from step [OF this] show ?thesis using ping_append m(1) by simp
  next
    case (ping_wake m' j)
    have "sched_step senv (system_of m w) ((system_of m w)\<lparr>mgr := wake (mgr (system_of m w)), waking := j\<rparr>)"
      by (rule sched_step.wakes) (use ping_wake in simp)
    from step [OF this] show ?thesis using ping_wake m(1) by simp
  next
    case (disable err lc)
    have "reachable senv k (system_of (manager_Stop m) w)" using step [OF sched_step.stops] by simp
    moreover have "md_manager (lc_module lc) = Some (manager_Stop m)"
      using Disable_manager [OF disable(2)] m(1) by (simp add: module_of_def)
    ultimately show ?thesis unfolding disable(1) using scheduled_lifecycle [OF m(1)] by blast
  next
    case (open_port closeErr openErr r md)
    then show ?thesis using assms(2) by (auto intro: scheduled_module SerialOpen_manager)
  next
    case (fault message)
    then show ?thesis using assms(2) by (simp add: scheduled_module network_fault_def)
  next
    case (scheduler m' t)
    then show ?thesis using m(1) step by simp
  next
    case (transmit m' dev item data p)
    have "sched_step senv (system_of m w) ((system_of m w)\<lparr>pc_of := Await dev item, air := air (system_of m w) @ [(item, data)]\<rparr>)"
      by (rule sched_step.sent) (use transmit m(1) in \<open>simp_all add: item_at_def\<close>)
    from step [OF this] show ?thesis using transmit m(1) by simp
  next
    case (transmit_error m' dev item data err p)
    have "sched_step senv (system_of m w) ((system_of m w)\<lparr>pc_of := Failed dev item True\<rparr>)"
      by (rule sched_step.serial_error) (use transmit_error in simp)
    from step [OF this] show ?thesis using transmit_error m(1) by simp
  next
    case (gives_up m' dev item pause pt m'')
    have "sched_step senv (system_of m w) ((system_of m w)\<lparr>mgr := m'', pc_of := after_attempt pause,
        gave_up := gave_up (system_of m w) @ [item]\<rparr>)"
      by (rule sched_step.exhausted) (use gives_up m(1) in simp_all)
    from step [OF this] show ?thesis using gives_up m(1) by simp
  qed (use assms(2) in simp_all)
qed

text \<open>\<^verbatim>\<open>Enable\<close> leaves a queue manager with some points enqueued, none tried.\<close>

lemma Enable_queued:
  "\<exists>pts. md_manager (lc_module (snd (Enable env cfg lc))) = Some (fold EnqueuePoint pts (NewPointWriteQueueManager (cfg_WriteQueueMaxRetries cfg)))"
proof -
  have "\<exists>pts. NewPointWriteQueueManager n = fold EnqueuePoint pts (NewPointWriteQueueManager n)" for n
    by (rule exI [of _ "[]"]) simp
  then show ?thesis
    by (auto simp: Enable_def Let_def enqueue_pending_fold split: sum.split list.split)
qed

lemma queued_reachable:
  "reachable senv k (system_of (fold EnqueuePoint pts (NewPointWriteQueueManager k)) (whole_start lc))"
proof -
  have s: "system_of m (whole_start lc) = (start k)\<lparr>mgr := m\<rparr>" for m
    by (simp add: system_of_def whole_start_def start_def)
  have "reachable senv k (start k)" by (simp add: reachable_def)
  from EnqueuePoints_steps [OF this, of pts] show ?thesis by (simp add: s) (simp add: start_def)
qed

lemma scheduled_enable: "scheduled senv (cfg_WriteQueueMaxRetries cfg) (whole_start (snd (Enable env cfg lc)))"
proof -
  let ?k = "cfg_WriteQueueMaxRetries cfg"
  obtain pts where "md_manager (lc_module (snd (Enable env cfg lc))) = Some (fold EnqueuePoint pts (NewPointWriteQueueManager ?k))"
    using Enable_queued by blast
  then show ?thesis using queued_reachable [of senv ?k pts] by (simp add: scheduled_def)
qed

interpretation whole: inductive_invariant "whole_step env hl senv db" "\<lambda>w. w = whole_start (snd (Enable env' cfg lc))"
  "scheduled senv (cfg_WriteQueueMaxRetries cfg)" for env hl senv db env' cfg lc
  by unfold_locales (use scheduled_enable scheduled_step in auto)

subsection \<open>Every end of a write is reported once\<close>

text \<open>A step of the scheduler's own that gives nothing up ends no write.\<close>

lemma remove_unacked:
  assumes "reachable senv k s" "pending (mgr s) a"
  shows "acked (mgr_store (remove_head False a (mgr s)) ! b) = acked (mgr_store (mgr s) ! b)"
    "Point (mgr_store (remove_head False a (mgr s)) ! b) = Point (mgr_store (mgr s) ! b)"
  using settled_pending [OF reachable_settled [OF assms(1)] assms(2)] assms(2)
  by (auto simp: nth_update_item pending_def markDone_def)

lemma own_step_ends:
  assumes "reachable senv k s" "sched_step senv s t" "pc_of t \<noteq> pc_of s" "gave_up t = gave_up s"
  shows "length (mgr_store (mgr t)) = length (mgr_store (mgr s))
    \<and> (\<forall>a. Point (item_at t a) = Point (item_at s a) \<and> acked (item_at t a) = acked (item_at s a))"
  using assms(2)
proof cases
  case (prepared dev item i st)
  then obtain frame where "st = SetMessage item i frame (mgr_store (mgr s))" using prepareMessage_stores by blast
  then show ?thesis using prepared reachable_item(1) [OF assms(1)] by (simp add: item_at_def SetMessage_def nth_update_item)
next
  case (undeliverable dev item i err)
  note u = step_undeliverable [OF assms(1) undeliverable(2,4)]
  show ?thesis using undeliverable(1) u(2) remove_unacked [OF assms(1) u(1)] by (simp add: item_at_def)
next
  case (counted dev item pause retry m)
  then show ?thesis using step_counted(1) [OF assms(1) counted(2,3)] reachable_item(1) [OF assms(1)]
    by (simp add: item_at_def nth_update_item)
next
  case (overtaken dev item pause m)
  then show ?thesis using step_give_up(2) [OF assms(1) overtaken(2,3)] by (simp add: item_at_def)
qed (use assms(3,4) in \<open>simp_all add: item_at_def\<close>)

lemma reported_extended:
  assumes "reported old l s" "reachable senv k s" "gave_up t = gave_up s"
    and "mgr_store (mgr t) = mgr_store (mgr s) @ map fresh_item pts"
  shows "reported old l t"
proof (rule reported_same [OF assms(1)])
  fix a
  show "ended t a \<longleftrightarrow> ended s a"
    using gave_up_valid [OF assms(2), of a] assms(3,4)
    by (auto simp: ended_def item_at_def nth_append fresh_item_def)
  show "Point (item_at t a) = Point (item_at s a) \<and> acked (item_at t a) = acked (item_at s a)"
    if "a < length (mgr_store (mgr s))" using that assms(4) by (simp add: item_at_def nth_append)
qed

lemma new_item_fresh: "new_item pt = fresh_item pt"
  by (simp add: new_item_def fresh_item_def)

context point_log
begin

lemma onWriteExhausted_ends:
  "\<exists>w. pw_PollState w = PointStateApiWriteFailed
    \<and> ends (onWriteExhausted env pt g) = ends g @ (if pt_UUID pt = '''' then [] else [(pt_UUID pt, w)])"
proof (cases "pt_UUID pt = ''''")
  case True
  then show ?thesis by (intro exI [of _ "zero_writer\<lparr>pw_PollState := PointStateApiWriteFailed\<rparr>"]) (simp add: onWriteExhausted_def)
qed (use end_report(2) in \<open>simp add: onWriteExhausted_def\<close>)

lemma SerialOpen_ends: "SerialOpen env closeErr openErr md = (r, md') \<Longrightarrow> ends (md_grpc md') = ends (md_grpc md)"
  by (auto simp: SerialOpen_def network_fault_def Let_def UpdateNetworkFault [THEN writes_ends]
      split: sum.splits option.splits prod.splits if_splits)

definition reporting :: "sched_env \<Rightarrow> int \<Rightarrow> point_report list \<Rightarrow> 'g whole \<Rightarrow> bool" where
  "reporting senv k old w \<longleftrightarrow> (\<exists>m. md_manager (module_of w) = Some m \<and> reachable senv k (system_of m w)
     \<and> reported old (ends (md_grpc (module_of w))) (system_of m w))"

lemma reporting_tracked: "tracked senv k (system_of m0 w) old (module_of w) = reporting senv k old w"
  by (simp add: tracked_def reporting_def)

lemma reporting_system:
  assumes "reachable senv k t" "reported old (ends (md_grpc (module_of w))) t"
  shows "reporting senv k old (put_system t w)"
  using assms by (simp add: reporting_def)

lemma reporting_system_grpc:
  "reachable senv k t \<Longrightarrow> reported old (ends g) t \<Longrightarrow> reporting senv k old (put_grpc g (put_system t w))"
  by (simp add: reporting_def)

lemma reporting_module:
  assumes "reporting senv k old w" "md_manager md = md_manager (module_of w)" "ends (md_grpc md) = ends (md_grpc (module_of w))"
  shows "reporting senv k old (put_module md w)"
  using assms by (simp add: reporting_def)

lemma reporting_step:
  assumes "whole_step env hl senv db w v" "reporting senv k old w" "\<And>g g'. db g g' \<Longrightarrow> ends g' = ends g"
  shows "reporting senv k old v"
proof -
  obtain m where m: "md_manager (module_of w) = Some m" "reachable senv k (system_of m w)"
    "reported old (ends (md_grpc (module_of w))) (system_of m w)"
    using assms(2) by (auto simp: reporting_def)
  have "scheduled senv k w" using m by (simp add: scheduled_def)
  from scheduled_step [OF assms(1) this] obtain mv where
    mv: "md_manager (module_of v) = Some mv" "reachable senv k (system_of mv v)" by (auto simp: scheduled_def)
  have v: "reporting senv k old v" if "reported old (ends (md_grpc (module_of v))) (system_of mv v)"
    using mv that by (simp add: reporting_def)
  have lc: "lc_module (wh_lc w) = module_of w" by (simp add: module_of_def)
  note more = reported_extended [OF m(3,2)]
  show ?thesis
    using assms(1)
  proof cases
    case (frame dataHex md)
    have "tracked senv k (system_of m w) old (module_of w)" using assms(2) by (simp add: reporting_tracked)
    from handleSerialPayload_tracked [OF this frame(2)] show ?thesis
      unfolding frame(1) by (simp add: reporting_def tracked_def)
  next
    case (request verb url body resp ping lc)
    have e: "ends (md_grpc (lc_module lc)) = ends (md_grpc (module_of w))" using CallModule_ends [OF request(2)] by (simp add: lc)
    from CallModule_manager [OF request(2)] obtain pts where "mgr_store mv = mgr_store m @ map fresh_item pts"
      using m(1) mv(1) request(1) EnqueuePoint_store unfolding lc
      by (auto intro: that [of "[]"]) (metis list.simps(8,9) that)
    then show ?thesis by (intro v) (use request(1) e in \<open>auto intro: more\<close>)
  next
    case (ping_create m' deviceUUID)
    then show ?thesis using mv m(1) by (intro v) (auto intro: more [where pts = "[]"])
  next
    case (ping_append m' dev q)
    then show ?thesis using mv m(1) by (intro v) (auto intro: more [where pts = "[ping_point dev]"] simp: new_item_fresh)
  next
    case (ping_wake m' j)
    then show ?thesis using mv m(1) by (intro v) (auto intro: more [where pts = "[]"])
  next
    case (disable err lc)
    have "mv = manager_Stop m" "md_grpc (lc_module lc) = md_grpc (module_of w)"
      using Disable_manager [OF disable(2)] disable mv(1) m(1) by (auto simp: lc Disable_def Let_def split: if_splits)
    then show ?thesis using disable(1) by (intro v) (auto intro: more [where pts = "[]"])
  next
    case (open_port closeErr openErr r md)
    show ?thesis unfolding open_port(1)
      by (rule reporting_module [OF assms(2) SerialOpen_manager [OF open_port(2)] SerialOpen_ends [OF open_port(2)]])
  next
    case (fault message)
    show ?thesis unfolding fault(1)
      by (rule reporting_module [OF assms(2)]) (simp_all add: network_fault_def UpdateNetworkFault [THEN writes_ends])
  next
    case (drain i accepts)
    show ?thesis unfolding drain(1) put_serial_def by (rule reporting_module [OF assms(2)]) simp_all
  next
    case (scheduler m' t)
    have t: "sched_step senv (system_of m w) t" "pc_of t \<noteq> pc_of (system_of m w)" "gave_up t = gave_up (system_of m w)"
      using scheduler m(1) by simp_all
    have "reported old (ends (md_grpc (module_of w))) t"
      by (rule reported_same [OF m(3)]) (use own_step_ends [OF m(2) t] t(3) in \<open>simp_all add: ended_def\<close>)
    then show ?thesis unfolding scheduler(1) by (rule reporting_system [OF reachable_step [OF m(2) t(1)]])
  next
    case (transmit m' dev item data p)
    then show ?thesis using mv m(1) by (intro v) (auto intro: more [where pts = "[]"])
  next
    case (transmit_error m' dev item data err p)
    then show ?thesis using mv m(1) by (intro v) (auto intro: more [where pts = "[]"])
  next
    case (gives_up m' dev item pause pt m'')
    have g: "pc_of (system_of m w) = GivingUp dev item pause" "give_up dev item (mgr (system_of m w)) = (Some pt, m'')"
      using gives_up m(1) by simp_all
    have p: "pending m item" "m'' = remove_head False item m" using step_give_up(1) [OF m(2) g] by simp_all
    have pt: "pt = Point (item_at (system_of m w) item)"
      using structured_give_up(1) [OF reachable_structured [OF m(2)], of dev item] g p(1) by (simp add: item_at_def)
    obtain x where x: "pw_PollState x = PointStateApiWriteFailed" "ends (onWriteExhausted env pt (md_grpc (module_of w)))
        = ends (md_grpc (module_of w)) @ (if pt_UUID pt = '''' then [] else [(pt_UUID pt, x)])"
      using onWriteExhausted_ends by blast
    let ?t = "(system_of m w)\<lparr>mgr := m'', pc_of := after_attempt pause, gave_up := gave_up (system_of m w) @ [item]\<rparr>"
    have r: "reachable senv k ?t" by (rule reachable_step [OF m(2) sched_step.exhausted [OF g]])
    have "reported old (ends (onWriteExhausted env pt (md_grpc (module_of w)))) ?t"
      unfolding x(2) using reported_given_up [OF m(2,3), of item "(pt_UUID pt, x)" "after_attempt pause"] p x(1)
      by (simp flip: pt)
    from reporting_system_grpc [OF r this] show ?thesis using gives_up(1,2) m(1) by simp
  next
    case (data_base g)
    show ?thesis unfolding data_base(1) put_grpc_def
      by (rule reporting_module [OF assms(2)]) (use assms(3) [OF data_base(2)] in simp_all)
  qed
qed

lemma reporting_enable:
  "reporting senv (cfg_WriteQueueMaxRetries cfg) (ends (md_grpc (lc_module (snd (Enable env cfg lc))))) (whole_start (snd (Enable env cfg lc)))"
proof -
  let ?k = "cfg_WriteQueueMaxRetries cfg"
  obtain pts where pts: "md_manager (lc_module (snd (Enable env cfg lc))) = Some (fold EnqueuePoint pts (NewPointWriteQueueManager ?k))"
    using Enable_queued by blast
  have "\<not> ended (system_of (fold EnqueuePoint pts (NewPointWriteQueueManager ?k)) (whole_start lc')) a" for a lc'
    by (simp add: ended_def item_at_def EnqueuePoints_store NewPointWriteQueueManager_def fresh_item_def)
       (simp add: whole_start_def)
  then show ?thesis using pts queued_reachable by (auto simp: reporting_def reported_def)
qed

end

subsection \<open>A run\<close>

text \<open>Steps of the scheduler's own, in a row.\<close>

definition own_step :: "sched_env \<Rightarrow> system \<Rightarrow> system \<Rightarrow> bool" where
  "own_step senv s t \<longleftrightarrow> sched_step senv s t \<and> pc_of t \<noteq> pc_of s \<and> gave_up t = gave_up s \<and> (\<forall>dev item. pc_of s \<noteq> Ready dev item)"

lemma put_system_again [simp]: "put_system t (put_system s w) = put_system t w"
  by (simp add: put_system_def put_module_def module_of_def)

lemma own_run:
  assumes "(own_step senv)\<^sup>*\<^sup>* s t" "(whole_step env hl senv db)\<^sup>*\<^sup>* w (put_system s w')"
  shows "(whole_step env hl senv db)\<^sup>*\<^sup>* w (put_system t w')"
  using assms(1)
proof (induction rule: rtranclp_induct)
  case (step u v)
  have "wh_pc (put_system u w') = pc_of u" "wh_gave_up (put_system u w') = gave_up u" "system_of (mgr u) (put_system u w') = u"
    by (simp_all add: put_system_def put_module_def) (simp add: system_of_def)
  then have "whole_step env hl senv db (put_system u w') (put_system v (put_system u w'))"
    using step.hyps(2) by (intro whole_step.scheduler) (auto simp: own_step_def)
  with step.IH show ?case by (simp add: rtranclp.rtrancl_into_rtrancl)
qed (rule assms(2))

text \<open>A point that was pending when the module went down; one attempt is configured and the port is closed.\<close>

definition pending_point :: point where
  "pending_point = example_write\<lparr>pt_UUID := ''p'', pt_PointState := PointStateApiWritePending\<rparr>"

definition pending_env :: "log module_env" where
  "pending_env = node_env\<lparr>me_grpc := log_grpc (node\<lparr>dev_Points := [pending_point]\<rparr>)\<rparr>"

definition one_attempt :: config where
  "one_attempt = DefaultConfig\<lparr>cfg_WriteQueueMaxRetries := 1\<rparr>"

definition pending_lc :: "log lifecycle" where
  "pending_lc = snd (Enable pending_env one_attempt
     \<lparr>lc_module = node_module None, lc_interrupt = None, lc_loops = 0, lc_retired = [], lc_clients = []\<rparr>)"

definition pending_system :: "pc \<Rightarrow> pending_write \<Rightarrow> nat \<Rightarrow> system" where
  "pending_system p item r =
     \<lparr>mgr = \<lparr>mgr_store = [item], queues = [pt_DeviceUUID pending_point \<mapsto> [0]], mgr_order = [pt_DeviceUUID pending_point],
        rrIndex = r, maxRetry = 1, notify_full = True, stop_closed = False\<rparr>,
      pc_of = p, waking = 0, air = [], gave_up = [], dropped = []\<rparr>"

lemma pending_lc_facts:
  "md_manager (lc_module pending_lc) = Some (mgr (pending_system Top (new_item pending_point) 0))"
  "md_grpc (lc_module pending_lc) = []" "\<not> Port (md_serial (lc_module pending_lc))"
proof -
  have w: "write_pending pending_point" by (simp add: write_pending_def pending_point_def)
  have e: "EnqueuePoint pending_point (NewPointWriteQueueManager 1) = mgr (pending_system Top (new_item pending_point) 0)"
    by (simp add: EnqueuePoint_def getOrCreateQueue_def NewPointWriteQueueManager_def NewPointWriteQueue_def append_point_def
        put_queue_def EnqueueWriteQueue_def wake_def pending_system_def)
  show "md_manager (lc_module pending_lc) = Some (mgr (pending_system Top (new_item pending_point) 0))"
    by (simp add: pending_lc_def Enable_def pending_env_def log_grpc_def one_attempt_def enqueue_pending_def w e Let_def)
  show "md_grpc (lc_module pending_lc) = []"
    by (simp add: pending_lc_def Enable_def pending_env_def log_grpc_def node_module_def updatePluginMessage_def Let_def)
  show "\<not> Port (md_serial (lc_module pending_lc))"
    by (simp add: pending_lc_def Enable_def pending_env_def log_grpc_def node_module_def serial_start_def initWriteQueue_def Let_def)
qed

lemma pending_writable: "writable_point pending_point" "pt_AddressUUID pending_point = Some (wire_hex [0xc0, 0xff, 0xee, 1])"
proof -
  show "writable_point pending_point"
    using example_writable_point by (auto simp: pending_point_def writable_point_def split: option.splits sum.splits)
qed (simp add: pending_point_def example_write_def)

lemma pending_own:
  "\<exists>f. (own_step example_sched)\<^sup>*\<^sup>* (pending_system Top (new_item pending_point) 0)
     (pending_system (Ready (pt_DeviceUUID pending_point) 0) ((new_item pending_point)\<lparr>MessageId := 42, Message := Some f\<rparr>) 1)"
proof -
  let ?d = "pt_DeviceUUID pending_point" and ?i = "new_item pending_point"
  obtain f where f: "prepareMessage example_sched 42 0 [?i] = Some (Inr [?i\<lparr>MessageId := 42, Message := Some f\<rparr>])"
    using example_prepare_point [OF pending_writable] by blast
  have "own_step example_sched (pending_system Top ?i 0) (pending_system (Scan 0) ?i 0)"
    using sched_step.scan_start [of "pending_system Top ?i 0" example_sched] by (simp add: own_step_def pending_system_def)
  moreover have "own_step example_sched (pending_system (Scan 0) ?i 0) (pending_system (Chosen ?d 0) ?i 1)"
    using sched_step.scan_hit [of "pending_system (Scan 0) ?i 0" 0 "[0]" 0 example_sched]
    by (simp add: own_step_def pending_system_def scan_device_def scan_index_def Peek_def)
  moreover have "own_step example_sched (pending_system (Chosen ?d 0) ?i 1)
      (pending_system (Ready ?d 0) (?i\<lparr>MessageId := 42, Message := Some f\<rparr>) 1)"
    using sched_step.prepared [of "pending_system (Chosen ?d 0) ?i 1" ?d 0 example_sched 42 "[?i\<lparr>MessageId := 42, Message := Some f\<rparr>]"] f
    by (simp add: own_step_def pending_system_def item_at_def new_item_def)
  ultimately show ?thesis by (intro exI [of _ f]) (meson converse_rtranclp_into_rtranclp rtranclp.rtrancl_refl)
qed

lemma closed_port: "\<not> Port s \<Longrightarrow> \<exists>p. WriteToLoRaRaw f s = (Some (ErrMsg ''serial port not connected''), p)"
  by (simp add: WriteToLoRaRaw_def initWriteQueue_def Let_def)

lemma pending_failed:
  "\<exists>w. (whole_step pending_env hl example_sched db)\<^sup>*\<^sup>* (whole_start pending_lc) w \<and> wh_gave_up w = [0]
     \<and> (\<exists>m i. md_manager (module_of w) = Some m \<and> mgr_store m = [i] \<and> Point i = pending_point \<and> \<not> acked i)"
proof -
  let ?d = "pt_DeviceUUID pending_point" and ?i = "new_item pending_point" and ?w = "whole_start pending_lc"
  let ?run = "(whole_step pending_env hl example_sched db)\<^sup>*\<^sup>*"
  note more = rtranclp.rtrancl_into_rtrancl [of "whole_step pending_env hl example_sched db" ?w]
  have s0: "put_system (pending_system Top ?i 0) ?w = ?w"
    using pending_lc_facts(1) by (simp add: put_system_def put_module_def module_of_def whole_start_def pending_system_def)
  obtain f where own: "(own_step example_sched)\<^sup>*\<^sup>* (pending_system Top ?i 0) (pending_system (Ready ?d 0) (?i\<lparr>MessageId := 42, Message := Some f\<rparr>) 1)"
    using pending_own by blast
  let ?j = "?i\<lparr>MessageId := 42, Message := Some f\<rparr>"
  let ?w1 = "put_system (pending_system (Ready ?d 0) ?j 1) ?w"
  have r1: "?run ?w ?w1" using own_run [OF own, of pending_env hl db ?w ?w] by (simp add: s0)
  have p1: "\<not> Port (md_serial (module_of ?w1))" using pending_lc_facts(3) by simp
  obtain p where sr: "WriteToLoRaRaw f (md_serial (module_of ?w1)) = (Some (ErrMsg ''serial port not connected''), p)"
    using closed_port [OF p1] by blast
  have commute: "put_serial p (put_system t v) = put_system t (put_serial p v)" for t and v :: "log whole"
    by (simp add: put_serial_def put_system_def put_module_def module_of_def)
  have sys: "system_of (mgr t) (put_system t v) = t" "wh_pc (put_system t v) = pc_of t" "wh_gave_up (put_system t v) = gave_up t"
    for t and v :: "log whole"
    by (simp_all add: put_system_def put_module_def) (simp add: system_of_def)
  let ?v = "put_serial p ?w"
  let ?w3 = "put_system (pending_system (GivingUp ?d 0 True) (?j\<lparr>RetryCount := 1\<rparr>) 1) ?v"
  have "whole_step pending_env hl example_sched db ?w1
      (put_serial p (put_system ((system_of (mgr (pending_system (Ready ?d 0) ?j 1)) ?w1)\<lparr>pc_of := Failed ?d 0 True\<rparr>) ?w1))"
    by (rule whole_step.transmit_error [OF _ _ _ sr]) (simp_all add: sys, simp_all add: pending_system_def)
  then have "whole_step pending_env hl example_sched db ?w1 (put_system (pending_system (Failed ?d 0 True) ?j 1) ?v)"
    by (simp add: sys commute) (simp add: pending_system_def)
  from more [OF r1 this] have r2: "?run ?w (put_system (pending_system (Failed ?d 0 True) ?j 1) ?v)" .
  have "own_step example_sched (pending_system (Failed ?d 0 True) ?j 1) (pending_system (GivingUp ?d 0 True) (?j\<lparr>RetryCount := 1\<rparr>) 1)"
    using sched_step.counted [of "pending_system (Failed ?d 0 True) ?j 1" ?d 0 True False "mgr (pending_system Top (?j\<lparr>RetryCount := 1\<rparr>) 1)" example_sched]
    by (simp add: own_step_def pending_system_def count_attempt_def IncRetry_def update_item_def new_item_def Let_def)
  from own_run [OF r_into_rtranclp [of "own_step example_sched", OF this] r2]
  have r3: "?run ?w ?w3" .
  obtain pt m i where g: "give_up ?d 0 (mgr (pending_system (GivingUp ?d 0 True) (?j\<lparr>RetryCount := 1\<rparr>) 1)) = (Some pt, m)"
    and i: "mgr_store m = [i]" "Point i = pending_point" "\<not> acked i"
    by (simp add: give_up_def RemoveItem_def queue_of_def pending_system_def put_queue_def update_item_def markDone_def new_item_def)
  let ?w4 = "put_grpc (onWriteExhausted pending_env pt (md_grpc (module_of ?w3)))
      (put_system ((system_of (mgr (pending_system (GivingUp ?d 0 True) (?j\<lparr>RetryCount := 1\<rparr>) 1)) ?w3)\<lparr>mgr := m,
        pc_of := after_attempt True, gave_up := wh_gave_up ?w3 @ [0]\<rparr>) ?w3)"
  have "whole_step pending_env hl example_sched db ?w3 ?w4"
    by (rule whole_step.gives_up [OF _ _ g]) (simp_all add: sys, simp add: pending_system_def)
  from more [OF r3 this] have run: "?run ?w ?w4" .
  show ?thesis
    by (intro exI [of _ ?w4] exI [of _ m] exI [of _ i] conjI run i)
       (simp_all add: sys put_grpc_def put_module_def, simp_all add: put_system_def pending_system_def put_module_def module_of_def)
qed

subsection \<open>Properties\<close>

text \<open>C5: The running module is a run of the write scheduler: from \<^verbatim>\<open>Enable\<close> on, whatever frames, requests,
  pings, serial errors, changes of the data base and interleavings occur, the queue manager with the
  scheduler is in a state that the scheduler's transition system reaches from an empty start.  So its theorems
  hold in the module; in particular no write is sent more often than the configured number of attempts.\<close>

theorem module_refines_scheduler:
  assumes "(whole_step env hl senv db)\<^sup>*\<^sup>* (whole_start (snd (Enable env' cfg lc))) w"
  shows "\<exists>m. md_manager (module_of w) = Some m \<and> reachable senv (cfg_WriteQueueMaxRetries cfg) (system_of m w)
    \<and> (\<forall>a < length (mgr_store m). int (count_list (map fst (wh_air w)) a) \<le> max 1 (cfg_WriteQueueMaxRetries cfg))"
proof -
  obtain m where m: "md_manager (module_of w) = Some m" "reachable senv (cfg_WriteQueueMaxRetries cfg) (system_of m w)"
    using whole.holds [OF assms refl] by (auto simp: scheduled_def)
  then show ?thesis using accountedD(3,4) [OF reachable_accounted [OF m(2)]] by (auto simp: attempts_ok_def sends_def)
qed

theorem module_refines_scheduler_witness:
  "\<forall>hl. \<exists>w m. (whole_step pending_env hl example_sched (=))\<^sup>*\<^sup>* (whole_start pending_lc) w \<and> wh_gave_up w = [0]
    \<and> md_manager (module_of w) = Some m \<and> reachable example_sched 1 (system_of m w)
    \<and> (\<forall>a < length (mgr_store m). int (count_list (map fst (wh_air w)) a) \<le> max 1 1)"
proof
  fix hl
  obtain w where w: "(whole_step pending_env hl example_sched (=))\<^sup>*\<^sup>* (whole_start pending_lc) w" "wh_gave_up w = [0]"
    using pending_failed by blast
  have k: "cfg_WriteQueueMaxRetries one_attempt = 1" by (simp add: one_attempt_def)
  from module_refines_scheduler [OF w(1) [unfolded pending_lc_def], unfolded k] obtain m where
    "md_manager (module_of w) = Some m" "reachable example_sched 1 (system_of m w)"
    "\<forall>a < length (mgr_store m). int (count_list (map fst (wh_air w)) a) \<le> max 1 1"
    by blast
  with w show "\<exists>w m. (whole_step pending_env hl example_sched (=))\<^sup>*\<^sup>* (whole_start pending_lc) w \<and> wh_gave_up w = [0]
    \<and> md_manager (module_of w) = Some m \<and> reachable example_sched 1 (system_of m w)
    \<and> (\<forall>a < length (mgr_store m). int (count_list (map fst (wh_air w)) a) \<le> max 1 1)"
    by blast
qed

text \<open>C3: The end of every write is reported to the data base exactly once.  With a data base that records
  the attempts to write points, the reports of an end (\<^verbatim>\<open>WriteOk\<close> or \<^verbatim>\<open>ApiWriteFailed\<close>) since \<^verbatim>\<open>Enable\<close> are, in
  some order of the writes, one for each write that was acknowledged and one for each that was given up
  (unless its point has no UUID, as that of a ping), for the point of that write; \<^verbatim>\<open>WriteOk\<close> is reported for
  acknowledged writes only.  A write that is dropped because no frame can be built is never reported.\<close>

theorem writes_reported_once:
  assumes "point_log env writes" "\<And>g g'. db g g' \<Longrightarrow> filter settling (writes g') = filter settling (writes g)"
    and "(whole_step env hl senv db)\<^sup>*\<^sup>* (whole_start (snd (Enable env cfg lc))) w"
  shows "\<exists>m xs new. md_manager (module_of w) = Some m
    \<and> filter settling (writes (md_grpc (module_of w))) = filter settling (writes (md_grpc (lc_module (snd (Enable env cfg lc))))) @ new
    \<and> distinct xs
    \<and> (\<forall>a. a \<in> set xs \<longleftrightarrow> a < length (mgr_store m)
          \<and> (acked (mgr_store m ! a) \<or> a \<in> set (wh_gave_up w) \<and> pt_UUID (Point (mgr_store m ! a)) \<noteq> ''''))
    \<and> list_all2 (\<lambda>a (uuid, pw). uuid = pt_UUID (Point (mgr_store m ! a))
          \<and> (pw_PollState pw = PointStateApiWriteFailed \<or> pw_PollState pw = PointStateWriteOk \<and> acked (mgr_store m ! a))) xs new"
proof -
  let ?w0 = "whole_start (snd (Enable env cfg lc))" and ?k = "cfg_WriteQueueMaxRetries cfg"
  let ?old = "filter settling (writes (md_grpc (lc_module (snd (Enable env cfg lc)))))"
  have "point_log.reporting writes senv ?k ?old w"
    using assms(3)
  proof (induction rule: rtranclp_induct)
    case base
    show ?case using point_log.reporting_enable [OF assms(1), of senv cfg lc] by (simp only: point_log.ends_def [OF assms(1)])
  next
    case (step v u)
    show ?case by (rule point_log.reporting_step [OF assms(1) step.hyps(2) step.IH])
       (use assms(2) in \<open>simp add: point_log.ends_def [OF assms(1)]\<close>)
  qed
  then show ?thesis
    unfolding point_log.reporting_def [OF assms(1)] point_log.ends_def [OF assms(1)] reported_def
    by (force simp: ended_def item_at_def system_of_def reports_end_def [abs_def] case_prod_beta')
qed

theorem writes_reported_once_witness:
  "\<forall>hl. \<exists>w uuid pw. (whole_step pending_env hl example_sched (=))\<^sup>*\<^sup>* (whole_start pending_lc) w \<and> wh_gave_up w = [0]
    \<and> filter settling (md_grpc (module_of w)) = [(uuid, pw)] \<and> uuid = ''p'' \<and> pw_PollState pw = PointStateApiWriteFailed"
proof
  fix hl
  obtain w m i where w: "(whole_step pending_env hl example_sched (=))\<^sup>*\<^sup>* (whole_start pending_lc) w" "wh_gave_up w = [0]"
    "md_manager (module_of w) = Some m" "mgr_store m = [i]" "Point i = pending_point" "\<not> acked i"
    using pending_failed by blast
  have l: "point_log pending_env (\<lambda>g. g)" unfolding pending_env_def by (rule log_grpc.point_log_axioms)
  have d: "\<And>g g' :: log. g = g' \<Longrightarrow> filter settling ((\<lambda>g. g) g') = filter settling ((\<lambda>g. g) g)" by simp
  from writes_reported_once [OF l d w(1) [unfolded pending_lc_def], folded pending_lc_def, unfolded w(3) pending_lc_facts(2)]
  obtain xs new where n: "filter settling (md_grpc (module_of w)) = new" "distinct xs"
      "\<forall>a. a \<in> set xs \<longleftrightarrow> a < length (mgr_store m)
          \<and> (acked (mgr_store m ! a) \<or> a \<in> set (wh_gave_up w) \<and> pt_UUID (Point (mgr_store m ! a)) \<noteq> '''')"
      "list_all2 (\<lambda>a (uuid, pw). uuid = pt_UUID (Point (mgr_store m ! a))
          \<and> (pw_PollState pw = PointStateApiWriteFailed \<or> pw_PollState pw = PointStateWriteOk \<and> acked (mgr_store m ! a))) xs new"
    by (simp only: option.inject filter.simps append.simps) blast
  have "a \<in> set xs \<longleftrightarrow> a = 0" for a using spec [OF n(3), of a] w(2,4-6) by (cases a) (simp_all add: pending_point_def)
  then have "set xs = {0}" by blast
  moreover from this have "length xs = 1" using distinct_card [OF n(2)] by simp
  ultimately have xs: "xs = [0]" by (cases xs) auto
  obtain x where x: "new = [x]" using n(4) unfolding xs by (auto simp only: list_all2_Cons1 list_all2_Nil)
  obtain uuid pw where p: "x = (uuid, pw)" by (cases x)
  have "uuid = ''p''" "pw_PollState pw = PointStateApiWriteFailed"
    using n(4) w(4-6) unfolding xs x p by (simp_all add: pending_point_def)
  with n(1) w(1,2) x p show "\<exists>w uuid pw. (whole_step pending_env hl example_sched (=))\<^sup>*\<^sup>* (whole_start pending_lc) w \<and> wh_gave_up w = [0]
    \<and> filter settling (md_grpc (module_of w)) = [(uuid, pw)] \<and> uuid = ''p'' \<and> pw_PollState pw = PointStateApiWriteFailed"
    by blast
qed

end
