(* ===== verification/Write_Settling.thy ===== *)
theory Write_Settling
  imports Write_Progress
begin

text \<open>
  The scheduler comes to rest: as long as no write is queued, it moves a bounded number of times,
  whatever responses, time-outs, serial errors and stops occur and in whatever order; and where it
  can move no further, every write has had its outcome.
\<close>

subsection \<open>Steps that queue nothing\<close>

definition quiet_step :: "sched_env \<Rightarrow> system \<Rightarrow> system \<Rightarrow> bool" where
  "quiet_step env s t \<longleftrightarrow> sched_step env s t \<and> length (mgr_store (mgr t)) = length (mgr_store (mgr s))
     \<and> mgr_order (mgr t) = mgr_order (mgr s)"

text \<open>The moves that are counted: those of the scheduler, and the wake-ups that are still due.\<close>

definition moves :: "system \<Rightarrow> system \<Rightarrow> bool" where
  "moves s t \<longleftrightarrow> pc_of t \<noteq> pc_of s \<or> waking t < waking s"

subsection \<open>The rank\<close>

text \<open>The attempts left of all pending writes, and a round of the scheduler for each.\<close>

definition attempts_left :: "int \<Rightarrow> pending_write \<Rightarrow> nat" where
  "attempts_left n p = (if done_closed p then 0 else nat (max 1 n - RetryCount p))"

definition work :: "int \<Rightarrow> store \<Rightarrow> nat" where
  "work n st = sum_list (map (attempts_left n) st)"

definition units :: "int \<Rightarrow> system \<Rightarrow> nat" where
  "units n s = work n (mgr_store (mgr s)) + waking s + of_bool (notify_full (mgr s))"

text \<open>The position in the round.  An attempt on a write that is still pending is paid for when it is
  counted; the response that settles a write has paid for the rest of its round.\<close>

fun phase :: "manager \<Rightarrow> pc \<Rightarrow> nat" where
  "phase m Ended = 0"
| "phase m Panicked = 0"
| "phase m WaitNotify = 1"
| "phase m (Failed dev a pause) = (if pending m a then 6 else length (mgr_order m) + 16)"
| "phase m (Await dev a) = (if pending m a then 7 else length (mgr_order m) + 17)"
| "phase m (Ready dev a) = (if pending m a then 8 else length (mgr_order m) + 18)"
| "phase m (Chosen dev a) = (if pending m a then 9 else length (mgr_order m) + 19)"
| "phase m (Scan i) = 2 + (length (mgr_order m) + 10 - i)"
| "phase m Top = length (mgr_order m) + 13"
| "phase m Backoff = length (mgr_order m) + 14"
| "phase m (GivingUp dev a pause) = length (mgr_order m) + 15"

abbreviation round_size :: "system \<Rightarrow> nat" where
  "round_size s \<equiv> length (mgr_order (mgr s)) + 20"

definition rank :: "int \<Rightarrow> system \<Rightarrow> nat" where
  "rank n s = units n s * round_size s + phase (mgr s) (pc_of s) + waking s"

lemma phase_bound: "phase m p < length (mgr_order m) + 20"
  by (cases p) simp_all

lemma phase_fields [simp]:
  "phase (m\<lparr>notify_full := b\<rparr>) p = phase m p" "phase (m\<lparr>stop_closed := b\<rparr>) p = phase m p"
  "phase (m\<lparr>rrIndex := i\<rparr>) p = phase m p"
  by (cases p; simp add: pending_def)+

lemma phase_after: "phase m (after_attempt pause) \<le> length (mgr_order m) + 14"
  by (simp add: after_attempt_def)

text \<open>A step pays with a unit, or goes down within the round.\<close>

lemma rank_pays:
  assumes "mgr_order (mgr t) = mgr_order (mgr s)" "waking t \<le> waking s" "units n t < units n s"
  shows "rank n t + of_bool (moves s t) \<le> rank n s"
proof -
  have "(units n t + 1) * round_size s \<le> units n s * round_size s" using assms(3) by (intro mult_le_mono1) simp
  then show ?thesis using assms(1,2) phase_bound [of "mgr t" "pc_of t"] unfolding rank_def by simp
qed

lemma rank_moves:
  assumes "mgr_order (mgr t) = mgr_order (mgr s)" "units n t \<le> units n s"
    "phase (mgr t) (pc_of t) + waking t + of_bool (moves s t) \<le> phase (mgr s) (pc_of s) + waking s"
  shows "rank n t + of_bool (moves s t) \<le> rank n s"
proof -
  have "units n t * round_size s \<le> units n s * round_size s" using assms(2) by (rule mult_le_mono1)
  then show ?thesis using assms(3) unfolding rank_def assms(1) by linarith
qed

lemma rank_descends:
  assumes "mgr_order (mgr t) = mgr_order (mgr s)" "units n t \<le> units n s" "waking t = waking s"
    "phase (mgr t) (pc_of t) < phase (mgr s) (pc_of s)"
  shows "rank n t + of_bool (moves s t) \<le> rank n s"
  by (rule rank_moves [OF assms(1,2)]) (use assms(3,4) in simp)

lemma work_update:
  assumes "a < length st"
  shows "work n (update_item a f st) + attempts_left n (st ! a) = work n st + attempts_left n (f (st ! a))"
proof -
  have "attempts_left n (st ! a) \<le> sum_list (map (attempts_left n) st)"
    using assms by (intro member_le_sum_list) simp_all
  then show ?thesis using assms by (simp add: work_def update_item_def map_update sum_list_update)
qed

lemma work_remove:
  assumes "pending m a"
  shows "work n (mgr_store (remove_head b a m)) + attempts_left n (mgr_store m ! a) = work n (mgr_store m)"
  using work_update [of a "mgr_store m" n "markDone b"] assms by (simp add: pending_def attempts_left_def)

lemma active_left:
  assumes "reachable env n s" "pending (mgr s) a" "\<not> giving (pc_of s) a"
  shows "0 < attempts_left n (mgr_store (mgr s) ! a)"
  using accountedD(4) [OF reachable_accounted [OF assms(1)], of a] assms(2,3)
  by (auto simp: attempts_ok_def attempts_left_def pending_def active_def)

text \<open>A step that removes a pending write which is not being given up pays with its attempts.\<close>

lemma rank_remove:
  assumes "reachable env n s" "pending (mgr s) a" "\<not> giving (pc_of s) a"
    "mgr t = remove_head b a (mgr s)" "waking t = waking s"
  shows "rank n t + of_bool (moves s t) \<le> rank n s"
proof (rule rank_pays)
  have "notify_full (mgr t) = notify_full (mgr s)" using assms(4) by (simp add: remove_head_def Let_def)
  then show "units n t < units n s"
    using work_remove [OF assms(2), of n b] active_left [OF assms(1-3)] assms(4,5) by (simp add: units_def)
qed (use assms(4,5) in \<open>simp_all add: remove_head_def Let_def\<close>)

lemma quiet_ranked:
  assumes r: "reachable env n s" and q: "quiet_step env s t"
  shows "rank n t + of_bool (moves s t) \<le> rank n s"
proof -
  have step: "sched_step env s t" and len: "length (mgr_store (mgr t)) = length (mgr_store (mgr s))"
    and ord: "mgr_order (mgr t) = mgr_order (mgr s)" using q by (simp_all add: quiet_step_def)
  show ?thesis
    using step
  proof cases
    case (create dev)
    then have "t = s" using ord by (auto simp: getOrCreateQueue_def Let_def split: option.splits)
    then show ?thesis by (simp add: moves_def)
  next
    case (append pt q)
    then show ?thesis using len by simp
  next
    case (wakes k)
    then show ?thesis by (intro rank_moves) (simp_all add: units_def moves_def wake_def pending_def)
  next
    case (response dev i v m)
    from step_response [OF r response(2)] show ?thesis
    proof
      assume "m = mgr s"
      then show ?thesis using response(1) by (simp add: moves_def)
    next
      assume "\<exists>a. pending (mgr s) a \<and> Message (mgr_store (mgr s) ! a) \<noteq> None \<and> m = remove_head True a (mgr s)"
      then obtain a where a: "pending (mgr s) a" "m = remove_head True a (mgr s)" by blast
      show ?thesis
      proof (cases "giving (pc_of s) a")
        case True
        have "units n t \<le> units n s"
          using work_remove [OF a(1), of n True] response(1) a(2) by (simp add: units_def remove_head_def Let_def)
        then show ?thesis using True ord response(1)
          by (intro rank_moves) (auto simp: giving_def moves_def)
      qed (rule rank_remove [OF r a(1)], use response(1) a(2) in simp_all)
    qed
  next
    case stops
    then show ?thesis by (intro rank_moves) (simp_all add: units_def moves_def manager_Stop_def pending_def)
  next
    case (scan_hit i q item)
    have "item \<in> set q" using scan_hit(5) by (simp add: Peek_def split: list.splits)
    then have "pending (mgr s) item"
      using queues_ok_mem [OF structuredD(1) [OF reachable_structured [OF r]] scan_hit(4)] by (simp add: pending_def)
    then have "phase (mgr t) (pc_of t) = 9" using scan_hit(1) by (simp add: pending_def)
    moreover have "10 \<le> phase (mgr s) (pc_of s)" using scan_hit(2,3) by simp
    ultimately show ?thesis using scan_hit(1) by (intro rank_moves) (simp_all add: units_def moves_def)
  next
    case notified
    then show ?thesis by (intro rank_pays) (simp_all add: units_def)
  next
    case (prepared dev item messageId st)
    then obtain frame where st: "st = SetMessage item messageId frame (mgr_store (mgr s))" using prepareMessage_stores by blast
    have i: "item < length (mgr_store (mgr s))" using reachable_item(1) [OF r] prepared(2) by simp
    have "work n st = work n (mgr_store (mgr s))"
      using work_update [OF i, where n = n and f = "\<lambda>p. p\<lparr>MessageId := messageId, Message := Some frame\<rparr>"] st
      by (simp add: SetMessage_def attempts_left_def split: if_splits)
    moreover have "pending (mgr t) item = pending (mgr s) item"
      using prepared(1) st i by (simp add: pending_def SetMessage_def)
    ultimately show ?thesis using prepared(1,2) by (intro rank_moves) (simp_all add: units_def moves_def)
  next
    case (undeliverable dev item i err)
    note u = step_undeliverable [OF r undeliverable(2,4)]
    show ?thesis by (rule rank_remove [OF r u(1)]) (use undeliverable(1,2) u(2) in \<open>simp_all add: giving_def\<close>)
  next
    case (counted dev item pause retry m)
    note c = step_counted(1) [OF r counted(2,3)]
    have i: "item < length (mgr_store (mgr s))" using reachable_item(1) [OF r] counted(2) by simp
    note w = work_update [OF i, of n "\<lambda>p. p\<lparr>RetryCount := RetryCount p + 1\<rparr>"]
    show ?thesis
    proof (cases "pending (mgr s) item")
      case True
      have "0 < attempts_left n (mgr_store (mgr s) ! item)"
        by (rule active_left [OF r True]) (simp add: counted(2) giving_def)
      moreover have "\<not> done_closed (mgr_store (mgr s) ! item)" using True by (simp add: pending_def)
      ultimately have "work n (mgr_store m) < work n (mgr_store (mgr s))"
        using w c by (auto simp: attempts_left_def split: if_splits)
      then show ?thesis using counted(1) c ord by (intro rank_pays) (simp_all add: units_def)
    next
      case False
      then have "work n (mgr_store m) = work n (mgr_store (mgr s))" using w c i by (simp add: attempts_left_def pending_def)
      moreover have "phase (mgr t) (pc_of t) \<le> length (mgr_order (mgr s)) + 15"
        using phase_after [of m pause] c counted(1) by simp
      moreover have "phase (mgr s) (pc_of s) = length (mgr_order (mgr s)) + 16" using counted(2) False by simp
      ultimately show ?thesis by (intro rank_descends ord) (simp_all add: units_def counted(1) c)
    qed
  next
    case (exhausted dev item pause pt m)
    note g = step_give_up(1) [OF r exhausted(2,3) refl]
    have "units n t \<le> units n s"
      using work_remove [of "mgr s" item n False] g exhausted(1) by (simp add: units_def remove_head_def Let_def)
    moreover have "phase (mgr t) (pc_of t) \<le> length (mgr_order (mgr s)) + 14"
      using phase_after [of m pause] ord exhausted(1) by simp
    moreover have "phase (mgr s) (pc_of s) = length (mgr_order (mgr s)) + 15" using exhausted(2) by simp
    ultimately show ?thesis by (intro rank_descends ord) (simp_all add: exhausted(1))
  next
    case (overtaken dev item pause m)
    have "m = mgr s" using step_give_up(2) [OF r overtaken(2,3) refl] by simp
    then have "phase (mgr t) (pc_of t) \<le> length (mgr_order (mgr s)) + 14"
      using phase_after [of m pause] overtaken(1) by simp
    moreover have "phase (mgr s) (pc_of s) = length (mgr_order (mgr s)) + 15" using overtaken(2) by simp
    ultimately show ?thesis by (intro rank_descends ord) (simp_all add: units_def overtaken(1) \<open>m = mgr s\<close>)
  next
    case (scan_end i)
    then show ?thesis by (intro rank_moves) (simp_all add: units_def moves_def)
  next
    case (finished dev item)
    then show ?thesis by (intro rank_moves) (simp_all add: units_def moves_def pending_def item_at_def)
  qed (intro rank_moves; simp add: units_def moves_def)+
qed

interpretation settling: ranked_steps "quiet_step env" "reachable env n" "rank n" moves for env n
  by unfold_locales (use reachable_step quiet_ranked in \<open>auto simp: quiet_step_def\<close>)

text \<open>The rank at the start of a run.\<close>

lemma work_bound:
  assumes "reachable env n s"
  shows "work n (mgr_store (mgr s)) \<le> card {a. pending (mgr s) a} * nat (max 1 n)"
proof -
  let ?st = "mgr_store (mgr s)"
  have left: "attempts_left n (?st ! a) \<le> (if pending (mgr s) a then nat (max 1 n) else 0)" if "a < length ?st" for a
    using accountedD(4) [OF reachable_accounted [OF assms] that] that
    by (auto simp: attempts_ok_def attempts_left_def pending_def)
  have "work n ?st = (\<Sum>a < length ?st. attempts_left n (?st ! a))"
    by (simp add: work_def sum_list_sum_nth atLeast0LessThan)
  also have "\<dots> \<le> (\<Sum>a < length ?st. if pending (mgr s) a then nat (max 1 n) else 0)"
    by (rule sum_mono) (use left in simp)
  also have "\<dots> = card ({..<length ?st} \<inter> {a. pending (mgr s) a}) * nat (max 1 n)"
    by (simp add: sum.If_cases)
  also have "{..<length ?st} \<inter> {a. pending (mgr s) a} = {a. pending (mgr s) a}" by (auto simp: pending_def)
  finally show ?thesis .
qed

lemma rank_bound:
  assumes "reachable env n s"
  shows "rank n s \<le> (card {a. pending (mgr s) a} * nat (max 1 n) + waking s + 2) * round_size s + waking s"
proof -
  have "units n s + 1 \<le> card {a. pending (mgr s) a} * nat (max 1 n) + waking s + 2"
    using work_bound [OF assms] by (simp add: units_def)
  from mult_le_mono1 [OF this, of "round_size s"] show ?thesis
    using phase_bound [of "mgr s" "pc_of s"] unfolding rank_def by (simp add: add_mult_distrib)
qed

subsection \<open>At rest\<close>

text \<open>The scheduler can always move, except when it has ended or waits for a token.\<close>

lemma scheduler_moves:
  assumes r: "reachable env n s" and p: "pc_of s \<notin> {Ended, Panicked, WaitNotify}"
  shows "\<exists>t. quiet_step env s t \<and> pc_of t \<noteq> pc_of s"
proof -
  have quiet: "\<exists>t. quiet_step env s t \<and> pc_of t \<noteq> pc_of s"
    if "sched_step env s t" "pc_of t \<noteq> pc_of s" "length (mgr_store (mgr t)) = length (mgr_store (mgr s))"
      "mgr_order (mgr t) = mgr_order (mgr s)" for t
    using that by (auto simp: quiet_step_def)
  note ok = structuredD(1) [OF reachable_structured [OF r]]
  show ?thesis
  proof (cases "pc_of s")
    case Top
    then show ?thesis by (intro quiet [OF sched_step.scan_start]) simp_all
  next
    case (Scan i)
    show ?thesis
    proof (cases "i < length (mgr_order (mgr s))")
      case True
      then obtain q where q: "queues (mgr s) (scan_device (mgr s) i) = Some q" using scan_device_dom [OF ok] by blast
      show ?thesis
      proof (cases "Peek q")
        case None
        show ?thesis by (rule quiet [OF sched_step.scan_miss [OF Scan True q None]]) (simp_all add: Scan)
      next
        case (Some item)
        show ?thesis by (rule quiet [OF sched_step.scan_hit [OF Scan True q Some]]) (simp_all add: Scan)
      qed
    next
      case False
      show ?thesis by (rule quiet [OF sched_step.scan_end [OF Scan]]) (use False Scan in simp_all)
    qed
  next
    case (Chosen dev item)
    show ?thesis
    proof (cases "stop_closed (mgr s)")
      case True
      show ?thesis by (rule quiet [OF sched_step.chosen_stop [OF Chosen True]]) (simp_all add: Chosen)
    next
      case run: False
      show ?thesis
      proof (cases "Message (item_at s item) = None")
        case False
        show ?thesis by (rule quiet [OF sched_step.again [OF Chosen run False]]) (simp_all add: Chosen)
      next
        case True
        show ?thesis
        proof (cases "prepareMessage env 0 item (mgr_store (mgr s))")
          case None
          show ?thesis by (rule quiet [OF sched_step.prepare_panic [OF Chosen run True None]]) (simp_all add: Chosen)
        next
          case (Some v)
          show ?thesis
          proof (cases v)
            case (Inl err)
            show ?thesis
              by (rule quiet [OF sched_step.undeliverable [OF Chosen run True Some [unfolded Inl]]])
                 (use step_undeliverable(2) [OF r Chosen True] in \<open>simp_all add: Chosen remove_head_def Let_def\<close>)
          next
            case (Inr st)
            obtain frame where "st = SetMessage item 0 frame (mgr_store (mgr s))"
              using prepareMessage_stores Some Inr by blast
            then show ?thesis
              by (intro quiet [OF sched_step.prepared [OF Chosen run True Some [unfolded Inr]]]) (simp_all add: Chosen SetMessage_def)
          qed
        qed
      qed
    qed
  next
    case (Ready dev item)
    show ?thesis by (rule quiet [OF sched_step.serial_error [OF Ready]]) (simp_all add: Ready)
  next
    case (Await dev item)
    show ?thesis by (rule quiet [OF sched_step.timeout [OF Await]]) (simp_all add: Await)
  next
    case (Failed dev item pause)
    obtain retry m where c: "count_attempt item (mgr s) = (retry, m)" by fastforce
    show ?thesis by (rule quiet [OF sched_step.counted [OF Failed c]])
      (use step_counted(1) [OF r Failed c] in \<open>simp_all add: Failed after_attempt_def\<close>)
  next
    case (GivingUp dev item pause)
    obtain v m where g: "give_up dev item (mgr s) = (v, m)" by fastforce
    show ?thesis
    proof (cases v)
      case None
      show ?thesis by (rule quiet [OF sched_step.overtaken [OF GivingUp g [unfolded None]]])
        (use step_give_up(2) [OF r GivingUp g None] in \<open>simp_all add: GivingUp after_attempt_def\<close>)
    next
      case (Some pt)
      show ?thesis by (rule quiet [OF sched_step.exhausted [OF GivingUp g [unfolded Some]]])
        (use step_give_up(1) [OF r GivingUp g Some] in \<open>simp_all add: GivingUp after_attempt_def remove_head_def Let_def\<close>)
    qed
  next
    case Backoff
    show ?thesis by (rule quiet [OF sched_step.backoff_done [OF Backoff]]) (simp_all add: Backoff)
  qed (use p in simp_all)
qed

lemma rest_settled:
  assumes r: "reachable env n s" and rest: "\<forall>t. quiet_step env s t \<longrightarrow> \<not> moves s t"
    and live: "pc_of s \<notin> {Ended, Panicked}" and a: "a < length (mgr_store (mgr s))"
  shows "done_closed (mgr_store (mgr s) ! a)"
proof (rule ccontr)
  assume d: "\<not> done_closed (mgr_store (mgr s) ! a)"
  have still: "pc_of t = pc_of s \<and> waking s \<le> waking t" if "quiet_step env s t" for t
    using rest that by (auto simp: moves_def)
  have w: "pc_of s = WaitNotify" using scheduler_moves [OF r] still live by blast
  obtain q where "queues (mgr s) (device_of (mgr_store (mgr s)) a) = Some q" "a \<in> set q"
    using queues_ok_pending [OF structuredD(1) [OF reachable_structured [OF r]] a d] by blast
  then have "queue_of (mgr s) (device_of (mgr_store (mgr s)) a) \<noteq> []" by (auto simp: queue_of_def)
  then have "roused s" using watchfulD(3) [OF reachable_watchful [OF r] w] by blast
  then show False
  proof (unfold roused_def, elim disjE)
    assume "notify_full (mgr s)"
    from still [of "s\<lparr>mgr := (mgr s)\<lparr>notify_full := False\<rparr>, pc_of := Top\<rparr>"] sched_step.notified [OF w this]
    show False by (simp add: quiet_step_def w)
  next
    assume "0 < waking s"
    then obtain k where k: "waking s = Suc k" by (auto simp: gr0_conv_Suc)
    from still [of "s\<lparr>mgr := wake (mgr s), waking := k\<rparr>"] sched_step.wakes [OF k]
    show False by (simp add: quiet_step_def wake_def k)
  qed
qed

lemma quiet_run_writes:
  "counted_run (quiet_step env) mv s k t \<Longrightarrow> length (mgr_store (mgr t)) = length (mgr_store (mgr s))"
  by (induction rule: counted_run.induct) (simp_all add: quiet_step_def)

subsection \<open>Properties\<close>

text \<open>C4: Every write gets its outcome.  From any reachable state, as long as no further write is queued, the
  scheduler moves at most as often as the number of pending writes, their attempts and the queues say,
  whatever the responses, time-outs, serial errors and their order; a longest run exists, and where no move is
  possible any more, every write has been acknowledged, given up or dropped, unless the scheduler was stopped
  or has panicked.\<close>

theorem writes_settle:
  assumes "reachable env n s"
  shows "(\<forall>k t. counted_run (quiet_step env) moves s k t \<longrightarrow>
        k \<le> (card {a. pending (mgr s) a} * nat (max 1 n) + waking s + 2) * (length (mgr_order (mgr s)) + 20) + waking s
      \<and> length (mgr_store (mgr t)) = length (mgr_store (mgr s))
      \<and> ((\<forall>u. quiet_step env t u \<longrightarrow> \<not> moves t u) \<longrightarrow>
           pc_of t \<in> {Ended, Panicked} \<or> (\<forall>a < length (mgr_store (mgr t)). done_closed (mgr_store (mgr t) ! a))))
    \<and> (\<exists>k t. counted_run (quiet_step env) moves s k t \<and> (\<forall>u. quiet_step env t u \<longrightarrow> \<not> moves t u))"
proof (intro conjI allI impI)
  fix k t
  assume run: "counted_run (quiet_step env) moves s k t"
  note t = settling.bounded [OF run assms]
  show "k \<le> (card {a. pending (mgr s) a} * nat (max 1 n) + waking s + 2) * (length (mgr_order (mgr s)) + 20) + waking s"
    using t rank_bound [OF assms] by linarith
  show "length (mgr_store (mgr t)) = length (mgr_store (mgr s))" by (rule quiet_run_writes [OF run])
  assume "\<forall>u. quiet_step env t u \<longrightarrow> \<not> moves t u"
  from rest_settled [OF conjunct1 [OF t] this]
  show "pc_of t \<in> {Ended, Panicked} \<or> (\<forall>a < length (mgr_store (mgr t)). done_closed (mgr_store (mgr t) ! a))" by blast
qed (rule settling.settles [OF assms])

theorem writes_settle_witness:
  "\<exists>k t. counted_run (quiet_step example_sched) moves (example_state Top (example_item None 0 False) [0] 0 [] []) k t
    \<and> k \<le> 106 \<and> length (mgr_store (mgr t)) = 1 \<and> (pc_of t \<in> {Ended, Panicked} \<or> done_closed (mgr_store (mgr t) ! 0))"
proof -
  let ?s = "example_state Top (example_item None 0 False) [0] 0 [] []"
  have "{a. pending (mgr ?s) a} = {0}" by (auto simp: pending_def example_state_def example_item_def)
  then have b: "(card {a. pending (mgr ?s) a} * nat (max 1 2) + waking ?s + 2) * (length (mgr_order (mgr ?s)) + 20) + waking ?s = 106"
    and l: "length (mgr_store (mgr ?s)) = 1" by (simp_all add: example_state_def)
  note settle = writes_settle [OF example_queued [of example_sched], unfolded b l]
  obtain k t where r: "counted_run (quiet_step example_sched) moves ?s k t" "\<forall>u. quiet_step example_sched t u \<longrightarrow> \<not> moves t u"
    using conjunct2 [OF settle] by blast
  with conjunct1 [OF settle] have "k \<le> 106" "length (mgr_store (mgr t)) = 1"
    "pc_of t \<in> {Ended, Panicked} \<or> (\<forall>a < length (mgr_store (mgr t)). done_closed (mgr_store (mgr t) ! a))" by blast+
  then show ?thesis using r(1) by (intro exI [of _ k] exI [of _ t]) auto
qed

end
