(* ===== verification/Spec2Isabelle.thy ===== *)
theory Spec2Isabelle
  imports Module_System Write_Settling
begin

text \<open>
  A model of module-core-loraraw, the Rubix OS module that talks to LoRaRAW sensors through a radio on
  a serial port, and the theorems that say what it does.

  The program.  Lines of hexadecimal digits come from the serial port (\<^verbatim>\<open>run.go\<close>, \<^verbatim>\<open>serial.go\<close>).  Each
  is a wire frame: \<^verbatim>\<open>handleSerialPayload\<close> and \<^verbatim>\<open>dispatchFrame\<close> (\<^verbatim>\<open>app.go\<close>) look up its device, decrypt and
  authenticate it (\<^verbatim>\<open>aesutils\<close>), and call the decoder of the device's model (\<^verbatim>\<open>codecs\<close>), which reports
  values and errors to callbacks.  The callbacks (\<^verbatim>\<open>dbWriter.go\<close>) write points to a data base over gRPC, and
  the values go to MQTT (\<^verbatim>\<open>mqtt.go\<close>).  In the other direction a point write from HTTP (\<^verbatim>\<open>router.go\<close>) enters the
  queue of its device (\<^verbatim>\<open>writeQueue.go\<close>); one scheduler goroutine (\<^verbatim>\<open>writeQueueManager.go\<close>) encodes,
  encrypts and sends it, one frame on the air at a time, until the device's response or the retry limit.

  \<^bold>\<open>Theories\<close>, in the order of their imports:
  \<^item> \<open>Go_Prelude\<close>, \<open>Go_Float\<close>, \<open>Transitions\<close>: Go bytes, strings, slices and errors; float64 and float32 as
    exact rationals with IEEE rounding; invariants and bounded runs of transition systems (two locales).
  \<^item> \<open>Rubix_Serial\<close>, \<open>Rubix_Bits\<close>, \<open>Rubix_Pack\<close>, \<open>Rubix_Decoder\<close>, \<open>Rubix_Encoder\<close>: the Rubix wire format of
    \<^verbatim>\<open>codecs/rubixDataEncoding\<close>.  A bit buffer with read and write positions (\<open>serial_data\<close>), the table of
    metadata keys, the typed fields, the decode loop with its callbacks, \<open>EncodeRequestMessage\<close>.
  \<^item> \<open>Rubix_Roundtrip\<close>, \<open>Rubix_Format\<close>, \<open>Rubix_Values\<close>, \<open>Rubix_Wire\<close>: encoder and decoder together.  The bit buffer
    refines a bit string; the decoder agrees with a reference decoding of that string, whose format is written out
    (\<open>wire_points\<close>); messages decode to the points they were made from; accuracy of every data type.
  \<^item> \<open>Codec_Types\<close>, \<open>Codec_Base\<close>, \<open>Legacy_Decoders\<close>, \<open>Zip_HydroTap\<close>, \<open>Device_Registry\<close>, \<open>Analog_Inputs\<close>: devices,
    points and descriptions (\<^verbatim>\<open>codec\<close>), the legacy decoders (\<^verbatim>\<open>codecs/legacyDecoders\<close>), the table of models
    (\<^verbatim>\<open>codecs/codecs.go\<close>).  A nil function of a description is \<open>None\<close>, and calling it is a panic.
    What every decoder does to the state of its callbacks is proved once, in the locale \<open>reception\<close> (the client's
    callbacks keep an invariant \<open>R\<close> and panic only if \<open>Q\<close>); \<open>Frame_Dispatch\<close> extends it to whole frames.
  \<^item> \<open>Aes_Block\<close>, \<open>Aes_Utils\<close>: AES in CBC mode, written out, and \<^verbatim>\<open>aesutils.go\<close>.
  \<^item> \<open>Frame_Dispatch\<close>: \<^verbatim>\<open>dispatchFrame\<close> with its parameters in a record; which frames are delivered, dropped,
    or stop the program.
  \<^item> \<open>Write_Queue\<close>, \<open>Write_Scheduler\<close>, \<open>Write_Safety\<close>, \<open>Write_Progress\<close>: queues and scheduler.  Items live in a store and
    a queue is a list of addresses, since the code shares them by pointer.  Every critical section is a
    function on the manager's state; \<open>sched_step\<close> interleaves the scheduler with callers, responses and stops.
    The invariants (\<open>structured\<close>, \<open>accounted\<close>, \<open>settled\<close>, \<open>ordered\<close>, \<open>watchful\<close>) hold in every \<open>reachable\<close> state.
  \<^item> \<open>Write_Settling\<close>: a rank that every move of the scheduler lowers while nothing is queued (the locale \<open>ranked_steps\<close> of
    \<open>Transitions\<close>): the attempts left of all pending writes, each worth one round over the queues.
  \<^item> \<open>Mqtt_Client\<close>, \<open>Point_Store\<close>, \<open>Serial_Port\<close>, \<open>Db_Writer\<close>: what is published; the data base as a record of calls
    on an arbitrary state and the operations of \<^verbatim>\<open>app.go\<close> on it; the serial send queue as a transition
    system; the callbacks and the state \<open>module\<close> they change.
  \<^item> \<open>Uplink_Path\<close>: \<^verbatim>\<open>handleSerialPayload\<close>, a frame from the wire to the data base, the queues and MQTT.
  \<^item> \<open>Module_Loop\<close>, \<open>Module_Config\<close>, \<open>Module_Lifecycle\<close>, \<open>Module_Router\<close>: the run loop and its scanner as a transition
    system, the configuration, \<^verbatim>\<open>Enable\<close> and \<^verbatim>\<open>Disable\<close>, the HTTP handlers with their routing table, \<^verbatim>\<open>Init\<close>.
  \<^item> \<open>Module_Schema\<close>: what the module offers to the user interface (\<^verbatim>\<open>schema\<close>), against what the codecs can do.
  \<^item> \<open>Module_Reception\<close>, \<open>Point_Reports\<close>: the locales of reception interpreted on the module's callbacks, with three
    invariants: the write queues move by steps of the scheduler, no callback panics on a sound data base, and the end
    of a write is reported as it happens (for any data base that records the attempts to write points, \<open>point_log\<close>).
  \<^item> \<open>Module_System\<close>: the enabled module as one transition system \<open>whole_step\<close>: frames, HTTP requests, pings, the run
    loop's calls, the send queue, the scheduler with its frames and its give-ups, \<^verbatim>\<open>Disable\<close>, and others' changes of the
    data base, in any order.

  \<^bold>\<open>Conventions.\<close>  A panic is \<open>None\<close>, an error \<open>Inl\<close>, so every branch of the code is a branch of the model.  Bytes
  are \<open>8 word\<close> and Go's integers keep their width where they can overflow.  Fuel occurs in the loops over bits
  and in the scan of \<^verbatim>\<open>nextPending\<close> only, where it is the number of elements left; the theorems show that it
  suffices.

  \<^bold>\<open>What the theorems show.\<close>
  Reception: a message sealed by \<open>Encrypt\<close> is delivered as its options say, frames that do not authenticate are
  dropped, and the panics are known exactly; an uplink ends as point writes in stream order; a response
  acknowledges one write, as one step of the scheduler, or nothing.
  Codecs: round trips of messages and frames, accuracy bounds of the data types, the values of each decoder.
  Transmission: at most \<open>maxRetry\<close> attempts with one frame, exactly one outcome per write, order per device,
  no lost wake-up, fairness, a bounded number of moves until every write has its outcome, silence after a stop; \<^verbatim>\<open>Enable\<close> hands over exactly the pending writes.
  The whole module: each of its runs is a run of the scheduler, so that the theorems on transmission hold in it; the
  end of every write is reported to the data base exactly once, for its point.
  The remaining theorems are about the configuration, the serial port and the handlers.  Some of them state
  behaviour that is not what the code means to do: a ZipHydroTap frame that is always dropped, panics on empty
  payloads and on responses or writes to models without a codec for them, counters whose top value wraps,
  a serial error after which the port is not opened again, and data types that are offered but cannot be sent.

  \<^bold>\<open>Parameters\<close> are what is not in the repository: the CMAC (at least four bytes long, \<open>mac_ok\<close>), the gRPC data base, YAML, JSON,
  log levels, the thermistor table, title case, the serial library, the URL router, the schema library (\<^verbatim>\<open>Set\<close>, units),
  random message ids, the order of map
  iteration (\<open>map_order\<close>), the schedule of concurrent point creation, and Go's result for a float that is out of
  the range of an integer type (\<open>oor\<close>).

  \<^bold>\<open>Not modelled.\<close>  Log output; time (a time-out or a sleep is a step that may be taken at any moment); what the paho client
  behind \<^verbatim>\<open>mqtt.go\<close> does with its options; the field types of the schema library; \<^verbatim>\<open>main.go\<close>, one call that serves the
  plug-in.  Reflection is modelled by its result: a struct is the list of its fields with their tags.  Strings
  are byte strings: white space and letter case are those of ASCII.  In \<open>Module_System\<close> the handling of a frame and of
  a request is one step relative to the scheduler, although the code takes the locks several times in it; pings,
  which go on in the background, take theirs one by one.  The scheduler's look-up of devices and keys is a fixed function
  there, whatever happens to the data base, and the period is one from \<^verbatim>\<open>Enable\<close> on: a second \<^verbatim>\<open>Enable\<close> starts a new one.
  A stop that ends the wait for a response ends the scheduler at once (\<open>await_stop\<close> of \<open>sched_step\<close>), where the code
  scans the queues once more before it looks at the stop channel, which moves only the round robin index.  \<open>Enable\<close>
  is one step, although the scheduler goroutine already runs while the pending points are queued, and so is
  \<open>WriteToLoRaRaw\<close>, which in the code can fetch the channel before a stop and send on it afterwards.  \<open>processWriteQueue\<close>
  leaves out its \<^verbatim>\<open>recover\<close> and the pause of 50 ms between frames.
  The data race between the run loop and the HTTP handlers on the fields of \<^verbatim>\<open>Module\<close> is not modelled.  One run
  loop is modelled; the count \<open>lc_loops\<close> records that \<^verbatim>\<open>addNetwork\<close> starts another.
\<close>

end
